(* ===== verification/Prelude.thy ===== *)
theory Prelude
  imports
    Main
    "HOL-Library.Word"
    "HOL-Library.Char_ord"
    "HOL-Library.List_Lexorder"
    "HOL-Library.Product_Lexorder"
    "HOL-Library.Multiset"
begin

text \<open>
  Shared vocabulary of the development: the collections of rules the component theories fill,
  the row operations that model the statements of the persistence layer on a table (a list of
  rows), and facts on lists that are sorted by a key, which carry the ordering and pagination
  proofs.
\<close>

named_theorems row_simps \<open>lookup and key facts of the row operations\<close>
named_theorems status_simps \<open>evaluation of the lifecycle status tables\<close>

section \<open>Rows of a table\<close>

text \<open>
  A table is the list of its rows in their physical order. An UPDATE with a WHERE clause
  changes the matching rows in place, a DELETE filters, an INSERT appends.
\<close>

definition update_where :: "('r \<Rightarrow> bool) \<Rightarrow> ('r \<Rightarrow> 'r) \<Rightarrow> 'r list \<Rightarrow> 'r list" where
  "update_where P f rows = map (\<lambda>r. if P r then f r else r) rows"

definition has_row :: "('r \<Rightarrow> bool) \<Rightarrow> 'r list \<Rightarrow> bool" where
  "has_row P rows = (find P rows \<noteq> None)"

definition first_row :: "'r list \<Rightarrow> 'r option" where
  "first_row rows = (case rows of [] \<Rightarrow> None | r # _ \<Rightarrow> Some r)"

lemma update_where_simps [simp]:
  "update_where P f [] = []"
  "update_where P f (r # rows) = (if P r then f r else r) # update_where P f rows"
  by (simp_all add: update_where_def)

lemma length_update_where [simp]: "length (update_where P f rows) = length rows"
  by (simp add: update_where_def)

lemma map_update_where:
  assumes "\<And>r. g (f r) = g r"
  shows "map g (update_where P f rows) = map g rows"
  using assms by (simp add: update_where_def)

lemma set_update_where: "set (update_where P f rows) = f ` {r \<in> set rows. P r} \<union> {r \<in> set rows. \<not> P r}"
  by (induction rows) auto

lemma update_where_hit: "r \<in> set rows \<Longrightarrow> P r \<Longrightarrow> f r \<in> set (update_where P f rows)"
  by (auto simp: set_update_where)

lemma set_update_whereD:
  "r \<in> set (update_where P f rows) \<Longrightarrow> (\<exists>r0 \<in> set rows. P r0 \<and> r = f r0) \<or> (r \<in> set rows \<and> \<not> P r)"
  by (auto simp: set_update_where)

lemma update_where_none: "\<forall>r \<in> set rows. \<not> P r \<Longrightarrow> update_where P f rows = rows"
  by (induction rows) auto

lemma has_row_iff: "has_row P rows \<longleftrightarrow> (\<exists>r \<in> set rows. P r)"
  by (auto simp: has_row_def find_None_iff)

lemma has_key_iff: "has_row (\<lambda>r. key r = k) rows \<longleftrightarrow> k \<in> key ` set rows"
  by (auto simp: has_row_iff image_iff)

lemma find_cong_pred: "(\<And>r. P r = Q r) \<Longrightarrow> find P rows = find Q rows"
  by (induction rows) auto

lemma find_SomeD: "find P rows = Some r \<Longrightarrow> r \<in> set rows \<and> P r"
  by (induction rows) (auto split: if_splits)

lemma find_update_where_same:
  assumes "\<And>r. Q (f r) = Q r" and "\<And>r. Q r \<Longrightarrow> P r"
  shows "find Q (update_where P f rows) = map_option f (find Q rows)"
  using assms by (induction rows) auto

lemma find_update_where_other:
  assumes "\<And>r. Q (f r) = Q r" and "\<And>r. Q r \<Longrightarrow> \<not> P r"
  shows "find Q (update_where P f rows) = find Q rows"
  using assms by (induction rows) auto

lemma find_append: "find P (xs @ ys) = (case find P xs of None \<Rightarrow> find P ys | Some r \<Rightarrow> Some r)"
  by (induction xs) auto

lemma find_distinct_key:
  assumes "distinct (map key rows)" and "r \<in> set rows"
  shows "find (\<lambda>x. key x = key r) rows = Some r"
  using assms by (induction rows) (auto simp: image_iff)

section \<open>Lists sorted by a key\<close>

lemma sorted_key_filter_above:
  fixes key :: "'a \<Rightarrow> 'k::linorder"
  assumes "sorted (map key xs)" and "distinct (map key xs)" and "n < length xs"
  shows "filter (\<lambda>x. key (xs ! n) < key x) xs = drop (Suc n) xs"
  using assms
proof (induction xs arbitrary: n)
  case Nil
  then show ?case by simp
next
  case (Cons x xs)
  from Cons.prems have above: "\<And>y. y \<in> set xs \<Longrightarrow> key x < key y"
    by (force simp: less_le)
  show ?case
  proof (cases n)
    case 0
    have "filter (\<lambda>y. key x < key y) xs = xs"
      using above by (simp add: filter_id_conv)
    with 0 show ?thesis by simp
  next
    case (Suc m)
    with Cons.prems have "m < length xs" by simp
    then have "xs ! m \<in> set xs" by simp
    with above have "\<not> key (xs ! m) < key x"
      by (meson less_asym)
    with Suc Cons.prems Cons.IH [of m] show ?thesis by simp
  qed
qed

lemma sort_key_hd_least:
  fixes key :: "'a \<Rightarrow> 'k::linorder"
  assumes "sort_key key xs = y # ys"
  shows "y \<in> set xs \<and> (\<forall>x \<in> set xs. key y \<le> key x)"
proof -
  have s: "sorted (map key (y # ys))" and m: "set (y # ys) = set xs"
    using assms by (metis sorted_sort_key, metis set_sort)
  from s have "\<forall>x \<in> set (y # ys). key y \<le> key x" by auto
  with m show ?thesis by auto
qed

lemma sort_key_empty_iff [simp]: "sort_key key xs = [] \<longleftrightarrow> xs = []"
  by (metis length_0_conv length_sort)

lemma first_row_sort_key_none [simp]: "first_row (sort_key key xs) = None \<longleftrightarrow> xs = []"
  by (cases "sort_key key xs") (auto simp: first_row_def)

lemma first_row_sort_keyD:
  fixes key :: "'a \<Rightarrow> 'k::linorder"
  assumes "first_row (sort_key key xs) = Some y"
  shows "y \<in> set xs \<and> (\<forall>x \<in> set xs. key y \<le> key x)"
  using assms by (auto simp: first_row_def dest: sort_key_hd_least split: list.splits)

lemma first_row_in: "first_row xs = Some y \<Longrightarrow> y \<in> set xs"
  by (auto simp: first_row_def split: list.splits)

lemma first_row_sort_key_eqI:
  fixes key :: "'a \<Rightarrow> 'k::linorder"
  assumes "y \<in> set xs" and "\<And>x. x \<in> set xs \<Longrightarrow> x \<noteq> y \<Longrightarrow> key y < key x"
  shows "first_row (sort_key key xs) = Some y"
proof -
  from assms(1) have "xs \<noteq> []" by auto
  then obtain z where z: "first_row (sort_key key xs) = Some z"
    by (metis first_row_sort_key_none not_Some_eq)
  have "z = y"
    using first_row_sort_keyD [OF z] assms by (meson leD)
  with z show ?thesis by simp
qed

end
