(* ===== verification/RustStd.thy ===== *)
theory RustStd
  imports Prelude
begin

text \<open>
  The part of the Rust standard library the service uses. \<open>i64\<close> values are integers whose
  wrap-around is written out (the container image is built with \<^verbatim>\<open>cargo build --release\<close>, where
  \<open>+\<close> wraps), \<open>u64\<close> values are 64-bit words, and strings are the bytes of their UTF-8
  encoding. \<open>as\<close> casts, saturating operations, decimal parsing and printing of \<open>i64\<close>,
  \<open>trim\<close>, \<open>splitn\<close> and the ASCII case functions are modelled.
\<close>

section \<open>Integers\<close>

type_synonym i64 = int
type_synonym u64 = "64 word"
type_synonym u32 = "32 word"

definition i64_min :: i64 where "i64_min = - 9223372036854775808"
definition i64_max :: i64 where "i64_max = 9223372036854775807"

definition i64_range :: "int \<Rightarrow> bool" where
  "i64_range x \<longleftrightarrow> i64_min \<le> x \<and> x \<le> i64_max"

definition i64_wrap :: "int \<Rightarrow> i64" where
  "i64_wrap x = (x + 9223372036854775808) mod 18446744073709551616 - 9223372036854775808"

definition i64_add :: "i64 \<Rightarrow> i64 \<Rightarrow> i64" where
  "i64_add a b = i64_wrap (a + b)"

definition i64_saturate :: "int \<Rightarrow> i64" where
  "i64_saturate x = (if x < i64_min then i64_min else if i64_max < x then i64_max else x)"

definition i64_saturating_add :: "i64 \<Rightarrow> i64 \<Rightarrow> i64" where
  "i64_saturating_add a b = i64_saturate (a + b)"

definition i64_saturating_sub :: "i64 \<Rightarrow> i64 \<Rightarrow> i64" where
  "i64_saturating_sub a b = i64_saturate (a - b)"

definition u64_of_i64 :: "i64 \<Rightarrow> u64" where
  "u64_of_i64 x = word_of_int x"

definition i64_of_u64 :: "u64 \<Rightarrow> i64" where
  "i64_of_u64 w = i64_wrap (uint w)"

definition u64_saturating_sub :: "u64 \<Rightarrow> u64 \<Rightarrow> u64" where
  "u64_saturating_sub a b = (if a < b then 0 else a - b)"

definition u64_div_ceil :: "u64 \<Rightarrow> u64 \<Rightarrow> u64" where
  "u64_div_ceil a b = (if a mod b = 0 then a div b else a div b + 1)"

lemma i64_wrap_range: "i64_range (i64_wrap x)"
  by (simp add: i64_range_def i64_wrap_def i64_min_def i64_max_def)

lemma i64_wrap_id [simp]: "i64_range x \<Longrightarrow> i64_wrap x = x"
  by (simp add: i64_range_def i64_wrap_def i64_min_def i64_max_def)

lemma i64_add_id: "i64_range (a + b) \<Longrightarrow> i64_add a b = a + b"
  by (simp add: i64_add_def)

lemma i64_saturate_range: "i64_range (i64_saturate x)"
  by (simp add: i64_saturate_def i64_range_def i64_min_def i64_max_def)

lemma i64_saturate_id [simp]: "i64_range x \<Longrightarrow> i64_saturate x = x"
  by (auto simp: i64_saturate_def i64_range_def)

lemma uint_u64_of_i64: "0 \<le> x \<Longrightarrow> i64_range x \<Longrightarrow> uint (u64_of_i64 x) = x"
  by (simp add: u64_of_i64_def i64_range_def i64_max_def uint_word_of_int_eq take_bit_int_eq_self)

lemma i64_of_u64_of_i64: "0 \<le> x \<Longrightarrow> i64_range x \<Longrightarrow> i64_of_u64 (u64_of_i64 x) = x"
  by (simp add: i64_of_u64_def uint_u64_of_i64)

lemma i64_u64_roundtrip: "i64_range x \<Longrightarrow> i64_of_u64 (u64_of_i64 x) = x"
proof -
  assume x: "i64_range x"
  have "i64_of_u64 (u64_of_i64 x) = i64_wrap x"
    by (simp add: i64_of_u64_def u64_of_i64_def i64_wrap_def uint_word_of_int mod_simps)
  with x show ?thesis by simp
qed

lemma u64_of_i64_le_iff:
  "0 \<le> x \<Longrightarrow> i64_range x \<Longrightarrow> 0 \<le> y \<Longrightarrow> i64_range y \<Longrightarrow> u64_of_i64 x \<le> u64_of_i64 y \<longleftrightarrow> x \<le> y"
  by (simp add: word_le_def uint_u64_of_i64)

lemma u64_of_i64_less_iff:
  "0 \<le> x \<Longrightarrow> i64_range x \<Longrightarrow> 0 \<le> y \<Longrightarrow> i64_range y \<Longrightarrow> u64_of_i64 x < u64_of_i64 y \<longleftrightarrow> x < y"
  by (simp add: word_less_def uint_u64_of_i64)

lemma u64_of_i64_add: "u64_of_i64 x + u64_of_i64 y = u64_of_i64 (x + y)"
  by (simp add: u64_of_i64_def)

lemma u64_of_i64_wrap: "u64_of_i64 (i64_wrap x) = u64_of_i64 x"
proof -
  have "take_bit 64 (i64_wrap x) = take_bit 64 x"
    by (simp add: i64_wrap_def take_bit_eq_mod mod_simps)
  then show ?thesis
    by (simp add: u64_of_i64_def word_of_int_eq_iff)
qed

lemma i64_of_u64_range: "i64_range (i64_of_u64 w)"
  by (simp add: i64_of_u64_def i64_wrap_range)

section \<open>Decimal text\<close>

definition digit_char :: "nat \<Rightarrow> char" where
  "digit_char d = char_of (48 + d)"

definition digit_value :: "char \<Rightarrow> int option" where
  "digit_value c = (let n = (of_char c :: nat) in if 48 \<le> n \<and> n \<le> 57 then Some (int n - 48) else None)"

fun nat_to_dec :: "nat \<Rightarrow> string" where
  "nat_to_dec n = (if n < 10 then [digit_char n] else nat_to_dec (n div 10) @ [digit_char (n mod 10)])"

declare nat_to_dec.simps [simp del]

definition i64_to_string :: "i64 \<Rightarrow> string" where
  "i64_to_string x = (if x < 0 then CHR ''-'' # nat_to_dec (nat (- x)) else nat_to_dec (nat x))"

fun parse_digits :: "int \<Rightarrow> string \<Rightarrow> int option" where
  "parse_digits acc [] = Some acc"
| "parse_digits acc (c # cs) =
     (case digit_value c of None \<Rightarrow> None | Some d \<Rightarrow> parse_digits (10 * acc + d) cs)"

definition in_i64 :: "int option \<Rightarrow> i64 option" where
  "in_i64 v = (case v of None \<Rightarrow> None | Some x \<Rightarrow> if i64_range x then Some x else None)"

definition parse_i64 :: "string \<Rightarrow> i64 option" where
  "parse_i64 s = (case s of
       [] \<Rightarrow> None
     | c # cs \<Rightarrow>
         if c = CHR ''-'' then (if cs = [] then None else in_i64 (map_option uminus (parse_digits 0 cs)))
         else if c = CHR ''+'' then (if cs = [] then None else in_i64 (parse_digits 0 cs))
         else in_i64 (parse_digits 0 s))"

text \<open>\<^verbatim>\<open>str::parse::<u64>\<close>: no sign but an optional \<open>+\<close>.\<close>

definition parse_u64 :: "string \<Rightarrow> nat option" where
  "parse_u64 s = (case s of
       [] \<Rightarrow> None
     | c # cs \<Rightarrow>
         (case parse_digits 0 (if c = CHR ''+'' \<and> cs \<noteq> [] then cs else s) of
            None \<Rightarrow> None
          | Some x \<Rightarrow> if x < 2 ^ 64 then Some (nat x) else None))"

lemma of_char_digit: "d < 10 \<Longrightarrow> (of_char (digit_char d) :: nat) = 48 + d"
  by (simp add: digit_char_def of_char_of)

lemma digit_value_digit_char [simp]: "d < 10 \<Longrightarrow> digit_value (digit_char d) = Some (int d)"
  by (simp add: digit_value_def of_char_digit)

lemma parse_digits_append:
  "parse_digits acc (xs @ ys) = (case parse_digits acc xs of None \<Rightarrow> None | Some v \<Rightarrow> parse_digits v ys)"
  by (induction acc xs rule: parse_digits.induct) (auto split: option.splits)

lemma parse_digits_nat_to_dec: "parse_digits 0 (nat_to_dec n) = Some (int n)"
proof (induction n rule: nat_to_dec.induct)
  case (1 n)
  show ?case
  proof (cases "n < 10")
    case True
    then show ?thesis by (subst nat_to_dec.simps) simp
  next
    case False
    then have "parse_digits 0 (nat_to_dec (n div 10)) = Some (int (n div 10))"
      using 1 by simp
    moreover have "10 * int (n div 10) + int (n mod 10) = int n"
      by (metis mult_div_mod_eq of_nat_add of_nat_mult of_nat_numeral)
    ultimately show ?thesis
      using False by (subst nat_to_dec.simps) (simp add: parse_digits_append)
  qed
qed

lemma nat_to_dec_digits: "c \<in> set (nat_to_dec n) \<Longrightarrow> \<exists>d < 10. c = digit_char d"
proof (induction n rule: nat_to_dec.induct)
  case (1 n)
  show ?case
  proof (cases "n < 10")
    case True
    with 1(2) show ?thesis by (subst (asm) nat_to_dec.simps) auto
  next
    case False
    with 1 show ?thesis
      by (subst (asm) (2) nat_to_dec.simps) (auto intro: exI [of _ "n mod 10"])
  qed
qed

lemma nat_to_dec_nonempty [simp]: "nat_to_dec n \<noteq> []"
  by (subst nat_to_dec.simps) simp

lemma digit_char_not: "d < 10 \<Longrightarrow> digit_char d \<noteq> CHR ''-'' \<and> digit_char d \<noteq> CHR ''+'' \<and> digit_char d \<noteq> CHR '':''"
  using of_char_digit [of d] by auto

lemma parse_i64_to_string: "i64_range x \<Longrightarrow> parse_i64 (i64_to_string x) = Some x"
proof (cases "x < 0")
  case True
  assume "i64_range x"
  with True show ?thesis
    by (simp add: i64_to_string_def parse_i64_def parse_digits_nat_to_dec in_i64_def)
next
  case False
  assume r: "i64_range x"
  obtain c cs where cs: "nat_to_dec (nat x) = c # cs"
    by (meson list.exhaust nat_to_dec_nonempty)
  then have "c \<in> set (nat_to_dec (nat x))" by simp
  then obtain d where "d < 10" "c = digit_char d"
    using nat_to_dec_digits by blast
  then have "c \<noteq> CHR ''-''" "c \<noteq> CHR ''+''"
    using digit_char_not by auto
  with False r cs show ?thesis
    using parse_digits_nat_to_dec [of "nat x"]
    by (simp add: i64_to_string_def parse_i64_def in_i64_def)
qed

lemma i64_to_string_no_colon: "CHR '':'' \<notin> set (i64_to_string x)"
  by (auto simp: i64_to_string_def dest!: nat_to_dec_digits dest: digit_char_not)

section \<open>String functions\<close>

definition white_space :: "string list" where
  "white_space = [[CHR 0x09], [CHR 0x0A], [CHR 0x0B], [CHR 0x0C], [CHR 0x0D], [CHR 0x20],
     [CHR 0xC2, CHR 0x85], [CHR 0xC2, CHR 0xA0], [CHR 0xE1, CHR 0x9A, CHR 0x80],
     [CHR 0xE2, CHR 0x80, CHR 0x80], [CHR 0xE2, CHR 0x80, CHR 0x81], [CHR 0xE2, CHR 0x80, CHR 0x82],
     [CHR 0xE2, CHR 0x80, CHR 0x83], [CHR 0xE2, CHR 0x80, CHR 0x84], [CHR 0xE2, CHR 0x80, CHR 0x85],
     [CHR 0xE2, CHR 0x80, CHR 0x86], [CHR 0xE2, CHR 0x80, CHR 0x87], [CHR 0xE2, CHR 0x80, CHR 0x88],
     [CHR 0xE2, CHR 0x80, CHR 0x89], [CHR 0xE2, CHR 0x80, CHR 0x8A], [CHR 0xE2, CHR 0x80, CHR 0xA8],
     [CHR 0xE2, CHR 0x80, CHR 0xA9], [CHR 0xE2, CHR 0x80, CHR 0xAF], [CHR 0xE2, CHR 0x81, CHR 0x9F],
     [CHR 0xE3, CHR 0x80, CHR 0x80]]"

text \<open>
  The list holds the UTF-8 encodings of the code points with the Unicode property
  \<open>White_Space\<close>, which is what \<open>str::trim\<close> removes.
\<close>

fun strip_any :: "string list \<Rightarrow> string \<Rightarrow> string option" where
  "strip_any [] s = None"
| "strip_any (w # ws) s = (if take (length w) s = w then Some (drop (length w) s) else strip_any ws s)"

fun strip_leading :: "nat \<Rightarrow> string list \<Rightarrow> string \<Rightarrow> string" where
  "strip_leading 0 ws s = s"
| "strip_leading (Suc n) ws s = (case strip_any ws s of None \<Rightarrow> s | Some r \<Rightarrow> strip_leading n ws r)"

definition trim_start :: "string \<Rightarrow> string" where
  "trim_start s = strip_leading (length s) white_space s"

definition trim_end :: "string \<Rightarrow> string" where
  "trim_end s = rev (strip_leading (length s) (map rev white_space) (rev s))"

definition trim :: "string \<Rightarrow> string" where
  "trim s = trim_end (trim_start s)"

definition is_blank :: "string \<Rightarrow> bool" where
  "is_blank s \<longleftrightarrow> trim s = []"

text \<open>\<^verbatim>\<open>String::from_utf8\<close> accepts exactly the well-formed byte sequences of Unicode's table 3-7.\<close>

definition utf8_tail :: "nat \<Rightarrow> bool" where
  "utf8_tail b \<longleftrightarrow> 128 \<le> b \<and> b \<le> 191"

definition utf8_second3 :: "nat \<Rightarrow> nat \<Rightarrow> bool" where
  "utf8_second3 b c \<longleftrightarrow> (if b = 224 then 160 \<le> c \<and> c \<le> 191 else if b = 237 then 128 \<le> c \<and> c \<le> 159
     else 225 \<le> b \<and> b \<le> 239 \<and> utf8_tail c)"

definition utf8_second4 :: "nat \<Rightarrow> nat \<Rightarrow> bool" where
  "utf8_second4 b c \<longleftrightarrow> (if b = 240 then 144 \<le> c \<and> c \<le> 191 else if b = 244 then 128 \<le> c \<and> c \<le> 143
     else 241 \<le> b \<and> b \<le> 243 \<and> utf8_tail c)"

fun utf8_bytes :: "nat list \<Rightarrow> bool" where
  "utf8_bytes [] \<longleftrightarrow> True"
| "utf8_bytes (b # bs) \<longleftrightarrow> (if b < 128 then utf8_bytes bs else case bs of
       [] \<Rightarrow> False
     | c # cs \<Rightarrow> if 194 \<le> b \<and> b \<le> 223 then utf8_tail c \<and> utf8_bytes cs else case cs of
         [] \<Rightarrow> False
       | d # ds \<Rightarrow> if b < 240 then utf8_second3 b c \<and> utf8_tail d \<and> utf8_bytes ds else case ds of
           [] \<Rightarrow> False
         | e # es \<Rightarrow> utf8_second4 b c \<and> utf8_tail d \<and> utf8_tail e \<and> utf8_bytes es)"

definition utf8_valid :: "string \<Rightarrow> bool" where
  "utf8_valid s \<longleftrightarrow> utf8_bytes (map of_char s)"

text \<open>\<^verbatim>\<open>String::from_utf8_lossy\<close> replaces each maximal ill-formed part by U+FFFD.\<close>

abbreviation replacement :: "nat list" where
  "replacement \<equiv> [239, 191, 189]"

fun utf8_lossy :: "nat list \<Rightarrow> nat list" where
  "utf8_lossy [] = []"
| "utf8_lossy (b # bs) = (if b < 128 then b # utf8_lossy bs else case bs of
       [] \<Rightarrow> replacement
     | c # cs \<Rightarrow>
         if 194 \<le> b \<and> b \<le> 223 \<and> utf8_tail c then b # c # utf8_lossy cs
         else if b < 240 \<and> utf8_second3 b c then (case cs of
             [] \<Rightarrow> replacement
           | d # ds \<Rightarrow> if utf8_tail d then b # c # d # utf8_lossy ds else replacement @ utf8_lossy cs)
         else if 240 \<le> b \<and> utf8_second4 b c then (case cs of
             [] \<Rightarrow> replacement
           | d # ds \<Rightarrow> if \<not> utf8_tail d then replacement @ utf8_lossy cs else (case ds of
               [] \<Rightarrow> replacement
             | e # es \<Rightarrow> if utf8_tail e then b # c # d # e # utf8_lossy es else replacement @ utf8_lossy ds))
         else replacement @ utf8_lossy bs)"

definition from_utf8_lossy :: "string \<Rightarrow> string" where
  "from_utf8_lossy s = map char_of (utf8_lossy (map of_char s))"

text \<open>\<^verbatim>\<open>str::contains\<close>\<close>

fun str_contains :: "string \<Rightarrow> string \<Rightarrow> bool" where
  "str_contains p [] \<longleftrightarrow> p = []"
| "str_contains p (c # cs) \<longleftrightarrow> take (length p) (c # cs) = p \<or> str_contains p cs"

text \<open>\<^verbatim>\<open>str::split\<close> at a character\<close>

fun split_at :: "char \<Rightarrow> string \<Rightarrow> string list" where
  "split_at sep [] = [[]]"
| "split_at sep (c # cs) = (if c = sep then [] # split_at sep cs
     else case split_at sep cs of [] \<Rightarrow> [[c]] | p # ps \<Rightarrow> (c # p) # ps)"

definition ascii_lower :: "char \<Rightarrow> char" where
  "ascii_lower c = (let n = (of_char c :: nat) in if 65 \<le> n \<and> n \<le> 90 then char_of (n + 32) else c)"

definition to_ascii_lowercase :: "string \<Rightarrow> string" where
  "to_ascii_lowercase s = map ascii_lower s"

definition ascii_upper :: "char \<Rightarrow> char" where
  "ascii_upper c = (let n = (of_char c :: nat) in if 97 \<le> n \<and> n \<le> 122 then char_of (n - 32) else c)"

definition to_ascii_uppercase :: "string \<Rightarrow> string" where
  "to_ascii_uppercase s = map ascii_upper s"

definition eq_ignore_ascii_case :: "string \<Rightarrow> string \<Rightarrow> bool" where
  "eq_ignore_ascii_case a b \<longleftrightarrow> to_ascii_uppercase a = to_ascii_uppercase b"

fun splitn :: "nat \<Rightarrow> char \<Rightarrow> string \<Rightarrow> string list" where
  "splitn 0 sep s = []"
| "splitn (Suc 0) sep s = [s]"
| "splitn (Suc (Suc n)) sep s = (case dropWhile (\<lambda>c. c \<noteq> sep) s of
       [] \<Rightarrow> [s]
     | _ # rest \<Rightarrow> takeWhile (\<lambda>c. c \<noteq> sep) s # splitn (Suc n) sep rest)"

lemma splitn_step:
  assumes "sep \<notin> set a"
  shows "splitn (Suc (Suc n)) sep (a @ sep # rest) = a # splitn (Suc n) sep rest"
proof -
  have all: "\<And>c. c \<in> set a \<Longrightarrow> c \<noteq> sep" using assms by auto
  have "takeWhile (\<lambda>c. c \<noteq> sep) (a @ sep # rest) = a"
    by (subst takeWhile_append2) (use all in auto)
  moreover have "dropWhile (\<lambda>c. c \<noteq> sep) (a @ sep # rest) = sep # rest"
    by (subst dropWhile_append2) (use all in auto)
  ultimately show ?thesis by simp
qed

end
