(* ===== verification/Session.thy ===== *)
theory Session
  imports RustStd
begin

text \<open>
  The domain object of \<^verbatim>\<open>listing_auction_session.rs\<close>: money and time as 64-bit values, the
  lifecycle states, a listing's auction session with its operations, and the close strategy of
  \<^verbatim>\<open>service/close_strategy.rs\<close>. A method with \<^verbatim>\<open>&mut self\<close> returns its result together with the
  new session.
\<close>

section \<open>Values\<close>

datatype money = Money (cents: u64)
datatype unix_seconds = UnixSeconds (seconds: u64)
datatype user_id = UserId string
datatype listing_auction_session_id = ListingAuctionSessionId string
datatype catalogue_listing_id = CatalogueListingId string

definition from_cents :: "u64 \<Rightarrow> money" where "from_cents v = Money v"

instantiation money :: linorder
begin
definition less_eq_money :: "money \<Rightarrow> money \<Rightarrow> bool" where "less_eq_money a b \<longleftrightarrow> cents a \<le> cents b"
definition less_money :: "money \<Rightarrow> money \<Rightarrow> bool" where "less_money a b \<longleftrightarrow> cents a < cents b"
instance
  by standard (auto simp: less_eq_money_def less_money_def money.expand)
end

instantiation money :: plus
begin
definition plus_money :: "money \<Rightarrow> money \<Rightarrow> money" where "plus_money a b = Money (cents a + cents b)"
instance ..
end

instantiation unix_seconds :: linorder
begin
definition less_eq_unix_seconds :: "unix_seconds \<Rightarrow> unix_seconds \<Rightarrow> bool" where
  "less_eq_unix_seconds a b \<longleftrightarrow> seconds a \<le> seconds b"
definition less_unix_seconds :: "unix_seconds \<Rightarrow> unix_seconds \<Rightarrow> bool" where
  "less_unix_seconds a b \<longleftrightarrow> seconds a < seconds b"
instance
  by standard (auto simp: less_eq_unix_seconds_def less_unix_seconds_def unix_seconds.expand)
end

definition add_secs :: "unix_seconds \<Rightarrow> u64 \<Rightarrow> unix_seconds" where
  "add_secs t n = UnixSeconds (seconds t + n)"

definition seconds_until :: "unix_seconds \<Rightarrow> unix_seconds \<Rightarrow> u64" where
  "seconds_until t later = u64_saturating_sub (seconds later) (seconds t)"

definition ANTI_SNIPING_WINDOW_SECS :: u64 where "ANTI_SNIPING_WINDOW_SECS = 120"
definition ANTI_SNIPING_EXTENSION_SECS :: u64 where "ANTI_SNIPING_EXTENSION_SECS = 120"

record bid =
  bid_bidder :: user_id
  bid_amount :: money
  bid_placed_at :: unix_seconds

section \<open>Lifecycle states\<close>

datatype session_status = Draft | Active | Extended | Closed | Won | Unsold | Cancelled

datatype session_outcome = OutcomeWon | OutcomeUnsold

datatype session_state_error =
    TooEarly unix_seconds
  | AlreadyEnded unix_seconds
  | SessionCancelled

datatype bid_error =
    AuctionNotActive session_status
  | AuctionNotStarted unix_seconds
  | AuctionEnded unix_seconds
  | BidTooLow money
  | SelfBiddingNotAllowed user_id

text \<open>
  The trait \<^verbatim>\<open>AuctionLifecycleState\<close> as the record of its three methods: the default bodies,
  then the overrides of the two states that accept bids.
\<close>

record auction_lifecycle_state =
  state_status :: session_status
  state_ensure_can_bid :: "bid_error + unit"
  state_status_after_extension :: session_status

definition lifecycle_default :: "session_status \<Rightarrow> auction_lifecycle_state" where
  "lifecycle_default st = \<lparr>state_status = st, state_ensure_can_bid = Inl (AuctionNotActive st),
     state_status_after_extension = st\<rparr>"

definition active_state :: auction_lifecycle_state where
  "active_state = (lifecycle_default Active)\<lparr>state_ensure_can_bid := Inr (), state_status_after_extension := Extended\<rparr>"

definition extended_state :: auction_lifecycle_state where
  "extended_state = (lifecycle_default Extended)\<lparr>state_ensure_can_bid := Inr (), state_status_after_extension := Extended\<rparr>"

fun lifecycle_state :: "session_status \<Rightarrow> auction_lifecycle_state" where
  "lifecycle_state Draft = lifecycle_default Draft"
| "lifecycle_state Active = active_state"
| "lifecycle_state Extended = extended_state"
| "lifecycle_state Closed = lifecycle_default Closed"
| "lifecycle_state Won = lifecycle_default Won"
| "lifecycle_state Unsold = lifecycle_default Unsold"
| "lifecycle_state Cancelled = lifecycle_default Cancelled"

definition accepts_bids :: "session_status \<Rightarrow> bool" where
  "accepts_bids st \<longleftrightarrow> st = Active \<or> st = Extended"

lemma lifecycle_can_bid [status_simps]:
  "state_ensure_can_bid (lifecycle_state st) = (if accepts_bids st then Inr () else Inl (AuctionNotActive st))"
  by (cases st) (simp_all add: lifecycle_default_def active_state_def extended_state_def accepts_bids_def)

lemma lifecycle_after_extension [status_simps]:
  "accepts_bids st \<Longrightarrow> state_status_after_extension (lifecycle_state st) = Extended"
  by (auto simp: active_state_def extended_state_def accepts_bids_def)

lemma accepts_bids_Extended [simp]: "accepts_bids Extended"
  by (simp add: accepts_bids_def)

section \<open>The session and its operations\<close>

record bid_accepted =
  new_highest :: bid
  previous_highest :: "bid option"
  extended :: bool
  new_end_at :: unix_seconds

record listing_auction_session =
  las_id :: listing_auction_session_id
  las_listing_id :: catalogue_listing_id
  las_seller_id :: user_id
  las_starting_price :: money
  las_minimum_increment :: money
  las_reserve_price :: money
  las_start_at :: unix_seconds
  las_end_at :: unix_seconds
  las_status :: session_status
  las_current_highest :: "bid option"
  las_extensions :: u32

definition with_status :: "string \<Rightarrow> string \<Rightarrow> string \<Rightarrow> money \<Rightarrow> money \<Rightarrow> money \<Rightarrow> unix_seconds
    \<Rightarrow> unix_seconds \<Rightarrow> session_status \<Rightarrow> bid option \<Rightarrow> listing_auction_session" where
  "with_status sid listing seller starting increment reserve start_at end_at st highest =
     \<lparr>las_id = ListingAuctionSessionId sid, las_listing_id = CatalogueListingId listing,
      las_seller_id = UserId seller, las_starting_price = starting,
      las_minimum_increment = increment, las_reserve_price = reserve,
      las_start_at = start_at, las_end_at = end_at, las_status = st,
      las_current_highest = highest, las_extensions = 0\<rparr>"

definition new_session :: "string \<Rightarrow> string \<Rightarrow> string \<Rightarrow> money \<Rightarrow> money \<Rightarrow> money \<Rightarrow> unix_seconds
    \<Rightarrow> unix_seconds \<Rightarrow> listing_auction_session" where
  "new_session sid listing seller starting increment reserve start_at end_at =
     \<lparr>las_id = ListingAuctionSessionId sid, las_listing_id = CatalogueListingId listing,
      las_seller_id = UserId seller, las_starting_price = starting,
      las_minimum_increment = increment, las_reserve_price = reserve,
      las_start_at = start_at, las_end_at = end_at, las_status = Draft,
      las_current_highest = None, las_extensions = 0\<rparr>"

definition activate :: "listing_auction_session \<Rightarrow> unix_seconds
    \<Rightarrow> (session_state_error + unit) \<times> listing_auction_session" where
  "activate s now =
     (if las_status s = Cancelled then (Inl SessionCancelled, s)
      else if now < las_start_at s then (Inl (TooEarly (las_start_at s)), s)
      else if las_status s = Closed \<or> las_status s = Won \<or> las_status s = Unsold
        then (Inl (AlreadyEnded (las_end_at s)), s)
      else if las_end_at s \<le> now then (Inl (AlreadyEnded (las_end_at s)), s\<lparr>las_status := Closed\<rparr>)
      else if las_status s = Draft then (Inr (), s\<lparr>las_status := Active\<rparr>)
      else (Inr (), s))"

definition cancel :: "listing_auction_session \<Rightarrow> listing_auction_session" where
  "cancel s = s\<lparr>las_status := Cancelled\<rparr>"

definition minimum_required_bid :: "listing_auction_session \<Rightarrow> money" where
  "minimum_required_bid s = (case las_current_highest s of
       Some b \<Rightarrow> bid_amount b + las_minimum_increment s
     | None \<Rightarrow> las_starting_price s)"

definition ensure_accepting_bids :: "listing_auction_session \<Rightarrow> unix_seconds
    \<Rightarrow> (bid_error + unit) \<times> listing_auction_session" where
  "ensure_accepting_bids s now =
     (case state_ensure_can_bid (lifecycle_state (las_status s)) of
        Inl e \<Rightarrow> (Inl e, s)
      | Inr _ \<Rightarrow>
          if now < las_start_at s then (Inl (AuctionNotStarted (las_start_at s)), s)
          else if las_end_at s \<le> now then (Inl (AuctionEnded (las_end_at s)), s\<lparr>las_status := Closed\<rparr>)
          else (Inr (), s))"

definition maybe_extend :: "listing_auction_session \<Rightarrow> unix_seconds \<Rightarrow> bool \<times> listing_auction_session" where
  "maybe_extend s now =
     (let remaining = seconds_until now (las_end_at s) in
      if remaining \<le> ANTI_SNIPING_WINDOW_SECS
      then (True, s\<lparr>las_end_at := add_secs now ANTI_SNIPING_EXTENSION_SECS,
                    las_extensions := las_extensions s + 1,
                    las_status := state_status_after_extension (lifecycle_state (las_status s))\<rparr>)
      else (False, s))"

definition is_highest_bidder :: "listing_auction_session \<Rightarrow> user_id \<Rightarrow> bool" where
  "is_highest_bidder s u = (case las_current_highest s of Some b \<Rightarrow> bid_bidder b = u | None \<Rightarrow> False)"

definition place_bid :: "listing_auction_session \<Rightarrow> user_id \<Rightarrow> money \<Rightarrow> unix_seconds
    \<Rightarrow> (bid_error + bid_accepted) \<times> listing_auction_session" where
  "place_bid s bidder amount now =
     (case ensure_accepting_bids s now of
        (Inl e, s1) \<Rightarrow> (Inl e, s1)
      | (Inr _, s1) \<Rightarrow>
          if bidder = las_seller_id s1 then (Inl (SelfBiddingNotAllowed bidder), s1)
          else if is_highest_bidder s1 bidder then (Inl (SelfBiddingNotAllowed bidder), s1)
          else if amount < minimum_required_bid s1 then (Inl (BidTooLow (minimum_required_bid s1)), s1)
          else
            (let new_bid = \<lparr>bid_bidder = bidder, bid_amount = amount, bid_placed_at = now\<rparr>;
                 previous = las_current_highest s1;
                 (ext, s2) = maybe_extend (s1\<lparr>las_current_highest := Some new_bid\<rparr>) now
             in (Inr \<lparr>new_highest = new_bid, previous_highest = previous, extended = ext,
                      new_end_at = las_end_at s2\<rparr>, s2)))"

definition place_proxy_bid :: "listing_auction_session \<Rightarrow> user_id \<Rightarrow> money \<Rightarrow> unix_seconds
    \<Rightarrow> (bid_error + bid_accepted) \<times> listing_auction_session" where
  "place_proxy_bid s bidder max_amount now =
     (case ensure_accepting_bids s now of
        (Inl e, s1) \<Rightarrow> (Inl e, s1)
      | (Inr _, s1) \<Rightarrow>
          if bidder = las_seller_id s1 then (Inl (SelfBiddingNotAllowed bidder), s1)
          else
            (let lead = (case las_current_highest s1 of
                 Some b \<Rightarrow> if bid_bidder b = bidder then Some b else None | None \<Rightarrow> None)
             in case lead of
                  Some b \<Rightarrow>
                    if max_amount < bid_amount b then (Inl (BidTooLow (bid_amount b)), s1)
                    else (Inr \<lparr>new_highest = b, previous_highest = Some b, extended = False,
                               new_end_at = las_end_at s1\<rparr>, s1)
                | None \<Rightarrow>
                    if max_amount < minimum_required_bid s1
                    then (Inl (BidTooLow (minimum_required_bid s1)), s1)
                    else place_bid s1 bidder (minimum_required_bid s1) now))"

definition close :: "listing_auction_session \<Rightarrow> listing_auction_session" where
  "close s = s\<lparr>las_status := Closed\<rparr>"

definition determine_outcome :: "listing_auction_session \<Rightarrow> session_outcome \<times> listing_auction_session" where
  "determine_outcome s =
     (let s1 = s\<lparr>las_status := Closed\<rparr> in
      case las_current_highest s1 of
        Some b \<Rightarrow>
          if las_reserve_price s1 \<le> bid_amount b then (OutcomeWon, s1\<lparr>las_status := Won\<rparr>)
          else (OutcomeUnsold, s1\<lparr>las_status := Unsold\<rparr>)
      | None \<Rightarrow> (OutcomeUnsold, s1\<lparr>las_status := Unsold\<rparr>))"

text \<open>\<^verbatim>\<open>close_strategy.rs\<close>: the only strategy calls the session's own method.\<close>

definition english_reserve_close :: "listing_auction_session \<Rightarrow> session_outcome \<times> listing_auction_session" where
  "english_reserve_close s = determine_outcome s"

definition default_close_strategy :: "listing_auction_session \<Rightarrow> session_outcome \<times> listing_auction_session" where
  "default_close_strategy = english_reserve_close"

end
