(* ===== verification/SessionFacts.thy ===== *)
theory SessionFacts
  imports Session
begin

text \<open>
  Facts on the session's operations that the properties and the service theories use: when a bid
  is accepted and what it changes, the closed form of the anti-sniping extension, the interface
  of an auction whose price only rises, and the step relation of a session's life.
\<close>

section \<open>Orders and windows\<close>

lemma money_le [simp]: "Money a \<le> Money b \<longleftrightarrow> a \<le> b"
  and money_less [simp]: "Money a < Money b \<longleftrightarrow> a < b"
  and money_add [simp]: "Money a + Money b = Money (a + b)"
  by (simp_all add: less_eq_money_def less_money_def plus_money_def)

lemma unix_le [simp]: "UnixSeconds a \<le> UnixSeconds b \<longleftrightarrow> a \<le> b"
  and unix_less [simp]: "UnixSeconds a < UnixSeconds b \<longleftrightarrow> a < b"
  by (simp_all add: less_eq_unix_seconds_def less_unix_seconds_def)

text \<open>A time that can be extended by the anti-sniping window without wrapping.\<close>

definition extendable :: "unix_seconds \<Rightarrow> bool" where
  "extendable t \<longleftrightarrow> uint (seconds t) + 120 < 2 ^ 64"

lemma uint_add_secs: "extendable t \<Longrightarrow> uint (seconds (add_secs t 120)) = uint (seconds t) + 120"
  by (simp add: extendable_def add_secs_def uint_word_ariths)

lemma window_iff:
  assumes "t < e" and "extendable t"
  shows "seconds_until t e \<le> ANTI_SNIPING_WINDOW_SECS \<longleftrightarrow> e \<le> add_secs t 120"
proof -
  have lt: "uint (seconds t) < uint (seconds e)"
    using assms(1) by (simp add: less_unix_seconds_def word_less_def)
  then have "uint (seconds e - seconds t) = uint (seconds e) - uint (seconds t)"
    by (simp add: uint_sub_if')
  then show ?thesis
    using lt assms(2) uint_add_secs [OF assms(2)]
    by (auto simp: seconds_until_def u64_saturating_sub_def ANTI_SNIPING_WINDOW_SECS_def
        less_eq_unix_seconds_def word_le_def word_less_def)
qed

lemma add_secs_after: "extendable t \<Longrightarrow> t < add_secs t 120"
  by (simp add: less_unix_seconds_def word_less_def uint_add_secs)

lemma maybe_extend_closed_form:
  assumes "t < las_end_at s" and "extendable t" and "accepts_bids (las_status s)"
  shows "maybe_extend s t =
    (if las_end_at s \<le> add_secs t 120
     then (True, s\<lparr>las_end_at := add_secs t 120, las_extensions := las_extensions s + 1,
                   las_status := Extended\<rparr>)
     else (False, s))"
  using window_iff [OF assms(1,2)] assms(3)
  by (simp add: maybe_extend_def Let_def status_simps ANTI_SNIPING_EXTENSION_SECS_def)

section \<open>Accepted and refused bids\<close>

definition open_for_bids :: "listing_auction_session \<Rightarrow> unix_seconds \<Rightarrow> bool" where
  "open_for_bids s t \<longleftrightarrow> accepts_bids (las_status s) \<and> las_start_at s \<le> t \<and> t < las_end_at s"

definition bid_admissible :: "listing_auction_session \<Rightarrow> user_id \<Rightarrow> money \<Rightarrow> unix_seconds \<Rightarrow> bool" where
  "bid_admissible s u a t \<longleftrightarrow> open_for_bids s t \<and> u \<noteq> las_seller_id s \<and> \<not> is_highest_bidder s u
     \<and> minimum_required_bid s \<le> a"

lemma ensure_accepting_bids_ok:
  "ensure_accepting_bids s t = (Inr u, s1) \<longleftrightarrow> open_for_bids s t \<and> s1 = s"
  by (auto simp: ensure_accepting_bids_def open_for_bids_def status_simps not_less not_le)

lemma ensure_accepting_bids_err:
  "ensure_accepting_bids s t = (Inl e, s1) \<Longrightarrow> s1 = s \<or> s1 = s\<lparr>las_status := Closed\<rparr>"
  by (auto simp: ensure_accepting_bids_def split: sum.splits if_splits)

lemma open_ensure [simp]: "open_for_bids s t \<Longrightarrow> ensure_accepting_bids s t = (Inr (), s)"
  by (simp add: ensure_accepting_bids_ok)

lemma closed_ensure:
  "\<not> open_for_bids s t \<Longrightarrow> \<exists>e s1. ensure_accepting_bids s t = (Inl e, s1)"
  using ensure_accepting_bids_ok [of s t] by (metis (full_types) old.unit.exhaust prod.exhaust sum.exhaust)

definition new_bid :: "user_id \<Rightarrow> money \<Rightarrow> unix_seconds \<Rightarrow> bid" where
  "new_bid u a t = \<lparr>bid_bidder = u, bid_amount = a, bid_placed_at = t\<rparr>"

lemma place_bid_admissible:
  assumes "bid_admissible s u a t"
  shows "place_bid s u a t =
    (let (ext, s2) = maybe_extend (s\<lparr>las_current_highest := Some (new_bid u a t)\<rparr>) t
     in (Inr \<lparr>new_highest = new_bid u a t, previous_highest = las_current_highest s,
              extended = ext, new_end_at = las_end_at s2\<rparr>, s2))"
  using assms by (auto simp: place_bid_def bid_admissible_def Let_def new_bid_def dest: leD)

lemma place_bid_refused:
  assumes "\<not> bid_admissible s u a t"
  obtains e s1 where "place_bid s u a t = (Inl e, s1)" and "s1 = s \<or> s1 = s\<lparr>las_status := Closed\<rparr>"
proof (cases "open_for_bids s t")
  case True
  with assms consider "u = las_seller_id s" | "u \<noteq> las_seller_id s" "is_highest_bidder s u"
    | "u \<noteq> las_seller_id s" "\<not> is_highest_bidder s u" "a < minimum_required_bid s"
    by (auto simp: bid_admissible_def not_le)
  then show ?thesis
    using that True by cases (simp_all add: place_bid_def)
next
  case False
  then obtain e s1 where "ensure_accepting_bids s t = (Inl e, s1)"
    using closed_ensure by blast
  then show ?thesis
    using that ensure_accepting_bids_err by (simp add: place_bid_def)
qed

lemma place_bid_Inr_iff:
  "(\<exists>acc s1. place_bid s u a t = (Inr acc, s1)) \<longleftrightarrow> bid_admissible s u a t"
proof
  assume "\<exists>acc s1. place_bid s u a t = (Inr acc, s1)"
  then show "bid_admissible s u a t" by (metis place_bid_refused Inl_Inr_False prod.inject)
next
  assume "bid_admissible s u a t"
  then show "\<exists>acc s1. place_bid s u a t = (Inr acc, s1)"
    by (simp add: place_bid_admissible Let_def split: prod.splits)
qed

lemma maybe_extend_frame:
  assumes "maybe_extend s t = (x, s2)"
  shows "las_current_highest s2 = las_current_highest s \<and> las_seller_id s2 = las_seller_id s
    \<and> las_minimum_increment s2 = las_minimum_increment s \<and> las_starting_price s2 = las_starting_price s
    \<and> las_reserve_price s2 = las_reserve_price s \<and> las_start_at s2 = las_start_at s
    \<and> las_id s2 = las_id s \<and> las_listing_id s2 = las_listing_id s"
  using assms by (auto simp: maybe_extend_def Let_def split: if_splits)

lemma maybe_extend_status:
  "maybe_extend s t = (x, s2) \<Longrightarrow> accepts_bids (las_status s) \<Longrightarrow> accepts_bids (las_status s2)"
  by (auto simp: maybe_extend_def Let_def status_simps split: if_splits)

lemma place_bid_accepted:
  assumes "place_bid s u a t = (Inr acc, s1)"
  shows "bid_admissible s u a t" and "las_current_highest s1 = Some (new_bid u a t)"
    and "new_highest acc = new_bid u a t" and "previous_highest acc = las_current_highest s"
    and "new_end_at acc = las_end_at s1" and "accepts_bids (las_status s1)"
    and "las_seller_id s1 = las_seller_id s" and "las_minimum_increment s1 = las_minimum_increment s"
    and "las_starting_price s1 = las_starting_price s" and "las_reserve_price s1 = las_reserve_price s"
    and "las_start_at s1 = las_start_at s"
proof -
  show adm: "bid_admissible s u a t" using assms place_bid_Inr_iff by blast
  then have st: "accepts_bids (las_status s)" by (simp add: bid_admissible_def open_for_bids_def)
  let ?s0 = "s\<lparr>las_current_highest := Some (new_bid u a t)\<rparr>"
  obtain x s2 where m: "maybe_extend ?s0 t = (x, s2)" by fastforce
  note frame = maybe_extend_frame [OF m] maybe_extend_status [OF m]
  show "las_current_highest s1 = Some (new_bid u a t)" "new_highest acc = new_bid u a t"
    "previous_highest acc = las_current_highest s" "new_end_at acc = las_end_at s1"
    "accepts_bids (las_status s1)" "las_seller_id s1 = las_seller_id s"
    "las_minimum_increment s1 = las_minimum_increment s" "las_starting_price s1 = las_starting_price s"
    "las_reserve_price s1 = las_reserve_price s" "las_start_at s1 = las_start_at s"
    using assms m frame st by (auto simp: place_bid_admissible [OF adm])
qed

lemma place_bid_window:
  assumes "place_bid s u a t = (Inr acc, s1)" and "extendable t"
  shows "las_end_at s1 = max (las_end_at s) (add_secs t 120)"
    and "extended acc \<longleftrightarrow> las_end_at s \<le> add_secs t 120"
    and "las_status s1 = (if extended acc then Extended else las_status s)"
proof -
  note adm = place_bid_accepted(1) [OF assms(1)]
  then have "t < las_end_at s" "accepts_bids (las_status s)"
    by (simp_all add: bid_admissible_def open_for_bids_def)
  then have m: "maybe_extend (s\<lparr>las_current_highest := Some (new_bid u a t)\<rparr>) t =
    (if las_end_at s \<le> add_secs t 120
     then (True, s\<lparr>las_current_highest := Some (new_bid u a t), las_end_at := add_secs t 120,
                   las_extensions := las_extensions s + 1, las_status := Extended\<rparr>)
     else (False, s\<lparr>las_current_highest := Some (new_bid u a t)\<rparr>))"
    using maybe_extend_closed_form [OF _ assms(2), of "s\<lparr>las_current_highest := Some (new_bid u a t)\<rparr>"]
    by simp
  show "las_end_at s1 = max (las_end_at s) (add_secs t 120)"
    "extended acc \<longleftrightarrow> las_end_at s \<le> add_secs t 120"
    "las_status s1 = (if extended acc then Extended else las_status s)"
    using assms(1) by (auto simp: place_bid_admissible [OF adm] m max_def split: if_splits)
qed

lemma place_bid_end_mono:
  "place_bid s u a t = (Inr acc, s1) \<Longrightarrow> extendable t \<Longrightarrow> las_end_at s \<le> las_end_at s1"
  using place_bid_window(1) by force

section \<open>Proxy bids\<close>

lemma place_proxy_bid_leader:
  assumes "open_for_bids s t" and "las_current_highest s = Some b" and "bid_bidder b = u"
    and "u \<noteq> las_seller_id s"
  shows "place_proxy_bid s u m t =
    (if m < bid_amount b then (Inl (BidTooLow (bid_amount b)), s)
     else (Inr \<lparr>new_highest = b, previous_highest = Some b, extended = False, new_end_at = las_end_at s\<rparr>, s))"
  using assms by (simp add: place_proxy_bid_def)

lemma place_proxy_bid_challenger:
  assumes "open_for_bids s t" and "\<not> is_highest_bidder s u" and "u \<noteq> las_seller_id s"
  shows "place_proxy_bid s u m t =
    (if m < minimum_required_bid s then (Inl (BidTooLow (minimum_required_bid s)), s)
     else place_bid s u (minimum_required_bid s) t)"
  using assms by (auto simp: place_proxy_bid_def is_highest_bidder_def split: option.splits)

lemma minimum_bid_admissible:
  "open_for_bids s t \<Longrightarrow> \<not> is_highest_bidder s u \<Longrightarrow> u \<noteq> las_seller_id s
    \<Longrightarrow> bid_admissible s u (minimum_required_bid s) t"
  by (simp add: bid_admissible_def)

lemma place_proxy_bid_cases:
  assumes "place_proxy_bid s u m t = (r, s1)"
  obtains (refused) e where "r = Inl e" and "s1 = s \<or> s1 = s\<lparr>las_status := Closed\<rparr>"
    | (kept) acc b where "r = Inr acc" and "s1 = s" and "las_current_highest s = Some b"
        and "bid_bidder b = u" and "new_highest acc = b" and "bid_amount b \<le> m"
    | (placed) acc where "r = Inr acc" and "place_bid s u (minimum_required_bid s) t = (Inr acc, s1)"
        and "minimum_required_bid s \<le> m" and "\<not> is_highest_bidder s u"
proof (cases "open_for_bids s t \<and> u \<noteq> las_seller_id s")
  case False
  then show ?thesis
  proof (cases "open_for_bids s t")
    case True
    with False assms refused show ?thesis by (auto simp: place_proxy_bid_def)
  next
    case closed: False
    then obtain e s2 where "ensure_accepting_bids s t = (Inl e, s2)" using closed_ensure by blast
    with assms refused ensure_accepting_bids_err show ?thesis by (simp add: place_proxy_bid_def) metis
  qed
next
  case True
  show ?thesis
  proof (cases "is_highest_bidder s u")
    case True
    then obtain b where "las_current_highest s = Some b" "bid_bidder b = u"
      by (auto simp: is_highest_bidder_def split: option.splits)
    with \<open>open_for_bids s t \<and> _\<close> assms refused kept place_proxy_bid_leader show ?thesis
      by (auto split: if_splits)
  next
    case challenger: False
    with True have adm: "bid_admissible s u (minimum_required_bid s) t"
      using minimum_bid_admissible by blast
    from adm obtain acc s2 where "place_bid s u (minimum_required_bid s) t = (Inr acc, s2)"
      using place_bid_Inr_iff by blast
    with True challenger assms refused placed place_proxy_bid_challenger show ?thesis
      by (auto simp: not_less split: if_splits)
  qed
qed

end
