(* ===== verification/Ascending.thy ===== *)
theory Ascending
  imports Prelude
begin

text \<open>
  The contract every auction of this service keeps, as an interface: an offer is taken only when
  it reaches the starting price, or the standing price plus the increment, and then becomes the
  standing price; a refused offer leaves the price alone. What follows for any sequence of offers
  is proved here once. Components interpret the locale on their own operations.
\<close>

fun run_offers :: "('s \<Rightarrow> 'o \<Rightarrow> bool \<times> 's) \<Rightarrow> 's \<Rightarrow> 'o list \<Rightarrow> 'o list \<times> 's" where
  "run_offers submit s [] = ([], s)"
| "run_offers submit s (x # xs) =
     (case submit s x of
        (False, s1) \<Rightarrow> run_offers submit s1 xs
      | (True, s1) \<Rightarrow> (case run_offers submit s1 xs of (taken, t) \<Rightarrow> (x # taken, t)))"

locale ascending_auction =
  fixes invar :: "'s \<Rightarrow> bool"
    and valid :: "'o \<Rightarrow> bool"
    and submit :: "'s \<Rightarrow> 'o \<Rightarrow> bool \<times> 's"
    and amount :: "'o \<Rightarrow> nat"
    and price :: "'s \<Rightarrow> nat option"
    and floor_price :: "'s \<Rightarrow> nat"
    and increment :: "'s \<Rightarrow> nat"
  assumes submit_invar: "invar s \<Longrightarrow> valid x \<Longrightarrow> submit s x = (b, s1) \<Longrightarrow> invar s1"
    and submit_frame: "submit s x = (b, s1) \<Longrightarrow> floor_price s1 = floor_price s \<and> increment s1 = increment s"
    and submit_taken: "invar s \<Longrightarrow> submit s x = (True, s1) \<Longrightarrow> price s1 = Some (amount x)"
    and submit_refused: "submit s x = (False, s1) \<Longrightarrow> price s1 = price s"
    and submit_first: "invar s \<Longrightarrow> submit s x = (True, s1) \<Longrightarrow> price s = None \<Longrightarrow> floor_price s \<le> amount x"
    and submit_raise: "invar s \<Longrightarrow> submit s x = (True, s1) \<Longrightarrow> price s = Some p \<Longrightarrow> p + increment s \<le> amount x"
begin

lemma run_price:
  assumes "invar s" and "\<forall>x \<in> set xs. valid x" and "run_offers submit s xs = (taken, t)"
  shows "price t = (if taken = [] then price s else Some (amount (last taken)))"
  using assms
proof (induction xs arbitrary: s taken)
  case Nil
  then show ?case by simp
next
  case (Cons x xs)
  obtain b s1 where sub: "submit s x = (b, s1)" by fastforce
  have inv: "invar s1" using Cons.prems sub submit_invar by auto
  show ?case
  proof (cases b)
    case False
    with Cons.IH [OF inv] Cons.prems sub submit_refused show ?thesis by auto
  next
    case True
    with Cons.prems sub submit_taken have "price s1 = Some (amount x)" by simp
    with Cons.IH [OF inv] Cons.prems sub True show ?thesis by (auto split: prod.splits)
  qed
qed

lemma run_from_price:
  assumes "invar s" and "\<forall>x \<in> set xs. valid x" and "run_offers submit s xs = (taken, t)"
    and "price s = Some p"
  shows "sorted_wrt (\<lambda>a b. a + increment s \<le> b) (p # map amount taken)"
  using assms
proof (induction xs arbitrary: s taken p)
  case Nil
  then show ?case by simp
next
  case (Cons x xs)
  obtain b s1 where sub: "submit s x = (b, s1)" by fastforce
  have inv: "invar s1" and frame: "increment s1 = increment s"
    using Cons.prems sub submit_invar submit_frame by auto
  show ?case
  proof (cases b)
    case False
    with Cons.prems sub have "run_offers submit s1 xs = (taken, t)" by simp
    with Cons.IH [OF inv] Cons.prems sub False submit_refused frame show ?thesis by auto
  next
    case True
    then obtain taken1 where t1: "run_offers submit s1 xs = (taken1, t)" "taken = x # taken1"
      using Cons.prems sub by (auto split: prod.splits)
    have "price s1 = Some (amount x)" using sub True submit_taken Cons.prems(1) by simp
    then have rest: "sorted_wrt (\<lambda>a b. a + increment s \<le> b) (amount x # map amount taken1)"
      using Cons.IH [OF inv _ t1(1)] Cons.prems frame by auto
    have "p + increment s \<le> amount x"
      using Cons.prems sub True submit_raise by simp
    with rest t1(2) show ?thesis by fastforce
  qed
qed

lemma run_rises:
  assumes "invar s" and "\<forall>x \<in> set xs. valid x" and "run_offers submit s xs = (taken, t)"
  shows "sorted_wrt (\<lambda>a b. a + increment s \<le> b) (map amount taken)"
  using assms
proof (induction xs arbitrary: s)
  case Nil
  then show ?case by simp
next
  case (Cons x xs)
  obtain b s1 where sub: "submit s x = (b, s1)" by fastforce
  have inv: "invar s1" and frame: "increment s1 = increment s"
    using Cons.prems sub submit_invar submit_frame by auto
  show ?case
  proof (cases b)
    case False
    with Cons.IH [OF inv] Cons.prems sub frame show ?thesis by auto
  next
    case True
    with sub have "price s1 = Some (amount x)" using submit_taken Cons.prems(1) by simp
    with run_from_price [OF inv] Cons.prems sub True frame show ?thesis
      by (auto split: prod.splits)
  qed
qed

lemma run_growth:
  assumes "invar s" and "\<forall>x \<in> set xs. valid x" and "run_offers submit s xs = (taken, t)"
    and "price s = Some p"
  shows "\<exists>q. price t = Some q \<and> p + length taken * increment s \<le> q"
proof -
  have grow: "sorted_wrt (\<lambda>a b. a + d \<le> b) (a # as) \<Longrightarrow> a + length as * d \<le> last (a # as)"
    for a d :: nat and as
    by (induction as arbitrary: a) (fastforce split: if_splits)+
  show ?thesis
    using grow [OF run_from_price [OF assms]] run_price [OF assms(1-3)] assms(4)
    by (auto simp: last_map split: if_splits)
qed

lemma run_winner_is_best:
  assumes "invar s" and "\<forall>x \<in> set xs. valid x" and "run_offers submit s xs = (taken, t)"
    and "x \<in> set taken"
  shows "amount x \<le> amount (last taken)"
proof -
  have best: "sorted_wrt (\<lambda>a b. a + d \<le> b) as \<Longrightarrow> a \<in> set as \<Longrightarrow> a \<le> last as" for a d :: nat and as
  proof (induction as)
    case (Cons b bs)
    then show ?case
      by (cases "bs = []") (auto dest: add_leD1 intro: le_trans [of _ "last bs"] dest!: bspec [where x = "last bs"])
  qed simp
  from assms(4) have "taken \<noteq> []" by auto
  then show ?thesis
    using best [OF run_rises [OF assms(1-3)], of "amount x"] assms(4) by (simp add: last_map)
qed

end

end
