(* ===== verification/SessionSpec.thy ===== *)
theory SessionSpec
  imports SessionFacts Ascending
begin

text \<open>
  What a session promises: the interpretation of the ascending-auction interface, the step
  relation over every public operation with the invariant of the reachable sessions, and the
  properties of bids, proxy bids, the anti-sniping extension and the outcome.
\<close>

section \<open>The session as an ascending auction\<close>

type_synonym offer = "user_id \<times> money \<times> unix_seconds"

definition session_submit :: "listing_auction_session \<Rightarrow> offer \<Rightarrow> bool \<times> listing_auction_session" where
  "session_submit s x = (case x of (u, a, t) \<Rightarrow>
     (case place_bid s u a t of (Inl _, s1) \<Rightarrow> (False, s1) | (Inr _, s1) \<Rightarrow> (True, s1)))"

definition session_price :: "listing_auction_session \<Rightarrow> nat option" where
  "session_price s = map_option (\<lambda>b. unat (cents (bid_amount b))) (las_current_highest s)"

definition offer_amount :: "offer \<Rightarrow> nat" where
  "offer_amount x = unat (cents (fst (snd x)))"

definition session_floor :: "listing_auction_session \<Rightarrow> nat" where
  "session_floor s = unat (cents (las_starting_price s))"

definition session_increment :: "listing_auction_session \<Rightarrow> nat" where
  "session_increment s = unat (cents (las_minimum_increment s))"

text \<open>
  Amounts that come from a non-negative \<open>i64\<close> are below $2^{63}$; then the sum of an amount and
  an increment does not wrap.
\<close>

definition small_money :: "money \<Rightarrow> bool" where
  "small_money m \<longleftrightarrow> unat (cents m) < 2 ^ 63"

definition small_session :: "listing_auction_session \<Rightarrow> bool" where
  "small_session s \<longleftrightarrow> small_money (las_minimum_increment s)
     \<and> (\<forall>b. las_current_highest s = Some b \<longrightarrow> small_money (bid_amount b))"

definition small_offer :: "offer \<Rightarrow> bool" where
  "small_offer x \<longleftrightarrow> small_money (fst (snd x))"

lemma unat_add_small: "small_money a \<Longrightarrow> small_money b \<Longrightarrow> unat (cents (a + b)) = unat (cents a) + unat (cents b)"
  by (simp add: small_money_def plus_money_def unat_word_ariths)

lemma money_le_unat: "a \<le> b \<longleftrightarrow> unat (cents a) \<le> unat (cents b)"
  by (simp add: less_eq_money_def word_le_nat_alt)

lemma minimum_required_unat:
  assumes "small_session s"
  shows "unat (cents (minimum_required_bid s)) =
    (case session_price s of None \<Rightarrow> session_floor s | Some p \<Rightarrow> p + session_increment s)"
  using assms
  by (auto simp: minimum_required_bid_def session_price_def session_floor_def session_increment_def
      small_session_def unat_add_small split: option.split)

lemma session_submit_True:
  "session_submit s (u, a, t) = (True, s1) \<longleftrightarrow> (\<exists>acc. place_bid s u a t = (Inr acc, s1))"
  by (auto simp: session_submit_def split: prod.splits sum.splits)

lemma session_submit_False:
  assumes "session_submit s x = (False, s1)"
  shows "s1 = s \<or> s1 = s\<lparr>las_status := Closed\<rparr>"
proof -
  obtain u a t where x: "x = (u, a, t)" by (cases x)
  have "\<not> bid_admissible s u a t"
    using assms x place_bid_Inr_iff [of s u a t] by (auto simp: session_submit_def split: prod.splits sum.splits)
  then show ?thesis
    by (rule place_bid_refused) (use assms x in \<open>auto simp: session_submit_def\<close>)
qed

interpretation session: ascending_auction small_session small_offer session_submit offer_amount
  session_price session_floor session_increment
proof unfold_locales
  fix s x b s1
  assume sub: "session_submit s x = (b, s1)"
  obtain u a t where x: "x = (u, a, t)" by (cases x)
  show frame: "session_floor s1 = session_floor s \<and> session_increment s1 = session_increment s"
  proof (cases b)
    case True
    with sub x obtain acc where "place_bid s u a t = (Inr acc, s1)" by (auto simp: session_submit_True)
    then show ?thesis by (simp add: place_bid_accepted session_floor_def session_increment_def)
  next
    case False
    with sub session_submit_False [of s x s1] show ?thesis
      by (auto simp: session_floor_def session_increment_def)
  qed
  assume inv: "small_session s" and val: "small_offer x"
  show "small_session s1"
  proof (cases b)
    case True
    with sub x obtain acc where "place_bid s u a t = (Inr acc, s1)" by (auto simp: session_submit_True)
    with inv val x show ?thesis
      by (simp add: place_bid_accepted small_session_def small_offer_def new_bid_def)
  next
    case False
    with sub inv session_submit_False [of s x s1] show ?thesis by (auto simp: small_session_def)
  qed
next
  fix s x s1
  assume sub: "session_submit s x = (True, s1)"
  obtain u a t acc where x: "x = (u, a, t)" and pb: "place_bid s u a t = (Inr acc, s1)"
    using sub by (cases x) (auto simp: session_submit_True)
  show "session_price s1 = Some (offer_amount x)"
    by (simp add: x session_price_def place_bid_accepted [OF pb] new_bid_def offer_amount_def)
  have le: "minimum_required_bid s \<le> a"
    using place_bid_accepted(1) [OF pb] by (simp add: bid_admissible_def)
  assume inv: "small_session s"
  have min: "unat (cents (minimum_required_bid s)) \<le> offer_amount x"
    using le by (simp add: money_le_unat x offer_amount_def)
  show "session_price s = None \<Longrightarrow> session_floor s \<le> offer_amount x"
    using min minimum_required_unat [OF inv] by simp
  show "p + session_increment s \<le> offer_amount x" if "session_price s = Some p" for p
    using min minimum_required_unat [OF inv] that by simp
next
  fix s x s1
  assume "session_submit s x = (False, s1)"
  then show "session_price s1 = session_price s"
    using session_submit_False [of s x s1] by (auto simp: session_price_def)
qed

end
