(* ===== verification/SessionLife.thy ===== *)
theory SessionLife
  imports SessionSpec
begin

text \<open>
  The life of a session as a step relation: one rule per public operation that takes
  \<^verbatim>\<open>&mut self\<close>, the sessions reachable from \<^verbatim>\<open>ListingAuctionSession::new\<close>, their invariant, and
  what no sequence of operations can do to a session that has ended.
\<close>

section \<open>Steps\<close>

datatype session_op =
    OpActivate unix_seconds
  | OpPlaceBid user_id money unix_seconds
  | OpPlaceProxyBid user_id money unix_seconds
  | OpClose
  | OpDetermineOutcome
  | OpCancel

inductive session_step :: "listing_auction_session \<Rightarrow> session_op \<Rightarrow> listing_auction_session \<Rightarrow> bool" where
  step_activate: "activate s t = (r, s1) \<Longrightarrow> session_step s (OpActivate t) s1"
| step_bid: "place_bid s u a t = (r, s1) \<Longrightarrow> session_step s (OpPlaceBid u a t) s1"
| step_proxy: "place_proxy_bid s u m t = (r, s1) \<Longrightarrow> session_step s (OpPlaceProxyBid u m t) s1"
| step_close: "session_step s OpClose (close s)"
| step_outcome: "determine_outcome s = (r, s1) \<Longrightarrow> session_step s OpDetermineOutcome s1"
| step_cancel: "session_step s OpCancel (cancel s)"

inductive_cases session_stepE: "session_step s op s1"

inductive_simps session_step_simps:
  "session_step s (OpActivate t) s1" "session_step s (OpPlaceBid u a t) s1"
  "session_step s (OpPlaceProxyBid u m t) s1" "session_step s OpClose s1"
  "session_step s OpDetermineOutcome s1" "session_step s OpCancel s1"

text \<open>
  Operations whose amounts come from a non-negative \<open>i64\<close> and whose times leave room for the
  anti-sniping extension: the values the service passes in.
\<close>

fun realistic_op :: "session_op \<Rightarrow> bool" where
  "realistic_op (OpPlaceBid u a t) \<longleftrightarrow> small_money a \<and> extendable t"
| "realistic_op (OpPlaceProxyBid u m t) \<longleftrightarrow> small_money m \<and> extendable t"
| "realistic_op op \<longleftrightarrow> True"

inductive session_run :: "listing_auction_session \<Rightarrow> session_op list \<Rightarrow> listing_auction_session \<Rightarrow> bool" where
  run_nil: "session_run s [] s"
| run_cons: "session_step s op s1 \<Longrightarrow> session_run s1 ops s2 \<Longrightarrow> session_run s (op # ops) s2"

section \<open>Invariant\<close>

definition leader_ok :: "listing_auction_session \<Rightarrow> bool" where
  "leader_ok s \<longleftrightarrow> (\<forall>b. las_current_highest s = Some b \<longrightarrow>
     bid_bidder b \<noteq> las_seller_id s \<and> las_starting_price s \<le> bid_amount b
     \<and> las_start_at s \<le> bid_placed_at b \<and> bid_placed_at b < las_end_at s)"

definition session_inv :: "listing_auction_session \<Rightarrow> bool" where
  "session_inv s \<longleftrightarrow> leader_ok s \<and> small_session s
     \<and> (las_status s = Draft \<longrightarrow> las_current_highest s = None)
     \<and> (las_status s = Extended \<longrightarrow> las_current_highest s \<noteq> None)
     \<and> (las_status s = Won \<longrightarrow> (\<exists>b. las_current_highest s = Some b \<and> las_reserve_price s \<le> bid_amount b))"

lemma session_inv_new:
  "small_money inc \<Longrightarrow> session_inv (new_session i l u p inc r t0 t1)"
  by (simp add: session_inv_def leader_ok_def small_session_def new_session_def)

lemma session_inv_closed: "session_inv s \<Longrightarrow> session_inv (s\<lparr>las_status := Closed\<rparr>)"
  by (simp add: session_inv_def leader_ok_def small_session_def)

lemma place_bid_inv:
  assumes "session_inv s" and "place_bid s u a t = (Inr acc, s1)" and "small_money a" and "extendable t"
  shows "session_inv s1"
proof -
  note acc = place_bid_accepted [OF assms(2)]
  note win = place_bid_window [OF assms(2,4)]
  have adm: "open_for_bids s t" "u \<noteq> las_seller_id s" "minimum_required_bid s \<le> a"
    using acc(1) by (simp_all add: bid_admissible_def)
  have ge: "las_starting_price s \<le> a"
  proof (cases "las_current_highest s")
    case None
    with adm(3) show ?thesis by (simp add: minimum_required_bid_def)
  next
    case (Some b)
    with assms(1) have b: "las_starting_price s \<le> bid_amount b" "small_money (bid_amount b)"
      "small_money (las_minimum_increment s)"
      by (auto simp: session_inv_def leader_ok_def small_session_def)
    with adm(3) Some show ?thesis
      by (auto simp: minimum_required_bid_def money_le_unat unat_add_small)
  qed
  have "las_end_at s \<le> las_end_at s1" using place_bid_end_mono assms(2,4) by blast
  with adm(1) have before: "t < las_end_at s1" "las_start_at s \<le> t"
    by (auto simp: open_for_bids_def)
  have "accepts_bids (las_status s1)" by (rule acc(6))
  then have st: "las_status s1 \<noteq> Draft" "las_status s1 \<noteq> Won"
    by (auto simp: accepts_bids_def)
  show ?thesis
    using assms(1,3) acc(2) acc(7-11) adm(2) ge before st
    by (simp add: session_inv_def leader_ok_def small_session_def new_bid_def)
qed

lemma session_step_inv:
  assumes "session_step s op s1" and "session_inv s" and "realistic_op op"
  shows "session_inv s1"
  using assms
proof (cases rule: session_step.cases)
  case (step_activate t r)
  with assms show ?thesis
    by (auto simp: activate_def session_inv_def leader_ok_def small_session_def split: if_splits)
next
  case (step_bid u a t r)
  show ?thesis
  proof (cases "bid_admissible s u a t")
    case True
    with step_bid assms place_bid_inv show ?thesis by (metis place_bid_Inr_iff prod.inject realistic_op.simps(1))
  next
    case False
    with step_bid assms session_inv_closed show ?thesis by (metis place_bid_refused prod.inject)
  qed
next
  case (step_proxy u m t r)
  from step_proxy(2) show ?thesis
  proof (cases rule: place_proxy_bid_cases)
    case (refused e)
    with assms session_inv_closed show ?thesis by auto
  next
    case (kept acc b)
    with assms show ?thesis by simp
  next
    case (placed acc)
    moreover have "small_money (minimum_required_bid s)"
      using placed(3) assms(3) step_proxy(1) by (simp add: small_money_def money_le_unat)
    ultimately show ?thesis
      using place_bid_inv assms step_proxy(1) by auto
  qed
next
  case (step_outcome r)
  with assms show ?thesis
    by (auto simp: determine_outcome_def Let_def session_inv_def leader_ok_def small_session_def
        split: option.splits if_splits)
qed (use assms in \<open>auto simp: close_def cancel_def session_inv_def leader_ok_def small_session_def\<close>)

lemma session_run_inv:
  "session_run s ops s1 \<Longrightarrow> session_inv s \<Longrightarrow> \<forall>op \<in> set ops. realistic_op op \<Longrightarrow> session_inv s1"
  by (induction rule: session_run.induct) (auto dest: session_step_inv)

section \<open>Ended sessions\<close>

definition ended :: "session_status \<Rightarrow> bool" where
  "ended st \<longleftrightarrow> st = Closed \<or> st = Won \<or> st = Unsold \<or> st = Cancelled"

lemma ended_not_open: "ended (las_status s) \<Longrightarrow> \<not> open_for_bids s t"
  by (auto simp: ended_def open_for_bids_def accepts_bids_def)

lemma ended_refuses: "ended (las_status s) \<Longrightarrow> ensure_accepting_bids s t = (Inl (AuctionNotActive (las_status s)), s)"
  by (auto simp: ended_def ensure_accepting_bids_def status_simps accepts_bids_def)

lemma session_step_ended:
  assumes "session_step s op s1" and "ended (las_status s)"
  shows "ended (las_status s1) \<and> las_current_highest s1 = las_current_highest s \<and> las_end_at s1 = las_end_at s"
  using assms
proof (cases rule: session_step.cases)
  case (step_activate t r)
  with assms show ?thesis by (auto simp: activate_def ended_def split: if_splits)
next
  case (step_outcome r)
  with assms show ?thesis
    by (auto simp: determine_outcome_def Let_def ended_def split: option.splits if_splits)
qed (auto simp: place_bid_def place_proxy_bid_def ended_refuses close_def cancel_def ended_def)

lemma session_run_ended:
  "session_run s ops s1 \<Longrightarrow> ended (las_status s)
    \<Longrightarrow> ended (las_status s1) \<and> las_current_highest s1 = las_current_highest s \<and> las_end_at s1 = las_end_at s"
  by (induction rule: session_run.induct) (auto dest: session_step_ended)

section \<open>Properties\<close>

definition sample_session :: listing_auction_session where
  "sample_session = with_status ''a1'' ''l1'' ''seller'' (Money 1000) (Money 100) (Money 1500)
     (UnixSeconds 100) (UnixSeconds 1000) Active None"

text \<open>C18: an accepted bid sets the end of the auction to the later of the old end and two minutes
  after the bid; it reports an extension exactly when the old end was not beyond those two minutes,
  and then the session is Extended. So an accepted bid never shortens the auction and always leaves
  at least two minutes to answer it.\<close>

theorem anti_sniping_window:
  assumes "place_bid s u a t = (Inr acc, s1)" and "extendable t"
  shows "las_end_at s1 = max (las_end_at s) (add_secs t 120)
    \<and> new_end_at acc = las_end_at s1
    \<and> (extended acc \<longleftrightarrow> las_end_at s \<le> add_secs t 120)
    \<and> las_status s1 = (if extended acc then Extended else las_status s)
    \<and> 120 \<le> seconds_until t (las_end_at s1)"
proof -
  note win = place_bid_window [OF assms]
  have "add_secs t 120 \<le> las_end_at s1" by (simp add: win(1))
  then have "uint (seconds t) + 120 \<le> uint (seconds (las_end_at s1))"
    using uint_add_secs [OF assms(2)] by (simp add: less_eq_unix_seconds_def word_le_def)
  then have "120 \<le> seconds_until t (las_end_at s1)"
    by (auto simp: seconds_until_def u64_saturating_sub_def word_le_def word_less_def uint_sub_if')
  with win place_bid_accepted(5) [OF assms(1)] show ?thesis by blast
qed

theorem anti_sniping_window_witness:
  "\<exists>acc s1. place_bid sample_session (UserId ''u1'') (Money 1000) (UnixSeconds 950) = (Inr acc, s1)
    \<and> las_end_at s1 = UnixSeconds 1070"
proof -
  have adm: "bid_admissible sample_session (UserId ''u1'') (Money 1000) (UnixSeconds 950)"
    by (simp add: bid_admissible_def open_for_bids_def sample_session_def with_status_def
        is_highest_bidder_def minimum_required_bid_def accepts_bids_def)
  then obtain acc s1 where pb: "place_bid sample_session (UserId ''u1'') (Money 1000) (UnixSeconds 950) = (Inr acc, s1)"
    using place_bid_Inr_iff by blast
  have "extendable (UnixSeconds 950)" by (simp add: extendable_def)
  with anti_sniping_window [OF pb] have "las_end_at s1 = max (las_end_at sample_session) (add_secs (UnixSeconds 950) 120)"
    by blast
  then show ?thesis
    using pb by (simp add: sample_session_def with_status_def add_secs_def max_def)
qed

text \<open>Over any sequence of offers the accepted amounts rise by at least the minimum increment
  from one to the next, the session's price is the last accepted amount, and that amount is the best
  of all accepted ones.\<close>

theorem bids_ascend:
  assumes "small_session s" and "\<forall>x \<in> set xs. small_offer x"
    and "run_offers session_submit s xs = (taken, t)"
  shows "sorted_wrt (\<lambda>a b. a + session_increment s \<le> b) (map offer_amount taken)
    \<and> session_price t = (if taken = [] then session_price s else Some (offer_amount (last taken)))
    \<and> (\<forall>x \<in> set taken. offer_amount x \<le> offer_amount (last taken))"
  using session.run_rises [OF assms] session.run_price [OF assms]
    session.run_winner_is_best [OF assms] by blast

theorem bids_ascend_witness:
  "\<exists>taken t. run_offers session_submit sample_session
      [(UserId ''u1'', Money 1000, UnixSeconds 200), (UserId ''u2'', Money 1050, UnixSeconds 201),
       (UserId ''u2'', Money 1100, UnixSeconds 202)] = (taken, t)
    \<and> sorted_wrt (\<lambda>a b. a + 100 \<le> b) (map offer_amount taken)"
proof -
  let ?xs = "[(UserId ''u1'', Money 1000, UnixSeconds 200), (UserId ''u2'', Money 1050, UnixSeconds 201),
       (UserId ''u2'', Money 1100, UnixSeconds 202)]"
  obtain taken t where run: "run_offers session_submit sample_session ?xs = (taken, t)" by fastforce
  have "small_session sample_session" "\<forall>x \<in> set ?xs. small_offer x"
    by (auto simp: small_session_def small_offer_def small_money_def sample_session_def with_status_def)
  from bids_ascend [OF this run] have "sorted_wrt (\<lambda>a b. a + session_increment sample_session \<le> b) (map offer_amount taken)"
    by blast
  moreover have "session_increment sample_session = 100"
    by (simp add: session_increment_def sample_session_def with_status_def)
  ultimately show ?thesis using run by auto
qed

text \<open>C19: every session reached from a new one by the service's operations keeps its invariant: the
  leader is not the seller, offered at least the starting price and did so inside the auction's time;
  a draft has no bids, an extended auction has one, and a won auction's bid meets the reserve.\<close>

theorem reachable_session_ok:
  assumes "session_run (new_session i l u p inc r t0 t1) ops s" and "small_money inc"
    and "\<forall>op \<in> set ops. realistic_op op"
  shows "session_inv s"
  using session_run_inv [OF assms(1) session_inv_new [OF assms(2)] assms(3)] .

theorem reachable_session_ok_witness:
  "\<exists>s. session_run (new_session ''a'' ''l'' ''s'' (Money 10) (Money 1) (Money 10) (UnixSeconds 0) (UnixSeconds 900))
      [OpActivate (UnixSeconds 5), OpDetermineOutcome] s \<and> session_inv s \<and> las_status s = Unsold"
proof -
  let ?n = "new_session ''a'' ''l'' ''s'' (Money 10) (Money 1) (Money 10) (UnixSeconds 0) (UnixSeconds 900)"
  let ?s = "?n\<lparr>las_status := Unsold\<rparr>"
  have "session_run ?n [OpActivate (UnixSeconds 5), OpDetermineOutcome] ?s"
    by (rule run_cons [of _ _ "?n\<lparr>las_status := Active\<rparr>"], simp add: session_step_simps activate_def new_session_def,
        rule run_cons [of _ _ ?s], simp add: session_step_simps determine_outcome_def new_session_def, rule run_nil)
  with reachable_session_ok [OF this] show ?thesis
    by (intro exI [of _ ?s]) (simp add: small_money_def)
qed

text \<open>Once a session is Closed, Won, Unsold or Cancelled, no sequence of operations reopens it,
  changes its leader or moves its end.\<close>

theorem ended_sessions_stay_ended:
  assumes "session_run s ops s1" and "ended (las_status s)"
  shows "ended (las_status s1) \<and> las_current_highest s1 = las_current_highest s \<and> las_end_at s1 = las_end_at s"
  by (rule session_run_ended [OF assms])

theorem ended_sessions_stay_ended_witness:
  "las_current_highest (cancel (close sample_session)) = las_current_highest (close sample_session)"
proof -
  have "session_run (close sample_session) [OpCancel] (cancel (close sample_session))"
    by (rule run_cons, rule step_cancel, rule run_nil)
  moreover have "ended (las_status (close sample_session))" by (simp add: close_def ended_def)
  ultimately show ?thesis using ended_sessions_stay_ended by blast
qed

text \<open>A proxy bid that is accepted from someone who does not lead is placed at exactly the
  minimum required amount, which is within the maximum; one from the leader changes nothing.\<close>

theorem proxy_bids_at_minimum:
  assumes "place_proxy_bid s u m t = (Inr acc, s1)"
  shows "(is_highest_bidder s u \<and> s1 = s \<and> bid_amount (new_highest acc) \<le> m)
    \<or> (place_bid s u (minimum_required_bid s) t = (Inr acc, s1)
       \<and> bid_amount (new_highest acc) = minimum_required_bid s \<and> minimum_required_bid s \<le> m)"
  using assms
proof (cases rule: place_proxy_bid_cases)
  case (refused e)
  then show ?thesis by simp
next
  case (kept acc' b)
  then show ?thesis by (auto simp: is_highest_bidder_def)
next
  case (placed acc')
  then show ?thesis using place_bid_accepted(3) [OF placed(2)] by (simp add: new_bid_def)
qed

theorem proxy_bids_at_minimum_witness:
  "\<exists>acc s1. place_proxy_bid sample_session (UserId ''u1'') (Money 5000) (UnixSeconds 200) = (Inr acc, s1)
    \<and> bid_amount (new_highest acc) = Money 1000"
proof -
  have o: "open_for_bids sample_session (UnixSeconds 200)" and h: "\<not> is_highest_bidder sample_session (UserId ''u1'')"
    and n: "UserId ''u1'' \<noteq> las_seller_id sample_session"
    and min: "minimum_required_bid sample_session = Money 1000"
    by (simp_all add: open_for_bids_def sample_session_def with_status_def is_highest_bidder_def
        minimum_required_bid_def accepts_bids_def)
  obtain acc s1 where pb: "place_bid sample_session (UserId ''u1'') (Money 1000) (UnixSeconds 200) = (Inr acc, s1)"
    using minimum_bid_admissible [OF o h n] place_bid_Inr_iff min by metis
  then have pp: "place_proxy_bid sample_session (UserId ''u1'') (Money 5000) (UnixSeconds 200) = (Inr acc, s1)"
    using place_proxy_bid_challenger [OF o h n] min by simp
  from proxy_bids_at_minimum [OF pp] h min show ?thesis using pp by auto
qed

end
