(* ===== verification/NaiveAuction.thy ===== *)
theory NaiveAuction
  imports SessionSpec
begin

text \<open>
  The naive auction of \<^verbatim>\<open>bin/profile_bidding_naive.rs\<close>, which keeps every bid and scans them for the
  highest, and the two profiling loops (\<^verbatim>\<open>bin/profile_bidding.rs\<close> runs the domain object). The naive
  auction is a second interpretation of the ascending auction; the domain object refines it.
\<close>

section \<open>The naive auction\<close>

record naive_bid =
  nvb_bidder_id :: string
  nvb_amount_cents :: u64
  nvb_placed_at :: u64

record naive_auction =
  na_id :: string
  na_seller_id :: string
  na_starting_price_cents :: u64
  na_minimum_increment_cents :: u64
  na_reserve_price_cents :: u64
  na_start_at :: u64
  na_end_at :: u64
  na_status :: string
  na_bids :: "naive_bid list"
  na_max_extensions :: u32
  na_extensions :: u32

definition new_naive_auction :: "string \<Rightarrow> string \<Rightarrow> u64 \<Rightarrow> u64 \<Rightarrow> u64 \<Rightarrow> u64 \<Rightarrow> u64 \<Rightarrow> naive_auction" where
  "new_naive_auction i seller starting_price min_increment reserve start_at end_at =
     \<lparr>na_id = i, na_seller_id = seller, na_starting_price_cents = starting_price,
      na_minimum_increment_cents = min_increment, na_reserve_price_cents = reserve,
      na_start_at = start_at, na_end_at = end_at, na_status = ''ACTIVE'', na_bids = [],
      na_max_extensions = 3, na_extensions = 0\<rparr>"

text \<open>\<^verbatim>\<open>Iterator::max_by_key\<close>: of several greatest elements the last.\<close>

definition later_max :: "('a \<Rightarrow> 'b::linorder) \<Rightarrow> 'a option \<Rightarrow> 'a \<Rightarrow> 'a option" where
  "later_max key best x = (case best of None \<Rightarrow> Some x | Some b \<Rightarrow> if key x < key b then Some b else Some x)"

definition max_by_key :: "('a \<Rightarrow> 'b::linorder) \<Rightarrow> 'a list \<Rightarrow> 'a option" where
  "max_by_key key xs = foldl (later_max key) None xs"

definition naive_highest :: "naive_auction \<Rightarrow> naive_bid option" where
  "naive_highest a = max_by_key nvb_amount_cents (na_bids a)"

definition naive_minimum :: "naive_auction \<Rightarrow> u64" where
  "naive_minimum a = (case naive_highest a of
       Some b \<Rightarrow> nvb_amount_cents b + na_minimum_increment_cents a
     | None \<Rightarrow> na_starting_price_cents a)"

definition naive_extend :: "naive_auction \<Rightarrow> u64 \<Rightarrow> naive_auction" where
  "naive_extend a now =
     (let remaining = u64_saturating_sub (na_end_at a) now in
      if remaining \<le> 120 \<and> na_extensions a < na_max_extensions a
      then a\<lparr>na_end_at := now + 120, na_extensions := na_extensions a + 1, na_status := ''EXTENDED''\<rparr>
      else a)"

definition naive_place_bid :: "naive_auction \<Rightarrow> string \<Rightarrow> u64 \<Rightarrow> u64 \<Rightarrow> (string + unit) \<times> naive_auction" where
  "naive_place_bid a bidder_id amount_cents now =
     (if na_status a \<noteq> ''ACTIVE'' \<and> na_status a \<noteq> ''EXTENDED''
      then (Inl (''not active: '' @ na_status a), a)
      else if now < na_start_at a then (Inl ''not started'', a)
      else if na_end_at a \<le> now then (Inl ''ended'', a\<lparr>na_status := ''ENDED''\<rparr>)
      else if bidder_id = na_seller_id a then (Inl ''self bid'', a)
      else if amount_cents < naive_minimum a
      then (Inl (''too low: '' @ nat_to_dec (unat (naive_minimum a))), a)
      else (Inr (), naive_extend (a\<lparr>na_bids := na_bids a
        @ [\<lparr>nvb_bidder_id = bidder_id, nvb_amount_cents = amount_cents, nvb_placed_at = now\<rparr>]\<rparr>) now))"

definition naive_outcome :: "naive_auction \<Rightarrow> string" where
  "naive_outcome a = (case naive_highest a of
       Some b \<Rightarrow> if na_reserve_price_cents a \<le> nvb_amount_cents b then ''WON'' else ''UNSOLD''
     | None \<Rightarrow> ''UNSOLD'')"

section \<open>The profiling loops\<close>

definition profile_bidder :: "u64 \<Rightarrow> string" where
  "profile_bidder i = (if i mod 2 = 0 then ''bidder-a'' else ''bidder-b'')"

definition profile_amount :: "u64 \<Rightarrow> u64" where
  "profile_amount i = 10000 + (i + 1) * 100"

definition profile_time :: "u64 \<Rightarrow> u64" where
  "profile_time i = 1000000 + i + 1"

definition profile_session :: listing_auction_session where
  "profile_session = with_status ''auction-prof'' ''listing-prof'' ''seller-1'' (from_cents 10000) (from_cents 100)
     (from_cents 5000000) (UnixSeconds 1000000) (UnixSeconds 2000000) Active None"

definition profile_naive_auction :: naive_auction where
  "profile_naive_auction = new_naive_auction ''auction-prof'' ''seller-1'' 10000 100 5000000 1000000 2000000"

text \<open>One pass of the inner loop on the auction and the counter of accepted bids.\<close>

definition profile_bid :: "nat \<Rightarrow> listing_auction_session \<times> u64 \<Rightarrow> listing_auction_session \<times> u64" where
  "profile_bid i st = (case st of (auction, accepted) \<Rightarrow>
     (case place_bid auction (UserId (profile_bidder (of_nat i))) (from_cents (profile_amount (of_nat i)))
         (UnixSeconds (profile_time (of_nat i))) of
        (Inr _, auction1) \<Rightarrow> (auction1, accepted + 1)
      | (Inl _, auction1) \<Rightarrow> (auction1, accepted)))"

definition naive_profile_bid :: "nat \<Rightarrow> naive_auction \<times> u64 \<Rightarrow> naive_auction \<times> u64" where
  "naive_profile_bid i st = (case st of (auction, accepted) \<Rightarrow>
     (case naive_place_bid auction (profile_bidder (of_nat i)) (profile_amount (of_nat i)) (profile_time (of_nat i)) of
        (Inr _, auction1) \<Rightarrow> (auction1, accepted + 1)
      | (Inl _, auction1) \<Rightarrow> (auction1, accepted)))"

text \<open>\<^verbatim>\<open>for i in 0..bids\<close> as a fold; the outer loop adds what each fresh auction accepted.\<close>

definition profile_round :: "u64 \<Rightarrow> u64 \<Rightarrow> u64" where
  "profile_round bids_per_iteration accepted = snd (fold profile_bid [0..<unat bids_per_iteration] (profile_session, accepted))"

definition naive_profile_round :: "u64 \<Rightarrow> u64 \<Rightarrow> u64" where
  "naive_profile_round bids_per_iteration accepted =
     snd (fold naive_profile_bid [0..<unat bids_per_iteration] (profile_naive_auction, accepted))"

definition run_profile :: "u64 \<Rightarrow> u64 \<Rightarrow> u64" where
  "run_profile iterations bids_per_iteration = (profile_round bids_per_iteration ^^ unat iterations) 0"

definition run_profile_naive :: "u64 \<Rightarrow> u64 \<Rightarrow> u64" where
  "run_profile_naive iterations bids_per_iteration = (naive_profile_round bids_per_iteration ^^ unat iterations) 0"

section \<open>The highest bid\<close>

lemma max_by_key_Nil [simp]: "max_by_key key [] = None"
  by (simp add: max_by_key_def)

lemma max_by_key_snoc: "max_by_key key (xs @ [x]) = later_max key (max_by_key key xs) x"
  by (simp add: max_by_key_def)

lemma max_by_key_None [simp]: "max_by_key key xs = None \<longleftrightarrow> xs = []"
  by (induction xs rule: rev_induct) (auto simp: max_by_key_snoc later_max_def split: option.splits)

lemma max_by_key_Some: "max_by_key key xs = Some m \<Longrightarrow> m \<in> set xs \<and> (\<forall>x \<in> set xs. key x \<le> key m)"
  by (induction xs arbitrary: m rule: rev_induct)
    (fastforce simp: max_by_key_snoc later_max_def split: option.splits if_splits)+

lemma naive_extend_frame [simp]:
  "na_bids (naive_extend a t) = na_bids a" "na_seller_id (naive_extend a t) = na_seller_id a"
  "na_starting_price_cents (naive_extend a t) = na_starting_price_cents a"
  "na_minimum_increment_cents (naive_extend a t) = na_minimum_increment_cents a"
  "na_reserve_price_cents (naive_extend a t) = na_reserve_price_cents a"
  "na_start_at (naive_extend a t) = na_start_at a" "na_id (naive_extend a t) = na_id a"
  "na_max_extensions (naive_extend a t) = na_max_extensions a"
  by (simp_all add: naive_extend_def Let_def)

lemma naive_highest_extend [simp]: "naive_highest (naive_extend a t) = naive_highest a"
  by (simp add: naive_highest_def)

section \<open>The naive auction as an ascending auction\<close>

type_synonym naive_offer = "string \<times> u64 \<times> u64"

definition naive_submit :: "naive_auction \<Rightarrow> naive_offer \<Rightarrow> bool \<times> naive_auction" where
  "naive_submit a x = (case x of (u, amt, t) \<Rightarrow>
     (case naive_place_bid a u amt t of (Inl _, a1) \<Rightarrow> (False, a1) | (Inr _, a1) \<Rightarrow> (True, a1)))"

definition naive_price :: "naive_auction \<Rightarrow> nat option" where
  "naive_price a = map_option (\<lambda>b. unat (nvb_amount_cents b)) (naive_highest a)"

definition naive_ok :: "naive_auction \<Rightarrow> bool" where
  "naive_ok a \<longleftrightarrow> unat (na_minimum_increment_cents a) < 2 ^ 63 \<and> (\<forall>b \<in> set (na_bids a). unat (nvb_amount_cents b) < 2 ^ 63)"

definition small_naive_offer :: "naive_offer \<Rightarrow> bool" where
  "small_naive_offer x \<longleftrightarrow> unat (fst (snd x)) < 2 ^ 63"

definition naive_admissible :: "naive_auction \<Rightarrow> string \<Rightarrow> u64 \<Rightarrow> u64 \<Rightarrow> bool" where
  "naive_admissible a u amt t \<longleftrightarrow> na_status a \<in> {''ACTIVE'', ''EXTENDED''} \<and> na_start_at a \<le> t \<and> t < na_end_at a
     \<and> u \<noteq> na_seller_id a \<and> naive_minimum a \<le> amt"

definition with_bid :: "naive_auction \<Rightarrow> string \<Rightarrow> u64 \<Rightarrow> u64 \<Rightarrow> naive_auction" where
  "with_bid a u amt t = a\<lparr>na_bids := na_bids a @ [\<lparr>nvb_bidder_id = u, nvb_amount_cents = amt, nvb_placed_at = t\<rparr>]\<rparr>"

lemma naive_place_bid_cases:
  "naive_place_bid a u amt t = (r, a1) \<Longrightarrow>
    (naive_admissible a u amt t \<and> r = Inr () \<and> a1 = naive_extend (with_bid a u amt t) t)
    \<or> (\<not> naive_admissible a u amt t \<and> isl r \<and> (a1 = a \<or> a1 = a\<lparr>na_status := ''ENDED''\<rparr>))"
  by (auto simp: naive_place_bid_def naive_admissible_def with_bid_def split: if_splits)

lemma naive_submit_cases:
  "naive_submit a (u, amt, t) = (b, a1) \<Longrightarrow>
    (naive_admissible a u amt t \<and> b \<and> a1 = naive_extend (with_bid a u amt t) t)
    \<or> (\<not> naive_admissible a u amt t \<and> \<not> b \<and> (a1 = a \<or> a1 = a\<lparr>na_status := ''ENDED''\<rparr>))"
  using naive_place_bid_cases [of a u amt t]
  by (auto simp: naive_submit_def split: prod.splits sum.splits)

lemma naive_minimum_unat:
  assumes "naive_ok a"
  shows "unat (naive_minimum a) = (case naive_price a of None \<Rightarrow> unat (na_starting_price_cents a)
    | Some p \<Rightarrow> p + unat (na_minimum_increment_cents a))"
  using assms max_by_key_Some [of nvb_amount_cents "na_bids a"]
  by (auto simp: naive_minimum_def naive_price_def naive_highest_def naive_ok_def unat_word_ariths split: option.split)
    (force intro: mod_less)

lemma naive_highest_with_bid:
  assumes "naive_ok a" and "naive_minimum a \<le> amt"
  shows "naive_highest (with_bid a u amt t) = Some \<lparr>nvb_bidder_id = u, nvb_amount_cents = amt, nvb_placed_at = t\<rparr>"
proof (cases "naive_highest a")
  case None
  then show ?thesis by (simp add: naive_highest_def with_bid_def max_by_key_def later_max_def)
next
  case (Some b)
  then have "unat (nvb_amount_cents b) \<le> unat (naive_minimum a)"
    using naive_minimum_unat [OF assms(1)] by (simp add: naive_price_def)
  then have "nvb_amount_cents b \<le> amt" using assms(2) by (simp add: word_le_nat_alt)
  with Some show ?thesis by (simp add: naive_highest_def with_bid_def max_by_key_snoc later_max_def leD)
qed

lemma naive_highest_frame [simp]:
  "naive_highest (a\<lparr>na_status := st\<rparr>) = naive_highest a"
  "naive_highest (a\<lparr>na_end_at := e\<rparr>) = naive_highest a"
  "naive_highest (a\<lparr>na_extensions := n\<rparr>) = naive_highest a"
  by (simp_all add: naive_highest_def)

lemma with_bid_frame [simp]:
  "na_bids (with_bid a u amt t) = na_bids a @ [\<lparr>nvb_bidder_id = u, nvb_amount_cents = amt, nvb_placed_at = t\<rparr>]"
  "na_seller_id (with_bid a u amt t) = na_seller_id a"
  "na_starting_price_cents (with_bid a u amt t) = na_starting_price_cents a"
  "na_minimum_increment_cents (with_bid a u amt t) = na_minimum_increment_cents a"
  by (simp_all add: with_bid_def)

lemma naive_keeps_ok:
  assumes "naive_ok a" and "small_naive_offer (u, amt, t)" and "naive_submit a (u, amt, t) = (b, a1)"
  shows "naive_ok a1"
  using naive_submit_cases [OF assms(3)] assms(1,2) by (auto simp: naive_ok_def small_naive_offer_def)

interpretation naive: ascending_auction naive_ok small_naive_offer naive_submit "\<lambda>x. unat (fst (snd x))"
  naive_price "\<lambda>a. unat (na_starting_price_cents a)" "\<lambda>a. unat (na_minimum_increment_cents a)"
proof unfold_locales
  fix a :: naive_auction and x b a1
  assume sub: "naive_submit a x = (b, a1)"
  obtain u amt t where x: "x = (u, amt, t)" by (cases x)
  note cases = naive_submit_cases [OF sub [unfolded x]]
  show "unat (na_starting_price_cents a1) = unat (na_starting_price_cents a)
      \<and> unat (na_minimum_increment_cents a1) = unat (na_minimum_increment_cents a)"
    using cases by auto
  show "naive_ok a \<Longrightarrow> small_naive_offer x \<Longrightarrow> naive_ok a1"
    using naive_keeps_ok [of a u amt t b a1] sub x by simp
next
  fix a :: naive_auction and x a1
  assume sub: "naive_submit a x = (True, a1)" and inv: "naive_ok a"
  obtain u amt t where x: "x = (u, amt, t)" by (cases x)
  from naive_submit_cases [OF sub [unfolded x]]
  have adm: "naive_minimum a \<le> amt" and a1: "a1 = naive_extend (with_bid a u amt t) t"
    by (auto simp: naive_admissible_def)
  show "naive_price a1 = Some (unat (fst (snd x)))"
    using naive_highest_with_bid [OF inv adm] by (simp add: naive_price_def a1 x)
  have min: "unat (naive_minimum a) \<le> unat (fst (snd x))" using adm by (simp add: x word_le_nat_alt)
  show "naive_price a = None \<Longrightarrow> unat (na_starting_price_cents a) \<le> unat (fst (snd x))"
    using min naive_minimum_unat [OF inv] by simp
  show "p + unat (na_minimum_increment_cents a) \<le> unat (fst (snd x))" if "naive_price a = Some p" for p
    using min naive_minimum_unat [OF inv] that by simp
next
  fix a :: naive_auction and x a1
  assume "naive_submit a x = (False, a1)"
  then show "naive_price a1 = naive_price a"
    using naive_submit_cases [of a "fst x" "fst (snd x)" "snd (snd x)" False a1] by (auto simp: naive_price_def)
qed

section \<open>The domain object refines it\<close>

definition naive_status :: "string \<Rightarrow> session_status" where
  "naive_status st = (if st = ''ACTIVE'' then Active else if st = ''EXTENDED'' then Extended else Closed)"

definition bid_of_naive :: "naive_bid \<Rightarrow> bid" where
  "bid_of_naive b = new_bid (UserId (nvb_bidder_id b)) (Money (nvb_amount_cents b)) (UnixSeconds (nvb_placed_at b))"

text \<open>The session keeps of all bids the highest one.\<close>

definition session_of_naive :: "string \<Rightarrow> naive_auction \<Rightarrow> listing_auction_session" where
  "session_of_naive listing a =
     \<lparr>las_id = ListingAuctionSessionId (na_id a), las_listing_id = CatalogueListingId listing,
      las_seller_id = UserId (na_seller_id a), las_starting_price = Money (na_starting_price_cents a),
      las_minimum_increment = Money (na_minimum_increment_cents a),
      las_reserve_price = Money (na_reserve_price_cents a), las_start_at = UnixSeconds (na_start_at a),
      las_end_at = UnixSeconds (na_end_at a), las_status = naive_status (na_status a),
      las_current_highest = map_option bid_of_naive (naive_highest a), las_extensions = na_extensions a\<rparr>"

lemma session_of_naive_minimum: "minimum_required_bid (session_of_naive l a) = Money (naive_minimum a)"
  by (simp add: minimum_required_bid_def naive_minimum_def session_of_naive_def bid_of_naive_def new_bid_def
      split: option.split)

definition may_extend :: "naive_auction \<Rightarrow> u64 \<Rightarrow> bool" where
  "may_extend a t \<longleftrightarrow> na_extensions a < na_max_extensions a \<or> 120 < u64_saturating_sub (na_end_at a) t"

lemma session_of_naive_extend:
  assumes "may_extend a t" and "naive_status (na_status a) \<noteq> Closed"
  shows "maybe_extend (session_of_naive l a) (UnixSeconds t)
    = (na_extensions (naive_extend a t) \<noteq> na_extensions a, session_of_naive l (naive_extend a t))"
proof -
  have "naive_status (na_status a) = Active \<or> naive_status (na_status a) = Extended"
    using assms(2) by (auto simp: naive_status_def split: if_splits)
  then have ext: "state_status_after_extension (lifecycle_state (naive_status (na_status a))) = Extended"
    by (auto simp: active_state_def extended_state_def)
  have n1: "n + 1 \<noteq> n" for n :: u32 by simp
  show ?thesis
    using assms(1) ext n1 [of "na_extensions a"]
    by (auto simp: maybe_extend_def naive_extend_def Let_def session_of_naive_def seconds_until_def add_secs_def
        may_extend_def ANTI_SNIPING_WINDOW_SECS_def ANTI_SNIPING_EXTENSION_SECS_def naive_status_def add.commute
        not_less)
qed

text \<open>C21: the domain object refines the naive auction: under the abstraction that keeps the highest of all
  bids, a bid by someone other than the leader has the same outcome and leads to the abstraction of the
  naive auction's next state, as long as amounts are in range and the naive auction's limit of extensions
  is not reached.\<close>

theorem session_refines_naive:
  assumes "naive_ok a" and "\<not> is_highest_bidder (session_of_naive l a) (UserId u)" and "may_extend a t"
    and "place_bid (session_of_naive l a) (UserId u) (Money amt) (UnixSeconds t) = (r, s1)"
    and "naive_place_bid a u amt t = (r1, a1)"
  shows "s1 = session_of_naive l a1 \<and> isl r = isl r1"
proof -
  let ?s = "session_of_naive l a"
  have frame: "las_start_at ?s = UnixSeconds (na_start_at a)" "las_end_at ?s = UnixSeconds (na_end_at a)"
      "las_seller_id ?s = UserId (na_seller_id a)" "las_status ?s = naive_status (na_status a)"
    by (simp_all add: session_of_naive_def)
  have acc: "accepts_bids (naive_status (na_status a)) \<longleftrightarrow> na_status a = ''ACTIVE'' \<or> na_status a = ''EXTENDED''"
    by (simp add: naive_status_def accepts_bids_def)
  have ended: "session_of_naive l (a\<lparr>na_status := ''ENDED''\<rparr>) = ?s\<lparr>las_status := Closed\<rparr>"
    by (simp add: session_of_naive_def naive_status_def)
  show ?thesis
  proof (cases "naive_admissible a u amt t")
    case True
    then have adm: "bid_admissible ?s (UserId u) (Money amt) (UnixSeconds t)"
      using acc assms(2) by (auto simp: bid_admissible_def open_for_bids_def naive_admissible_def frame session_of_naive_minimum)
    have high: "naive_highest (with_bid a u amt t) = Some \<lparr>nvb_bidder_id = u, nvb_amount_cents = amt, nvb_placed_at = t\<rparr>"
      using naive_highest_with_bid [OF assms(1)] True by (simp add: naive_admissible_def)
    have step: "session_of_naive l (with_bid a u amt t)
        = ?s\<lparr>las_current_highest := Some (new_bid (UserId u) (Money amt) (UnixSeconds t))\<rparr>"
      unfolding session_of_naive_def high by (simp add: with_bid_def bid_of_naive_def)
    have "may_extend (with_bid a u amt t) t" "naive_status (na_status (with_bid a u amt t)) \<noteq> Closed"
      using assms(3) True by (auto simp: may_extend_def with_bid_def naive_admissible_def naive_status_def)
    from session_of_naive_extend [OF this, of l, unfolded step] assms(4)
    have "s1 = session_of_naive l (naive_extend (with_bid a u amt t) t)" "\<not> isl r"
      by (auto simp: place_bid_admissible [OF adm] isl_def)
    then show ?thesis
      using True naive_place_bid_cases [OF assms(5)] by auto
  next
    case False
    with assms(4,5) acc ended show ?thesis
      by (auto simp: place_bid_def ensure_accepting_bids_def naive_place_bid_def naive_admissible_def frame
          lifecycle_can_bid session_of_naive_minimum assms(2) split: if_splits)
  qed
qed

theorem session_refines_naive_witness:
  "snd (place_bid (session_of_naive ''l'' profile_naive_auction) (UserId ''bidder-a'') (Money 10100) (UnixSeconds 1000001))
     = session_of_naive ''l'' (snd (naive_place_bid profile_naive_auction ''bidder-a'' 10100 1000001))"
proof -
  have ok: "naive_ok profile_naive_auction" "may_extend profile_naive_auction 1000001"
      "\<not> is_highest_bidder (session_of_naive ''l'' profile_naive_auction) (UserId ''bidder-a'')"
    by (simp_all add: naive_ok_def profile_naive_auction_def new_naive_auction_def is_highest_bidder_def may_extend_def
        session_of_naive_def naive_highest_def)
  from session_refines_naive [OF ok(1,3,2) prod.collapse [symmetric] prod.collapse [symmetric]]
  show ?thesis by (rule conjunct1)
qed

text \<open>What it asks of the bidder is needed: the naive auction lets the leader bid against itself.\<close>

lemma naive_accepts_the_leader:
  "\<exists>a. naive_ok a \<and> is_highest_bidder (session_of_naive l a) (UserId u) \<and> fst (naive_place_bid a u 200 1) = Inr ()
     \<and> isl (fst (place_bid (session_of_naive l a) (UserId u) (Money 200) (UnixSeconds 1)))"
proof
  let ?a = "(new_naive_auction ''a'' (CHR ''x'' # u) 100 10 1000 0 100)
    \<lparr>na_bids := [\<lparr>nvb_bidder_id = u, nvb_amount_cents = 100, nvb_placed_at = 1\<rparr>]\<rparr>"
  have lead: "is_highest_bidder (session_of_naive l ?a) (UserId u)"
    by (simp add: is_highest_bidder_def session_of_naive_def naive_highest_def max_by_key_def later_max_def
        bid_of_naive_def new_bid_def)
  have min: "naive_minimum ?a = 110"
    by (simp add: naive_minimum_def naive_highest_def max_by_key_def later_max_def new_naive_auction_def)
  show "naive_ok ?a \<and> is_highest_bidder (session_of_naive l ?a) (UserId u) \<and> fst (naive_place_bid ?a u 200 1) = Inr ()
     \<and> isl (fst (place_bid (session_of_naive l ?a) (UserId u) (Money 200) (UnixSeconds 1)))"
    using lead min
    by (simp add: naive_ok_def new_naive_auction_def naive_place_bid_def place_bid_def ensure_accepting_bids_def
        status_simps word_le_nat_alt split: if_splits)
qed

section \<open>The profiling runs\<close>

lemma unat_profile:
  assumes "n < 999879"
  shows "unat (profile_amount (of_nat n)) = 10000 + (n + 1) * 100" and "unat (profile_time (of_nat n)) = 1000001 + n"
    and "unat (of_nat n mod 2 :: u64) = n mod 2"
  using assms by (simp_all add: profile_amount_def profile_time_def unat_word_ariths unat_of_nat)

lemma profile_bidder_nat: "n < 999879 \<Longrightarrow> profile_bidder (of_nat n) = (if even n then ''bidder-a'' else ''bidder-b'')"
  using unat_profile(3) [of n] by (auto simp: profile_bidder_def even_iff_mod_2_eq_zero word_unat_eq_iff)

lemma profile_window:
  "n < 999879 \<Longrightarrow> \<not> u64_saturating_sub 2000000 (profile_time (of_nat n)) \<le> 120"
  using unat_profile(2) [of n] by (auto simp: u64_saturating_sub_def word_le_nat_alt word_less_nat_alt unat_sub_if')

lemma profile_in_time:
  assumes "n < 999879"
  shows "1000000 \<le> profile_time (of_nat n)" and "profile_time (of_nat n) < 2000000"
  using unat_profile(2) [OF assms] assms by (simp_all add: word_le_nat_alt word_less_nat_alt)

lemma profile_amount_Suc: "profile_amount (of_nat (Suc n)) = profile_amount (of_nat n) + 100"
  by (simp add: profile_amount_def algebra_simps)

definition profiled_session :: "nat \<Rightarrow> listing_auction_session" where
  "profiled_session n = profile_session\<lparr>las_current_highest := (case n of 0 \<Rightarrow> None
     | Suc i \<Rightarrow> Some (new_bid (UserId (profile_bidder (of_nat i))) (Money (profile_amount (of_nat i)))
         (UnixSeconds (profile_time (of_nat i)))))\<rparr>"

lemma profile_bid_step:
  assumes "n < 999879"
  shows "profile_bid n (profiled_session n, k) = (profiled_session (Suc n), k + 1)"
proof -
  have min: "minimum_required_bid (profiled_session n) \<le> Money (profile_amount (of_nat n))"
    using unat_profile(1) [OF assms]
    by (cases n) (simp_all add: minimum_required_bid_def profiled_session_def profile_session_def with_status_def
        new_bid_def from_cents_def profile_amount_Suc [simplified] word_le_nat_alt)
  have lead: "\<not> is_highest_bidder (profiled_session n) (UserId (profile_bidder (of_nat n)))"
    using assms profile_bidder_nat [of n] profile_bidder_nat [of "n - 1"]
    by (cases n) (auto simp: is_highest_bidder_def profiled_session_def profile_session_def with_status_def new_bid_def
        simp del: of_nat_Suc)
  have adm: "bid_admissible (profiled_session n) (UserId (profile_bidder (of_nat n))) (Money (profile_amount (of_nat n)))
      (UnixSeconds (profile_time (of_nat n)))"
    using min lead profile_in_time [OF assms] profile_bidder_nat [OF assms]
    by (auto simp: bid_admissible_def open_for_bids_def accepts_bids_def profiled_session_def profile_session_def with_status_def)
  have "profiled_session n\<lparr>las_current_highest := Some (new_bid (UserId (profile_bidder (of_nat n)))
      (Money (profile_amount (of_nat n))) (UnixSeconds (profile_time (of_nat n))))\<rparr> = profiled_session (Suc n)"
    by (simp add: profiled_session_def)
  moreover have "maybe_extend (profiled_session (Suc n)) (UnixSeconds (profile_time (of_nat n))) = (False, profiled_session (Suc n))"
    using profile_window [OF assms]
    by (simp add: maybe_extend_def seconds_until_def ANTI_SNIPING_WINDOW_SECS_def profiled_session_def profile_session_def
        with_status_def)
  ultimately show ?thesis
    by (simp add: profile_bid_def from_cents_def place_bid_admissible [OF adm])
qed

definition profiled_naive :: "nat \<Rightarrow> naive_auction" where
  "profiled_naive n = profile_naive_auction\<lparr>na_bids := map (\<lambda>i. \<lparr>nvb_bidder_id = profile_bidder (of_nat i),
     nvb_amount_cents = profile_amount (of_nat i), nvb_placed_at = profile_time (of_nat i)\<rparr>) [0..<n]\<rparr>"

lemma profiled_naive_Suc: "profiled_naive (Suc n) = with_bid (profiled_naive n)
    (profile_bidder (of_nat n)) (profile_amount (of_nat n)) (profile_time (of_nat n))"
  by (simp add: profiled_naive_def with_bid_def)

lemma profiled_naive_highest:
  "n < 999879 \<Longrightarrow> naive_highest (profiled_naive (Suc n)) = Some \<lparr>nvb_bidder_id = profile_bidder (of_nat n),
     nvb_amount_cents = profile_amount (of_nat n), nvb_placed_at = profile_time (of_nat n)\<rparr>"
proof (induction n)
  case 0
  then show ?case by (simp add: profiled_naive_def naive_highest_def max_by_key_def later_max_def)
next
  case (Suc n)
  then have "naive_highest (profiled_naive (Suc n)) = Some \<lparr>nvb_bidder_id = profile_bidder (of_nat n),
     nvb_amount_cents = profile_amount (of_nat n), nvb_placed_at = profile_time (of_nat n)\<rparr>" by simp
  then have high: "max_by_key nvb_amount_cents (na_bids (profiled_naive (Suc n))) = Some \<lparr>nvb_bidder_id = profile_bidder (of_nat n),
     nvb_amount_cents = profile_amount (of_nat n), nvb_placed_at = profile_time (of_nat n)\<rparr>" by (simp add: naive_highest_def)
  have "\<not> profile_amount (of_nat (Suc n)) < profile_amount (of_nat n)"
    using unat_profile(1) [of n] unat_profile(1) [of "Suc n"] Suc.prems by (simp add: word_less_nat_alt del: of_nat_Suc)
  then show ?case
    unfolding profiled_naive_Suc [of "Suc n"] naive_highest_def with_bid_frame max_by_key_snoc high
    by (simp add: later_max_def del: of_nat_Suc)
qed

lemma naive_profile_bid_step:
  assumes "n < 999879"
  shows "naive_profile_bid n (profiled_naive n, k) = (profiled_naive (Suc n), k + 1)"
proof -
  have "naive_minimum (profiled_naive n) \<le> profile_amount (of_nat n)"
  proof (cases n)
    case 0
    then show ?thesis
      by (simp add: naive_minimum_def naive_highest_def profiled_naive_def profile_naive_auction_def new_naive_auction_def
          profile_amount_def word_le_nat_alt)
  next
    case (Suc i)
    then show ?thesis
      using profiled_naive_highest [of i] assms profile_amount_Suc [of i]
      by (simp add: naive_minimum_def profiled_naive_def profile_naive_auction_def new_naive_auction_def del: of_nat_Suc)
  qed
  moreover have "na_status (profiled_naive n) = ''ACTIVE''" "na_start_at (profiled_naive n) = 1000000"
      "na_end_at (profiled_naive n) = 2000000" "na_seller_id (profiled_naive n) = ''seller-1''"
    by (simp_all add: profiled_naive_def profile_naive_auction_def new_naive_auction_def)
  moreover have "naive_extend (profiled_naive (Suc n)) (profile_time (of_nat n)) = profiled_naive (Suc n)"
    using profile_window [OF assms]
    by (simp add: naive_extend_def profiled_naive_def profile_naive_auction_def new_naive_auction_def)
  moreover have "profile_bidder (of_nat n) \<noteq> ''seller-1''" by (simp add: profile_bidder_def)
  ultimately show ?thesis
    using profile_in_time [OF assms]
    by (simp add: naive_profile_bid_def naive_place_bid_def with_bid_def [symmetric] profiled_naive_Suc [symmetric]
        leD not_less)
qed

lemma profile_folds:
  "n \<le> 999879 \<Longrightarrow> fold profile_bid [0..<n] (profile_session, k) = (profiled_session n, k + of_nat n)"
  "n \<le> 999879 \<Longrightarrow> fold naive_profile_bid [0..<n] (profile_naive_auction, k) = (profiled_naive n, k + of_nat n)"
  by (induction n)
    (simp_all add: profile_bid_step naive_profile_bid_step, simp_all add: profiled_session_def profiled_naive_def
      profile_session_def profile_naive_auction_def with_status_def new_naive_auction_def)

lemma iterated_add: "((\<lambda>x. x + c) ^^ n) 0 = of_nat n * (c :: u64)"
  by (induction n) (simp_all add: algebra_simps)

text \<open>Both profiling runs do the work they measure: with up to 999879 bids per auction (200 are used)
  every bid is accepted, by the domain object and by the naive auction alike.\<close>

theorem profiles_accept_every_bid:
  assumes "bids \<le> 999879"
  shows "run_profile iterations bids = iterations * bids \<and> run_profile_naive iterations bids = iterations * bids"
proof -
  have n: "unat bids \<le> 999879" using assms by (simp add: word_le_nat_alt)
  have "profile_round bids = (\<lambda>x. x + bids)" "naive_profile_round bids = (\<lambda>x. x + bids)"
    by (simp_all add: fun_eq_iff profile_round_def naive_profile_round_def profile_folds [OF n])
  then show ?thesis
    by (simp_all add: run_profile_def run_profile_naive_def iterated_add)
qed

theorem profiles_accept_every_bid_witness: "run_profile 10000 200 = 2000000 \<and> run_profile_naive 10000 200 = 2000000"
  using profiles_accept_every_bid [of 200 10000] by (simp add: word_le_nat_alt)

end
