(* ===== verification/Models.thy ===== *)
theory Models
  imports RustStd
begin

text \<open>
  The records of \<^verbatim>\<open>persistence/models.rs\<close> and the five tables of
  \<^verbatim>\<open>migrations/20260428000000_init.sql\<close>. The outbox table has columns its record does not
  show, so its row type extends the record.
\<close>

record listing_record =
  lr_id :: string
  lr_listing_id :: string
  lr_seller_id :: string
  lr_auction_type :: string
  lr_starting_price_cents :: i64
  lr_reserve_price_cents :: i64
  lr_current_highest_bid_cents :: "i64 option"
  lr_minimum_increment_cents :: i64
  lr_status :: string
  lr_start_time :: i64
  lr_end_time :: i64
  lr_created_at :: i64
  lr_updated_at :: i64

record new_listing_record =
  nl_id :: string
  nl_listing_id :: string
  nl_seller_id :: string
  nl_starting_price_cents :: i64
  nl_reserve_price_cents :: i64
  nl_current_highest_bid_cents :: "i64 option"
  nl_minimum_increment_cents :: i64
  nl_status :: string
  nl_start_time :: i64
  nl_end_time :: i64
  nl_created_at :: i64
  nl_updated_at :: i64

record bid_record =
  br_id :: string
  br_auction_id :: string
  br_bidder_id :: string
  br_bid_amount_cents :: i64
  br_bid_time :: i64
  br_wallet_hold_id :: "string option"

record new_bid_record =
  nb_id :: string
  nb_auction_id :: string
  nb_bidder_id :: string
  nb_bid_amount_cents :: i64
  nb_bid_time :: i64

record proxy_bid_record =
  pr_auction_id :: string
  pr_bidder_id :: string
  pr_max_bid_amount_cents :: i64
  pr_created_at :: i64
  pr_updated_at :: i64

record outbox_event_record =
  oe_id :: string
  oe_aggregate_id :: string
  oe_event_type :: string
  oe_payload :: string
  oe_published :: bool
  oe_published_at :: "i64 option"
  oe_created_at :: i64
  oe_updated_at :: i64

record outbox_row = outbox_event_record +
  ob_attempts :: i64
  ob_next_attempt_at :: i64
  ob_locked_until :: "i64 option"
  ob_locked_by :: "string option"
  ob_last_error :: "string option"

record closure_job_record =
  job_auction_id :: string
  job_due_at :: i64
  job_status :: string
  job_attempts :: i64
  job_locked_until :: "i64 option"
  job_locked_by :: "string option"
  job_last_error :: "string option"
  job_created_at :: i64
  job_updated_at :: i64

record store =
  listings :: "listing_record list"
  bids :: "bid_record list"
  proxy_bids :: "proxy_bid_record list"
  outbox_events :: "outbox_row list"
  closure_jobs :: "closure_job_record list"

definition empty_store :: store where
  "empty_store = \<lparr>listings = [], bids = [], proxy_bids = [], outbox_events = [], closure_jobs = []\<rparr>"

end
