(* ===== verification/Store.thy ===== *)
theory Store
  imports Models
begin

text \<open>
  The SQL statements of \<^verbatim>\<open>persistence/repositories.rs\<close>, and those \<^verbatim>\<open>service/auction_core.rs\<close>
  issues itself, as functions on the tables. A statement returns the database's error or its rows,
  with the new tables; primary keys, unique columns and foreign keys are checked where the schema
  declares them. Text is compared by bytes. Where a statement leaves the order of rows open, they
  come in the physical order of the table, on which nothing is assumed.
\<close>

datatype sql_error = UniqueViolation string | ForeignKeyViolation string | RowNotFound | DbFault string

type_synonym 'a stmt = "store \<Rightarrow> (sql_error + 'a) \<times> store"

definition sql_query :: "(store \<Rightarrow> 'a) \<Rightarrow> 'a stmt" where
  "sql_query f s = (Inr (f s), s)"

definition sql_limit :: "i64 \<Rightarrow> 'r list \<Rightarrow> 'r list" where
  "sql_limit n rows = take (nat n) rows"

definition fetch_one :: "'r option \<Rightarrow> sql_error + 'r" where
  "fetch_one r = (case r of None \<Rightarrow> Inl RowNotFound | Some x \<Rightarrow> Inr x)"

section \<open>Upserts\<close>

text \<open>\<^verbatim>\<open>INSERT \<dots> ON CONFLICT (key) DO UPDATE\<close>: \<open>merge old excluded\<close> is the row after a conflict.\<close>

definition upsert :: "('r \<Rightarrow> 'k) \<Rightarrow> ('r \<Rightarrow> 'r \<Rightarrow> 'r) \<Rightarrow> 'r \<Rightarrow> 'r list \<Rightarrow> 'r list" where
  "upsert key merge row rows =
     (if has_row (\<lambda>r. key r = key row) rows
      then update_where (\<lambda>r. key r = key row) (\<lambda>old. merge old row) rows
      else rows @ [row])"

locale upsert_table =
  fixes key :: "'r \<Rightarrow> 'k" and merge :: "'r \<Rightarrow> 'r \<Rightarrow> 'r"
  assumes merge_key: "key (merge old new) = key old"
begin

lemma keys: "map key (upsert key merge row rows) =
    (if key row \<in> set (map key rows) then map key rows else map key rows @ [key row])"
proof -
  have "has_row (\<lambda>r. key r = key row) rows \<longleftrightarrow> key row \<in> set (map key rows)"
    by (auto simp: has_row_iff image_iff intro: sym)
  then show ?thesis by (simp add: upsert_def map_update_where merge_key)
qed

lemma distinct_keys: "distinct (map key rows) \<Longrightarrow> distinct (map key (upsert key merge row rows))"
  by (simp add: keys del: set_map)

lemma lookup_same: "find (\<lambda>r. key r = key row) (upsert key merge row rows) =
    Some (case find (\<lambda>r. key r = key row) rows of None \<Rightarrow> row | Some old \<Rightarrow> merge old row)"
proof (cases "find (\<lambda>r. key r = key row) rows")
  case None
  then show ?thesis by (simp add: upsert_def has_row_def find_append)
next
  case (Some old)
  then show ?thesis
    by (simp add: upsert_def has_row_def find_update_where_same merge_key)
qed

lemma lookup_other: "k \<noteq> key row \<Longrightarrow> find (\<lambda>r. key r = k) (upsert key merge row rows) = find (\<lambda>r. key r = k) rows"
proof -
  assume k: "k \<noteq> key row"
  have "find (\<lambda>r. key r = k) (update_where (\<lambda>r. key r = key row) (\<lambda>old. merge old row) rows)
      = find (\<lambda>r. key r = k) rows"
    by (rule find_update_where_other) (use k in \<open>auto simp: merge_key\<close>)
  with k show ?thesis by (auto simp: upsert_def find_append split: option.split)
qed

lemma rows_of: "r \<in> set (upsert key merge row rows) \<Longrightarrow>
    r \<in> set rows \<or> r = row \<or> (\<exists>old \<in> set rows. key old = key row \<and> r = merge old row)"
  by (auto simp: upsert_def dest!: set_update_whereD split: if_splits)

end

section \<open>Listings\<close>

definition listing_of_new :: "new_listing_record \<Rightarrow> listing_record" where
  "listing_of_new a = \<lparr>lr_id = nl_id a, lr_listing_id = nl_listing_id a, lr_seller_id = nl_seller_id a,
     lr_auction_type = ''ENGLISH'', lr_starting_price_cents = nl_starting_price_cents a,
     lr_reserve_price_cents = nl_reserve_price_cents a,
     lr_current_highest_bid_cents = nl_current_highest_bid_cents a,
     lr_minimum_increment_cents = nl_minimum_increment_cents a, lr_status = nl_status a,
     lr_start_time = nl_start_time a, lr_end_time = nl_end_time a,
     lr_created_at = nl_created_at a, lr_updated_at = nl_updated_at a\<rparr>"

definition listing_insert :: "new_listing_record \<Rightarrow> listing_record stmt" where
  "listing_insert a s =
     (if has_row (\<lambda>r. lr_id r = nl_id a \<or> lr_listing_id r = nl_listing_id a) (listings s)
      then (Inl (UniqueViolation ''listings''), s)
      else (Inr (listing_of_new a), s\<lparr>listings := listings s @ [listing_of_new a]\<rparr>))"

definition find_by_id :: "string \<Rightarrow> store \<Rightarrow> listing_record option" where
  "find_by_id i s = find (\<lambda>r. lr_id r = i) (listings s)"

definition find_by_listing_id :: "string \<Rightarrow> store \<Rightarrow> listing_record option" where
  "find_by_listing_id l s =
     first_row (sort_key (\<lambda>r. - lr_created_at r) (filter (\<lambda>r. lr_listing_id r = l \<or> lr_id r = l) (listings s)))"

definition list_all :: "store \<Rightarrow> listing_record list" where
  "list_all s = sort_key (\<lambda>r. - lr_created_at r) (listings s)"

definition awaits_closure :: "i64 \<Rightarrow> listing_record \<Rightarrow> bool" where
  "awaits_closure now r \<longleftrightarrow> lr_end_time r \<le> now
     \<and> lr_status r \<notin> {''WON'', ''UNSOLD'', ''CLOSED'', ''CANCELLED''}"

definition list_pending_closure :: "i64 \<Rightarrow> store \<Rightarrow> listing_record list" where
  "list_pending_closure now s = sort_key lr_end_time (filter (awaits_closure now) (listings s))"

definition pop_pending_closure :: "i64 \<Rightarrow> store \<Rightarrow> listing_record option" where
  "pop_pending_closure now s = first_row (list_pending_closure now s)"

definition find_by_id_for_update :: "string \<Rightarrow> store \<Rightarrow> listing_record option" where
  "find_by_id_for_update i s = find (\<lambda>r. lr_id r = i \<or> lr_listing_id r = i) (listings s)"

definition listing_update :: "(listing_record \<Rightarrow> bool) \<Rightarrow> (listing_record \<Rightarrow> listing_record)
    \<Rightarrow> store \<Rightarrow> listing_record option \<times> store" where
  "listing_update P f s =
     (map_option f (find P (listings s)), s\<lparr>listings := update_where P f (listings s)\<rparr>)"

definition update_lifecycle_status :: "string \<Rightarrow> string \<Rightarrow> i64 option \<Rightarrow> i64 \<Rightarrow> listing_record stmt" where
  "update_lifecycle_status auction st highest updated s =
     (case listing_update (\<lambda>r. lr_id r = auction)
             (\<lambda>r. r\<lparr>lr_status := st, lr_current_highest_bid_cents := highest, lr_updated_at := updated\<rparr>) s of
        (r, s1) \<Rightarrow> (fetch_one r, s1))"

definition outbids_highest :: "string \<Rightarrow> i64 \<Rightarrow> listing_record \<Rightarrow> bool" where
  "outbids_highest auction amount r \<longleftrightarrow> lr_id r = auction
     \<and> (case lr_current_highest_bid_cents r of None \<Rightarrow> True | Some h \<Rightarrow> h < amount)"

text \<open>The UPDATE \<^verbatim>\<open>place_bid_internal\<close> issues after a bid was stored.\<close>

definition record_highest_bid :: "string \<Rightarrow> i64 \<Rightarrow> i64 \<Rightarrow> string \<Rightarrow> i64 \<Rightarrow> listing_record option stmt" where
  "record_highest_bid auction highest end_time st updated s =
     (case listing_update (outbids_highest auction highest)
             (\<lambda>r. r\<lparr>lr_current_highest_bid_cents := Some highest, lr_end_time := end_time,
                    lr_status := st, lr_updated_at := updated\<rparr>) s of
        (r, s1) \<Rightarrow> (Inr r, s1))"

text \<open>The UPDATE \<^verbatim>\<open>resolve_proxy_auto_bid\<close> issues: the end only moves forward.\<close>

definition record_auto_bid :: "string \<Rightarrow> i64 \<Rightarrow> i64 \<Rightarrow> string \<Rightarrow> i64 \<Rightarrow> listing_record option stmt" where
  "record_auto_bid auction target end_time st updated s =
     (case listing_update (outbids_highest auction target)
             (\<lambda>r. r\<lparr>lr_current_highest_bid_cents := Some target,
                    lr_end_time := (if lr_end_time r < end_time then end_time else lr_end_time r),
                    lr_status := (if lr_end_time r < end_time then st else lr_status r),
                    lr_updated_at := updated\<rparr>) s of
        (r, s1) \<Rightarrow> (Inr r, s1))"

section \<open>Bids\<close>

definition bid_of_new :: "new_bid_record \<Rightarrow> string option \<Rightarrow> bid_record" where
  "bid_of_new b hold = \<lparr>br_id = nb_id b, br_auction_id = nb_auction_id b, br_bidder_id = nb_bidder_id b,
     br_bid_amount_cents = nb_bid_amount_cents b, br_bid_time = nb_bid_time b, br_wallet_hold_id = hold\<rparr>"

definition listing_exists :: "string \<Rightarrow> store \<Rightarrow> bool" where
  "listing_exists i s = has_row (\<lambda>r. lr_id r = i) (listings s)"

definition insert_with_wallet_hold :: "new_bid_record \<Rightarrow> string option \<Rightarrow> bid_record stmt" where
  "insert_with_wallet_hold b hold s =
     (if has_row (\<lambda>r. br_id r = nb_id b) (bids s) then (Inl (UniqueViolation ''bids''), s)
      else if \<not> listing_exists (nb_auction_id b) s then (Inl (ForeignKeyViolation ''bids''), s)
      else (Inr (bid_of_new b hold), s\<lparr>bids := bids s @ [bid_of_new b hold]\<rparr>))"

definition bid_insert :: "new_bid_record \<Rightarrow> bid_record stmt" where
  "bid_insert b = insert_with_wallet_hold b None"

text \<open>The sort key of \<^verbatim>\<open>ORDER BY bid_amount_cents DESC, bid_time ASC, id ASC\<close>.\<close>

definition bid_rank :: "bid_record \<Rightarrow> int \<times> int \<times> string" where
  "bid_rank b = (- br_bid_amount_cents b, br_bid_time b, br_id b)"

definition bids_of :: "string \<Rightarrow> store \<Rightarrow> bid_record list" where
  "bids_of auction s = filter (\<lambda>b. br_auction_id b = auction) (bids s)"

definition list_by_auction_id_desc :: "string \<Rightarrow> store \<Rightarrow> bid_record list" where
  "list_by_auction_id_desc auction s = sort_key bid_rank (bids_of auction s)"

definition after_cursor :: "i64 \<Rightarrow> i64 \<Rightarrow> string \<Rightarrow> bid_record \<Rightarrow> bool" where
  "after_cursor amount time i b \<longleftrightarrow> br_bid_amount_cents b < amount
     \<or> (br_bid_amount_cents b = amount \<and> time < br_bid_time b)
     \<or> (br_bid_amount_cents b = amount \<and> br_bid_time b = time \<and> i < br_id b)"

definition list_by_auction_cursor :: "string \<Rightarrow> (i64 \<times> i64 \<times> string) option \<Rightarrow> i64 \<Rightarrow> store \<Rightarrow> bid_record list" where
  "list_by_auction_cursor auction cursor limit s =
     (case cursor of
        Some (amount, time, i) \<Rightarrow>
          sql_limit limit (sort_key bid_rank (filter (after_cursor amount time i) (bids_of auction s)))
      | None \<Rightarrow> sql_limit limit (sort_key bid_rank (bids_of auction s)))"

definition find_winning_bid :: "string \<Rightarrow> store \<Rightarrow> bid_record option" where
  "find_winning_bid auction s = first_row (sort_key bid_rank (bids_of auction s))"

definition find_matching_bid :: "string \<Rightarrow> string \<Rightarrow> i64 \<Rightarrow> i64 \<Rightarrow> store \<Rightarrow> bid_record option" where
  "find_matching_bid auction bidder amount time s =
     first_row (sort_key br_id (filter (\<lambda>b. br_auction_id b = auction \<and> br_bidder_id b = bidder
       \<and> br_bid_amount_cents b = amount \<and> br_bid_time b = time) (bids s)))"

text \<open>The UPDATE and the DELETE on \<open>bids\<close> that \<^verbatim>\<open>resolve_proxy_auto_bid\<close> issues.\<close>

definition raise_own_bid :: "string \<Rightarrow> i64 \<Rightarrow> i64 \<Rightarrow> string option \<Rightarrow> bid_record option stmt" where
  "raise_own_bid i amount time hold s =
     (let P = (\<lambda>b. br_id b = i \<and> br_bid_amount_cents b < amount);
          f = (\<lambda>b. b\<lparr>br_bid_amount_cents := amount, br_bid_time := time, br_wallet_hold_id := hold\<rparr>)
      in (Inr (map_option f (find P (bids s))), s\<lparr>bids := update_where P f (bids s)\<rparr>))"

definition delete_bid :: "string \<Rightarrow> unit stmt" where
  "delete_bid i s = (Inr (), s\<lparr>bids := filter (\<lambda>b. br_id b \<noteq> i) (bids s)\<rparr>)"

section \<open>Proxy bids\<close>

definition proxy_key :: "proxy_bid_record \<Rightarrow> string \<times> string" where
  "proxy_key p = (pr_auction_id p, pr_bidder_id p)"

definition merge_proxy :: "proxy_bid_record \<Rightarrow> proxy_bid_record \<Rightarrow> proxy_bid_record" where
  "merge_proxy old new = old\<lparr>pr_max_bid_amount_cents := pr_max_bid_amount_cents new,
     pr_updated_at := pr_updated_at new\<rparr>"

definition find_by_bidder :: "string \<Rightarrow> string \<Rightarrow> store \<Rightarrow> proxy_bid_record option" where
  "find_by_bidder auction bidder s = find (\<lambda>p. proxy_key p = (auction, bidder)) (proxy_bids s)"

definition upsert_max :: "string \<Rightarrow> string \<Rightarrow> i64 \<Rightarrow> i64 \<Rightarrow> proxy_bid_record stmt" where
  "upsert_max auction bidder max_cents now s =
     (if \<not> listing_exists auction s then (Inl (ForeignKeyViolation ''proxy_bids''), s)
      else
        (let row = \<lparr>pr_auction_id = auction, pr_bidder_id = bidder, pr_max_bid_amount_cents = max_cents,
                    pr_created_at = now, pr_updated_at = now\<rparr>;
             s1 = s\<lparr>proxy_bids := upsert proxy_key merge_proxy row (proxy_bids s)\<rparr>
         in (fetch_one (find_by_bidder auction bidder s1), s1)))"

definition proxy_rank :: "proxy_bid_record \<Rightarrow> int \<times> int \<times> string" where
  "proxy_rank p = (- pr_max_bid_amount_cents p, pr_created_at p, pr_bidder_id p)"

definition list_by_auction :: "string \<Rightarrow> store \<Rightarrow> proxy_bid_record list" where
  "list_by_auction auction s = sort_key proxy_rank (filter (\<lambda>p. pr_auction_id p = auction) (proxy_bids s))"

definition delete_for_bidder :: "string \<Rightarrow> string \<Rightarrow> nat stmt" where
  "delete_for_bidder auction bidder s =
     (Inr (length (filter (\<lambda>p. proxy_key p = (auction, bidder)) (proxy_bids s))),
      s\<lparr>proxy_bids := filter (\<lambda>p. proxy_key p \<noteq> (auction, bidder)) (proxy_bids s)\<rparr>)"

section \<open>Outbox\<close>

definition outbox_insert :: "outbox_event_record \<Rightarrow> outbox_event_record stmt" where
  "outbox_insert e s =
     (if has_row (\<lambda>r. oe_id r = oe_id e) (outbox_events s) then (Inl (UniqueViolation ''outbox_events''), s)
      else (Inr e, s\<lparr>outbox_events := outbox_events s @
        [outbox_event_record.extend e
           \<lparr>ob_attempts = 0, ob_next_attempt_at = 0, ob_locked_until = None, ob_locked_by = None, ob_last_error = None\<rparr>]\<rparr>))"

definition outbox_list_pending :: "i64 \<Rightarrow> store \<Rightarrow> outbox_event_record list" where
  "outbox_list_pending limit s = map outbox_event_record.truncate
     (sql_limit limit (sort_key oe_created_at (filter (\<lambda>r. \<not> oe_published r) (outbox_events s))))"

definition lock_free :: "i64 \<Rightarrow> i64 option \<Rightarrow> bool" where
  "lock_free now locked_until = (case locked_until of None \<Rightarrow> True | Some u \<Rightarrow> u \<le> now)"

definition claimable_event :: "i64 \<Rightarrow> outbox_row \<Rightarrow> bool" where
  "claimable_event now r \<longleftrightarrow> \<not> oe_published r \<and> ob_next_attempt_at r \<le> now \<and> lock_free now (ob_locked_until r)"

definition outbox_candidates :: "i64 \<Rightarrow> i64 \<Rightarrow> store \<Rightarrow> outbox_row list" where
  "outbox_candidates limit now s =
     sql_limit limit (sort_key oe_created_at (filter (claimable_event now) (outbox_events s)))"

definition lock_event :: "i64 \<Rightarrow> string \<Rightarrow> i64 \<Rightarrow> outbox_row \<Rightarrow> outbox_row" where
  "lock_event lock_until worker now r =
     r\<lparr>ob_locked_until := Some lock_until, ob_locked_by := Some worker, oe_updated_at := now\<rparr>"

definition claim_pending_postgres :: "i64 \<Rightarrow> i64 \<Rightarrow> i64 \<Rightarrow> string \<Rightarrow> outbox_event_record list stmt" where
  "claim_pending_postgres limit now lock_until worker s =
     (let ids = map oe_id (outbox_candidates limit now s);
          P = (\<lambda>r. oe_id r \<in> set ids)
      in (Inr (map (outbox_event_record.truncate \<circ> lock_event lock_until worker now) (filter P (outbox_events s))),
          s\<lparr>outbox_events := update_where P (lock_event lock_until worker now) (outbox_events s)\<rparr>))"

definition lock_event_stmt :: "string \<Rightarrow> i64 \<Rightarrow> i64 \<Rightarrow> string \<Rightarrow> nat stmt" where
  "lock_event_stmt i now lock_until worker s =
     (let P = (\<lambda>r. oe_id r = i \<and> \<not> oe_published r \<and> lock_free now (ob_locked_until r))
      in (Inr (length (filter P (outbox_events s))),
          s\<lparr>outbox_events := update_where P (lock_event lock_until worker now) (outbox_events s)\<rparr>))"

definition mark_published :: "string \<Rightarrow> i64 \<Rightarrow> unit stmt" where
  "mark_published i at s = (Inr (), s\<lparr>outbox_events := update_where (\<lambda>r. oe_id r = i)
     (\<lambda>r. r\<lparr>oe_published := True, oe_published_at := Some at, oe_updated_at := at,
            ob_locked_until := None, ob_locked_by := None, ob_last_error := None\<rparr>) (outbox_events s)\<rparr>)"

definition mark_publish_failed :: "string \<Rightarrow> i64 \<Rightarrow> i64 \<Rightarrow> string \<Rightarrow> unit stmt" where
  "mark_publish_failed i now next_attempt err s = (Inr (), s\<lparr>outbox_events := update_where (\<lambda>r. oe_id r = i)
     (\<lambda>r. r\<lparr>ob_attempts := ob_attempts r + 1, ob_next_attempt_at := next_attempt,
            ob_locked_until := None, ob_locked_by := None, ob_last_error := Some err,
            oe_updated_at := now\<rparr>) (outbox_events s)\<rparr>)"

section \<open>Closure jobs\<close>

definition job_row :: "string \<Rightarrow> i64 \<Rightarrow> string \<Rightarrow> i64 \<Rightarrow> closure_job_record" where
  "job_row auction due st now = \<lparr>job_auction_id = auction, job_due_at = due, job_status = st, job_attempts = 0,
     job_locked_until = None, job_locked_by = None, job_last_error = None,
     job_created_at = now, job_updated_at = now\<rparr>"

definition merge_pending :: "closure_job_record \<Rightarrow> closure_job_record \<Rightarrow> closure_job_record" where
  "merge_pending old new = old\<lparr>job_due_at := job_due_at new,
     job_status := (if job_status old \<in> {''DONE'', ''SETTLING''} then job_status old else ''PENDING''),
     job_locked_until := None, job_locked_by := None, job_updated_at := job_updated_at new\<rparr>"

definition find_job :: "string \<Rightarrow> store \<Rightarrow> closure_job_record option" where
  "find_job auction s = find (\<lambda>j. job_auction_id j = auction) (closure_jobs s)"

definition upsert_pending :: "string \<Rightarrow> i64 \<Rightarrow> i64 \<Rightarrow> closure_job_record stmt" where
  "upsert_pending auction due now s =
     (if \<not> listing_exists auction s then (Inl (ForeignKeyViolation ''auction_closure_jobs''), s)
      else
        (let s1 = s\<lparr>closure_jobs := upsert job_auction_id merge_pending (job_row auction due ''PENDING'' now) (closure_jobs s)\<rparr>
         in (fetch_one (find_job auction s1), s1)))"

definition claimable_job :: "i64 \<Rightarrow> closure_job_record \<Rightarrow> bool" where
  "claimable_job now j \<longleftrightarrow> job_status j \<in> {''PENDING'', ''SETTLING''} \<and> job_due_at j \<le> now
     \<and> lock_free now (job_locked_until j)"

definition due_job :: "i64 \<Rightarrow> store \<Rightarrow> closure_job_record option" where
  "due_job now s = first_row (sort_key job_due_at (filter (claimable_job now) (closure_jobs s)))"

definition lock_job :: "i64 \<Rightarrow> string \<Rightarrow> i64 \<Rightarrow> closure_job_record \<Rightarrow> closure_job_record" where
  "lock_job lock_until worker now j =
     j\<lparr>job_status := ''PROCESSING'', job_locked_until := Some lock_until, job_locked_by := Some worker,
       job_updated_at := now\<rparr>"

definition claim_due_postgres :: "i64 \<Rightarrow> i64 \<Rightarrow> string \<Rightarrow> closure_job_record option stmt" where
  "claim_due_postgres now lock_until worker s =
     (case due_job now s of
        None \<Rightarrow> (Inr None, s)
      | Some j \<Rightarrow>
          (let P = (\<lambda>r. job_auction_id r = job_auction_id j)
           in (Inr (map_option (lock_job lock_until worker now) (find P (closure_jobs s))),
               s\<lparr>closure_jobs := update_where P (lock_job lock_until worker now) (closure_jobs s)\<rparr>)))"

definition lock_job_stmt :: "string \<Rightarrow> i64 \<Rightarrow> i64 \<Rightarrow> string \<Rightarrow> nat stmt" where
  "lock_job_stmt auction now lock_until worker s =
     (let P = (\<lambda>j. job_auction_id j = auction \<and> job_status j \<in> {''PENDING'', ''SETTLING''}
                 \<and> lock_free now (job_locked_until j))
      in (Inr (length (filter P (closure_jobs s))),
          s\<lparr>closure_jobs := update_where P (lock_job lock_until worker now) (closure_jobs s)\<rparr>))"

definition job_update :: "string \<Rightarrow> (closure_job_record \<Rightarrow> closure_job_record) \<Rightarrow> unit stmt" where
  "job_update auction f s =
     (Inr (), s\<lparr>closure_jobs := update_where (\<lambda>j. job_auction_id j = auction) f (closure_jobs s)\<rparr>)"

definition mark_done :: "string \<Rightarrow> i64 \<Rightarrow> unit stmt" where
  "mark_done auction now = job_update auction (\<lambda>j. j\<lparr>job_status := ''DONE'', job_locked_until := None,
     job_locked_by := None, job_last_error := None, job_updated_at := now\<rparr>)"

definition merge_settling :: "closure_job_record \<Rightarrow> closure_job_record \<Rightarrow> closure_job_record" where
  "merge_settling old new = old\<lparr>job_status := ''SETTLING'', job_due_at := job_due_at new,
     job_locked_until := None, job_locked_by := None, job_last_error := None, job_updated_at := job_updated_at new\<rparr>"

definition mark_settling :: "string \<Rightarrow> i64 \<Rightarrow> i64 \<Rightarrow> unit stmt" where
  "mark_settling auction due now s =
     (if \<not> listing_exists auction s then (Inl (ForeignKeyViolation ''auction_closure_jobs''), s)
      else (Inr (), s\<lparr>closure_jobs :=
        upsert job_auction_id merge_settling (job_row auction due ''SETTLING'' now) (closure_jobs s)\<rparr>))"

definition fail_job :: "string \<Rightarrow> i64 \<Rightarrow> i64 \<Rightarrow> string \<Rightarrow> closure_job_record \<Rightarrow> closure_job_record" where
  "fail_job st now next_attempt err j = j\<lparr>job_status := st, job_attempts := job_attempts j + 1,
     job_due_at := next_attempt, job_locked_until := None, job_locked_by := None,
     job_last_error := Some err, job_updated_at := now\<rparr>"

definition mark_failed :: "string \<Rightarrow> i64 \<Rightarrow> i64 \<Rightarrow> string \<Rightarrow> unit stmt" where
  "mark_failed auction now next_attempt err = job_update auction (fail_job ''PENDING'' now next_attempt err)"

definition mark_settlement_failed :: "string \<Rightarrow> i64 \<Rightarrow> i64 \<Rightarrow> string \<Rightarrow> unit stmt" where
  "mark_settlement_failed auction now next_attempt err = job_update auction (fail_job ''SETTLING'' now next_attempt err)"

definition reconcile_missing_pending_jobs :: "i64 \<Rightarrow> nat stmt" where
  "reconcile_missing_pending_jobs now s =
     (let missing = filter (\<lambda>r. awaits_closure now r
            \<and> lr_id r \<notin> set (map job_auction_id (closure_jobs s))) (listings s)
      in (Inr (length missing),
          s\<lparr>closure_jobs := closure_jobs s @ map (\<lambda>r. job_row (lr_id r) (lr_end_time r) ''PENDING'' now) missing\<rparr>))"

end
