(* ===== verification/StoreFacts.thy ===== *)
theory StoreFacts
  imports Store "HOL-Library.Sublist"
begin

text \<open>
  What the tables promise: the upserts as instances of one contract, the integrity of keys and
  references, and the single steps by which the service changes the tables. The integrity is an
  invariant of every sequence of steps, and the history of the tables only grows.
\<close>

section \<open>The three upserts\<close>

interpretation proxies: upsert_table proxy_key merge_proxy
  by unfold_locales (simp add: proxy_key_def merge_proxy_def)

interpretation pending: upsert_table job_auction_id merge_pending
  by unfold_locales (simp add: merge_pending_def)

interpretation settling: upsert_table job_auction_id merge_settling
  by unfold_locales (simp add: merge_settling_def)

lemma job_row_key [simp]: "job_auction_id (job_row auction due st now) = auction"
  by (simp add: job_row_def)

lemma listing_of_new_simps [simp]: "lr_id (listing_of_new a) = nl_id a" "lr_listing_id (listing_of_new a) = nl_listing_id a"
  by (simp_all add: listing_of_new_def)

lemma bid_of_new_simps [simp]: "br_id (bid_of_new b h) = nb_id b" "br_auction_id (bid_of_new b h) = nb_auction_id b"
  by (simp_all add: bid_of_new_def)

lemma proxy_row_key [simp]: "proxy_key \<lparr>pr_auction_id = a, pr_bidder_id = u, pr_max_bid_amount_cents = m,
    pr_created_at = c, pr_updated_at = t\<rparr> = (a, u)"
  by (simp add: proxy_key_def)

text \<open>Storing a proxy bid on an existing auction succeeds, and afterwards the bidder's stored maximum on
  it is the new one, with the time of the first proxy bid kept; every other proxy bid is as it was.\<close>

theorem proxy_maximum_is_stored:
  assumes "listing_exists a s"
  shows "\<exists>p s1. upsert_max a u m now s = (Inr p, s1) \<and> find_by_bidder a u s1 = Some p
    \<and> pr_max_bid_amount_cents p = m \<and> pr_updated_at p = now
    \<and> pr_created_at p = (case find_by_bidder a u s of None \<Rightarrow> now | Some old \<Rightarrow> pr_created_at old)
    \<and> (\<forall>k. k \<noteq> (a, u) \<longrightarrow> find_by_bidder (fst k) (snd k) s1 = find_by_bidder (fst k) (snd k) s)"
proof -
  let ?row = "\<lparr>pr_auction_id = a, pr_bidder_id = u, pr_max_bid_amount_cents = m, pr_created_at = now, pr_updated_at = now\<rparr>"
  have "find (\<lambda>p. proxy_key p = k) (upsert proxy_key merge_proxy ?row (proxy_bids s))
      = find (\<lambda>p. proxy_key p = k) (proxy_bids s)" if "k \<noteq> (a, u)" for k
    using proxies.lookup_other [of k ?row] that by simp
  with assms proxies.lookup_same [of ?row "proxy_bids s"] show ?thesis
    by (auto simp: upsert_max_def find_by_bidder_def fetch_one_def Let_def merge_proxy_def split: option.split)
qed

definition one_listing_store :: store where
  "one_listing_store = empty_store\<lparr>listings := [\<lparr>lr_id = ''a1'', lr_listing_id = ''a1'', lr_seller_id = ''seller'',
     lr_auction_type = ''ENGLISH'', lr_starting_price_cents = 1000, lr_reserve_price_cents = 1500,
     lr_current_highest_bid_cents = None, lr_minimum_increment_cents = 100, lr_status = ''ACTIVE'',
     lr_start_time = 100, lr_end_time = 1000, lr_created_at = 100, lr_updated_at = 100\<rparr>]\<rparr>"

lemma one_listing_exists: "listing_exists ''a1'' one_listing_store"
  by code_simp

theorem proxy_maximum_is_stored_witness:
  "\<exists>p. find_by_bidder ''a1'' ''u1'' (snd (upsert_max ''a1'' ''u1'' 5000 200 one_listing_store)) = Some p
    \<and> pr_max_bid_amount_cents p = 5000"
  using proxy_maximum_is_stored [OF one_listing_exists, of "''u1''" 5000 200] by auto

text \<open>Scheduling an existing auction's closure leaves one job for it, due at the given time and not
  locked; a job that is done or being settled keeps its state, so closed work is never reopened.\<close>

theorem scheduling_keeps_closed_work:
  assumes "listing_exists a s"
  shows "\<exists>j s1. upsert_pending a due now s = (Inr j, s1) \<and> find_job a s1 = Some j \<and> job_due_at j = due
    \<and> job_locked_until j = None
    \<and> job_status j = (case find_job a s of
          None \<Rightarrow> ''PENDING''
        | Some old \<Rightarrow> if job_status old \<in> {''DONE'', ''SETTLING''} then job_status old else ''PENDING'')
    \<and> (\<forall>b. b \<noteq> a \<longrightarrow> find_job b s1 = find_job b s)"
proof -
  let ?row = "job_row a due ''PENDING'' now"
  have "find (\<lambda>j. job_auction_id j = b) (upsert job_auction_id merge_pending ?row (closure_jobs s))
      = find (\<lambda>j. job_auction_id j = b) (closure_jobs s)" if "b \<noteq> a" for b
    using pending.lookup_other [of b ?row] that by simp
  with assms pending.lookup_same [of ?row "closure_jobs s"] show ?thesis
    by (auto simp: upsert_pending_def find_job_def fetch_one_def Let_def merge_pending_def job_row_def split: option.split)
qed

theorem scheduling_keeps_closed_work_witness:
  "\<exists>j. find_job ''a1'' (snd (upsert_pending ''a1'' 900 500 one_listing_store)) = Some j \<and> job_due_at j = 900"
  using scheduling_keeps_closed_work [OF one_listing_exists, of 900 500] by auto

section \<open>Integrity\<close>

definition listing_ids :: "store \<Rightarrow> string set" where
  "listing_ids s = lr_id ` set (listings s)"

lemma listing_exists_iff: "listing_exists i s \<longleftrightarrow> i \<in> listing_ids s"
  by (auto simp: listing_exists_def has_row_iff listing_ids_def)

definition job_states :: "string set" where
  "job_states = {''PENDING'', ''PROCESSING'', ''SETTLING'', ''DONE''}"

text \<open>Primary keys and unique columns hold no duplicates.\<close>

definition keys_ok :: "store \<Rightarrow> bool" where
  "keys_ok s \<longleftrightarrow> distinct (map lr_id (listings s)) \<and> distinct (map lr_listing_id (listings s))
     \<and> distinct (map br_id (bids s)) \<and> distinct (map proxy_key (proxy_bids s))
     \<and> distinct (map oe_id (outbox_events s)) \<and> distinct (map job_auction_id (closure_jobs s))"

text \<open>Bids, proxy bids and jobs refer to listings that exist; jobs are in one of four states.\<close>

definition refs_ok :: "store \<Rightarrow> bool" where
  "refs_ok s \<longleftrightarrow> br_auction_id ` set (bids s) \<subseteq> listing_ids s
     \<and> pr_auction_id ` set (proxy_bids s) \<subseteq> listing_ids s
     \<and> job_auction_id ` set (closure_jobs s) \<subseteq> listing_ids s
     \<and> job_status ` set (closure_jobs s) \<subseteq> job_states"

definition store_ok :: "store \<Rightarrow> bool" where
  "store_ok s \<longleftrightarrow> keys_ok s \<and> refs_ok s"

lemma empty_store_ok: "store_ok empty_store"
  by (simp add: store_ok_def keys_ok_def refs_ok_def empty_store_def)

section \<open>Steps\<close>

text \<open>
  The changes the service makes to the tables, each with the statement that makes it. Closing an
  auction is one step: its transaction installs the new status and the \<open>AuctionEnded\<close> event at once.
\<close>

definition closing_decision :: "listing_record \<Rightarrow> store \<Rightarrow> string \<times> i64 option" where
  "closing_decision auction s =
     (let highest = (case first_row (list_by_auction_id_desc (lr_id auction) s) of
            Some b \<Rightarrow> Some (br_bid_amount_cents b) | None \<Rightarrow> lr_current_highest_bid_cents auction)
      in (if (case highest of Some a \<Rightarrow> lr_reserve_price_cents auction \<le> a | None \<Rightarrow> False)
          then ''WON'' else ''UNSOLD'', highest))"

inductive store_step :: "store \<Rightarrow> store \<Rightarrow> bool" where
  step_listing_insert: "listing_insert a s = (Inr r, s1) \<Longrightarrow> store_step s s1"
| step_record_highest_bid: "record_highest_bid auction amount e st u s = (Inr l, s1) \<Longrightarrow> store_step s s1"
| step_record_auto_bid: "record_auto_bid auction amount e st u s = (Inr l, s1) \<Longrightarrow> store_step s s1"
| step_insert_bid: "insert_with_wallet_hold b hold s = (Inr br, s1) \<Longrightarrow> store_step s s1"
| step_raise_own_bid: "raise_own_bid i amount time hold s = (Inr bo, s1) \<Longrightarrow> store_step s s1"
| step_delete_bid: "delete_bid i s = (Inr v, s1) \<Longrightarrow> store_step s s1"
| step_upsert_max: "upsert_max auction bidder m now s = (Inr p, s1) \<Longrightarrow> store_step s s1"
| step_delete_proxy: "delete_for_bidder auction bidder s = (Inr n, s1) \<Longrightarrow> store_step s s1"
| step_outbox_insert: "outbox_insert e s = (Inr e1, s1) \<Longrightarrow> store_step s s1"
| step_claim_pending: "claim_pending_postgres limit now until worker s = (Inr es, s1) \<Longrightarrow> store_step s s1"
| step_lock_event: "lock_event_stmt i now until worker s = (Inr n, s1) \<Longrightarrow> store_step s s1"
| step_mark_published: "mark_published i now s = (Inr v, s1) \<Longrightarrow> store_step s s1"
| step_mark_publish_failed: "mark_publish_failed i now next err s = (Inr v, s1) \<Longrightarrow> store_step s s1"
| step_upsert_pending: "upsert_pending auction due now s = (Inr j, s1) \<Longrightarrow> store_step s s1"
| step_claim_due: "claim_due_postgres now until worker s = (Inr jo, s1) \<Longrightarrow> store_step s s1"
| step_lock_job: "lock_job_stmt auction now until worker s = (Inr n, s1) \<Longrightarrow> store_step s s1"
| step_mark_done: "mark_done auction now s = (Inr v, s1) \<Longrightarrow> store_step s s1"
| step_mark_settling: "mark_settling auction due now s = (Inr v, s1) \<Longrightarrow> store_step s s1"
| step_mark_failed: "mark_failed auction now next err s = (Inr v, s1) \<Longrightarrow> store_step s s1"
| step_mark_settlement_failed: "mark_settlement_failed auction now next err s = (Inr v, s1) \<Longrightarrow> store_step s s1"
| step_reconcile: "reconcile_missing_pending_jobs now s = (Inr n, s1) \<Longrightarrow> store_step s s1"
| step_close: "find_by_id_for_update i s = Some auction \<Longrightarrow> lr_end_time auction \<le> now
    \<Longrightarrow> lr_status auction \<noteq> ''WON'' \<Longrightarrow> lr_status auction \<noteq> ''UNSOLD''
    \<Longrightarrow> closing_decision auction s = (st, highest)
    \<Longrightarrow> update_lifecycle_status (lr_id auction) st highest now s = (Inr r, s1)
    \<Longrightarrow> oe_event_type e = ''AuctionEnded'' \<Longrightarrow> oe_aggregate_id e = lr_id auction
    \<Longrightarrow> outbox_insert e s1 = (Inr e1, s2) \<Longrightarrow> store_step s s2"

abbreviation store_steps :: "store \<Rightarrow> store \<Rightarrow> bool" where
  "store_steps \<equiv> store_step\<^sup>*\<^sup>*"

inductive_cases store_stepE: "store_step s s1"

lemmas listing_stmt_defs = listing_insert_def record_highest_bid_def record_auto_bid_def listing_update_def
  update_lifecycle_status_def

lemmas bid_stmt_defs = insert_with_wallet_hold_def raise_own_bid_def delete_bid_def upsert_max_def delete_for_bidder_def

lemmas event_stmt_defs = outbox_insert_def claim_pending_postgres_def lock_event_stmt_def mark_published_def
  mark_publish_failed_def

lemmas job_stmt_defs = upsert_pending_def claim_due_postgres_def lock_job_stmt_def mark_done_def mark_settling_def
  mark_failed_def mark_settlement_failed_def job_update_def reconcile_missing_pending_jobs_def

lemmas stmt_defs = listing_stmt_defs bid_stmt_defs event_stmt_defs job_stmt_defs

lemmas stmt_splits = prod.splits option.splits if_splits

text \<open>What a step does to each table, as far as the keys are concerned.\<close>

lemma row_projections [simp]:
  "oe_id (outbox_event_record.extend e x) = oe_id e"
  "oe_id (lock_event until worker now r) = oe_id r"
  "job_auction_id (lock_job until worker now j) = job_auction_id j"
  "job_auction_id (fail_job st now next err j) = job_auction_id j"
  by (simp_all add: outbox_event_record.defs lock_event_def lock_job_def fail_job_def)

text \<open>The terms of an auction: what no statement ever changes.\<close>

definition listing_terms :: "listing_record \<Rightarrow> string \<times> string \<times> string \<times> string \<times> i64 \<times> i64 \<times> i64 \<times> i64 \<times> i64" where
  "listing_terms r = (lr_id r, lr_listing_id r, lr_seller_id r, lr_auction_type r, lr_starting_price_cents r,
     lr_reserve_price_cents r, lr_minimum_increment_cents r, lr_start_time r, lr_created_at r)"

lemma fresh_listing:
  "\<not> has_row (\<lambda>r. lr_id r = i \<or> lr_listing_id r = l) rows \<longleftrightarrow> i \<notin> lr_id ` set rows \<and> l \<notin> lr_listing_id ` set rows"
  by (auto simp: has_row_iff image_iff)

lemma step_listings:
  assumes "store_step s s1"
  shows "map listing_terms (listings s1) = map listing_terms (listings s) \<or>
    (\<exists>a. listings s1 = listings s @ [a] \<and> lr_id a \<notin> lr_id ` set (listings s)
      \<and> lr_listing_id a \<notin> lr_listing_id ` set (listings s))"
  using assms
  by (cases rule: store_stepE)
    (auto simp: stmt_defs Let_def map_update_where fresh_listing listing_terms_def split: stmt_splits)

lemma terms_eq_ids:
  "map listing_terms rows1 = map listing_terms rows \<Longrightarrow>
    map lr_id rows1 = map lr_id rows \<and> map lr_listing_id rows1 = map lr_listing_id rows"
proof -
  have "map lr_id rs = map fst (map listing_terms rs)" "map lr_listing_id rs = map (fst \<circ> snd) (map listing_terms rs)"
    for rs by (simp_all add: listing_terms_def comp_def)
  then show "map listing_terms rows1 = map listing_terms rows \<Longrightarrow> ?thesis" by metis
qed

lemma step_listing_ids: "store_step s s1 \<Longrightarrow> listing_ids s \<subseteq> listing_ids s1"
proof -
  assume "store_step s s1"
  then consider "map listing_terms (listings s1) = map listing_terms (listings s)"
    | a where "listings s1 = listings s @ [a]"
    using step_listings by blast
  then show ?thesis
  proof cases
    case 1
    then have "set (map lr_id (listings s1)) = set (map lr_id (listings s))"
      using terms_eq_ids by metis
    then show ?thesis by (simp add: listing_ids_def)
  qed (auto simp: listing_ids_def)
qed

lemma step_listing_keys:
  assumes "store_step s s1" and "distinct (map lr_id (listings s))" and "distinct (map lr_listing_id (listings s))"
  shows "distinct (map lr_id (listings s1)) \<and> distinct (map lr_listing_id (listings s1))"
  using step_listings [OF assms(1)] assms(2,3) terms_eq_ids [of "listings s1" "listings s"] by auto

lemma step_bid_keys:
  assumes "store_step s s1" and "distinct (map br_id (bids s))"
  shows "distinct (map br_id (bids s1))"
  using assms
  by (cases rule: store_stepE)
    (auto simp: stmt_defs Let_def map_update_where distinct_map_filter has_key_iff split: stmt_splits)

lemma step_proxy_keys:
  assumes "store_step s s1" and "distinct (map proxy_key (proxy_bids s))"
  shows "distinct (map proxy_key (proxy_bids s1))"
  using assms
  by (cases rule: store_stepE)
    (auto simp: stmt_defs Let_def distinct_map_filter proxies.distinct_keys split: stmt_splits)

lemma step_event_keys:
  assumes "store_step s s1" and "distinct (map oe_id (outbox_events s))"
  shows "distinct (map oe_id (outbox_events s1))"
  using assms
  by (cases rule: store_stepE)
    (auto simp: stmt_defs Let_def map_update_where has_key_iff split: stmt_splits)

lemma reconciled_keys:
  assumes "distinct (map lr_id rows)" and "distinct (map job_auction_id jobs)"
  shows "distinct (map job_auction_id (jobs @ map (\<lambda>r. job_row (lr_id r) (lr_end_time r) ''PENDING'' now)
    (filter (\<lambda>r. P r \<and> lr_id r \<notin> set (map job_auction_id jobs)) rows)))"
  using assms by (auto simp: comp_def distinct_map_filter) (metis imageI)

lemma step_job_keys:
  assumes "store_step s s1" and "distinct (map job_auction_id (closure_jobs s))" and "distinct (map lr_id (listings s))"
  shows "distinct (map job_auction_id (closure_jobs s1))"
  using assms(1)
proof cases
  case (step_reconcile now n)
  with assms(2,3) reconciled_keys [of "listings s" "closure_jobs s" now "awaits_closure now"] show ?thesis
    by (auto simp: reconcile_missing_pending_jobs_def Let_def)
qed (use assms(2) in \<open>auto simp: stmt_defs Let_def map_update_where pending.distinct_keys settling.distinct_keys
  simp del: set_map split: stmt_splits\<close>)

lemma step_keys_ok: "store_step s s1 \<Longrightarrow> keys_ok s \<Longrightarrow> keys_ok s1"
  unfolding keys_ok_def
  by (simp add: step_listing_keys step_bid_keys step_proxy_keys step_event_keys step_job_keys)

lemma update_where_subset:
  "(\<And>r. r \<in> set rows \<Longrightarrow> P r \<Longrightarrow> g (f r) \<in> S) \<Longrightarrow> g ` set rows \<subseteq> S \<Longrightarrow> g ` set (update_where P f rows) \<subseteq> S"
  by (auto simp: set_update_where)

lemma step_bid_refs:
  assumes "store_step s s1" and "br_auction_id ` set (bids s) \<subseteq> listing_ids s"
  shows "br_auction_id ` set (bids s1) \<subseteq> listing_ids s"
  using assms
  by (cases rule: store_stepE)
    (auto simp: stmt_defs Let_def set_update_where listing_exists_iff image_subset_iff split: stmt_splits)

lemma step_proxy_refs:
  assumes "store_step s s1" and "pr_auction_id ` set (proxy_bids s) \<subseteq> listing_ids s"
  shows "pr_auction_id ` set (proxy_bids s1) \<subseteq> listing_ids s"
  using assms
  by (cases rule: store_stepE)
    (auto simp: stmt_defs Let_def listing_exists_iff merge_proxy_def image_subset_iff dest!: proxies.rows_of split: stmt_splits)

definition job_ok :: "store \<Rightarrow> closure_job_record \<Rightarrow> bool" where
  "job_ok s j \<longleftrightarrow> job_auction_id j \<in> listing_ids s \<and> job_status j \<in> job_states"

lemma job_ok_updates [simp]:
  "job_ok s j \<Longrightarrow> job_ok s (lock_job until worker now j)"
  "job_ok s j \<Longrightarrow> st \<in> job_states \<Longrightarrow> job_ok s (fail_job st now next err j)"
  "job_ok s j \<Longrightarrow> job_ok s (merge_pending j j1)"
  "job_ok s j \<Longrightarrow> job_ok s (merge_settling j j1)"
  "job_ok s (job_row i due st now) \<longleftrightarrow> i \<in> listing_ids s \<and> st \<in> job_states"
  by (auto simp: job_ok_def lock_job_def fail_job_def merge_pending_def merge_settling_def job_row_def job_states_def)

lemma job_ok_done [simp]: "job_ok s j \<Longrightarrow> job_ok s (j\<lparr>job_status := ''DONE'', job_locked_until := u, job_locked_by := l,
    job_last_error := e, job_updated_at := now\<rparr>)"
  by (simp add: job_ok_def job_states_def)

lemma step_jobs_ok:
  assumes "store_step s s1" and ok: "\<forall>j \<in> set (closure_jobs s). job_ok s j"
  shows "\<forall>j \<in> set (closure_jobs s1). job_ok s j"
proof -
  have states: "''PENDING'' \<in> job_states" "''SETTLING'' \<in> job_states"
    by (simp_all add: job_states_def)
  show ?thesis
    using assms(1)
  proof cases
    case (step_upsert_pending auction due now j)
    with ok states show ?thesis
      by (auto simp: upsert_pending_def listing_exists_iff Let_def dest!: pending.rows_of split: stmt_splits)
  next
    case (step_mark_settling auction due now v)
    with ok states show ?thesis
      by (auto simp: mark_settling_def listing_exists_iff dest!: settling.rows_of split: stmt_splits)
  next
    case (step_reconcile now n)
    with ok states show ?thesis
      by (auto simp: reconcile_missing_pending_jobs_def Let_def listing_ids_def)
  qed (use ok states in \<open>auto simp: stmt_defs Let_def set_update_where split: stmt_splits\<close>)
qed

lemma refs_ok_jobs: "refs_ok s \<longleftrightarrow> br_auction_id ` set (bids s) \<subseteq> listing_ids s
    \<and> pr_auction_id ` set (proxy_bids s) \<subseteq> listing_ids s \<and> (\<forall>j \<in> set (closure_jobs s). job_ok s j)"
  by (auto simp: refs_ok_def job_ok_def)

lemma step_refs_ok: "store_step s s1 \<Longrightarrow> refs_ok s \<Longrightarrow> refs_ok s1"
  using step_listing_ids [of s s1] step_bid_refs [of s s1] step_proxy_refs [of s s1] step_jobs_ok [of s s1]
  unfolding refs_ok_jobs job_ok_def by blast

lemma step_store_ok: "store_step s s1 \<Longrightarrow> store_ok s \<Longrightarrow> store_ok s1"
  by (simp add: store_ok_def step_keys_ok step_refs_ok)

lemma steps_store_ok: "store_steps s s1 \<Longrightarrow> store_ok s \<Longrightarrow> store_ok s1"
  by (induction rule: rtranclp_induct) (auto intro: step_store_ok)

section \<open>History\<close>

text \<open>
  What a later store keeps of an earlier one: the terms of its auctions, in order, and the identity
  of its events (id, aggregate, type, payload and time of creation), in order.
\<close>

definition event_identity :: "outbox_row \<Rightarrow> string \<times> string \<times> string \<times> string \<times> i64" where
  "event_identity e = (oe_id e, oe_aggregate_id e, oe_event_type e, oe_payload e, oe_created_at e)"

definition history_grows :: "store \<Rightarrow> store \<Rightarrow> bool" where
  "history_grows s s1 \<longleftrightarrow> prefix (map listing_terms (listings s)) (map listing_terms (listings s1))
     \<and> prefix (map event_identity (outbox_events s)) (map event_identity (outbox_events s1))"

lemma event_identity_lock [simp]: "event_identity (lock_event until worker now r) = event_identity r"
  by (simp add: event_identity_def lock_event_def)

lemma step_events_grow:
  assumes "store_step s s1"
  shows "prefix (map event_identity (outbox_events s)) (map event_identity (outbox_events s1))"
  using assms
  by (cases rule: store_stepE)
    (auto simp: stmt_defs Let_def map_update_where event_identity_def lock_event_def split: stmt_splits)

lemma step_history_grows: "store_step s s1 \<Longrightarrow> history_grows s s1"
  using step_listings [of s s1] step_events_grow [of s s1] by (auto simp: history_grows_def)

lemma steps_history_grows: "store_steps s s1 \<Longrightarrow> history_grows s s1"
  by (induction rule: rtranclp_induct)
    (auto simp: history_grows_def dest!: step_history_grows intro: prefix_order.trans)

end
