(* ===== verification/Effects.thy ===== *)
theory Effects
  imports Store
begin

text \<open>
  The effects of the service: one step of \<open>tick\<close> per interaction with the outside (a database
  statement, a clock reading, a fresh UUID, a call to the wallet or the catalogue), whose answer is
  an arbitrary function of the tick. The record \<open>env\<close> collects these functions and the behaviour
  of libraries the sources only call (the text of a database error, the serialisation of JSON, the
  RFC 3339 form of a time). A service function maps a world to its \<open>Result\<close> and the new world.
\<close>

section \<open>Clients\<close>

record hold_funds_request =
  hf_user_id :: string
  hf_role :: "string option"
  hf_hold_id :: string
  hf_auction_id :: string
  hf_bid_id :: string
  hf_amount :: u64
  hf_expires_at :: string

record hold_response =
  hr_id :: string
  hr_status :: string
  hr_amount :: u64

datatype wallet_client_error = InsufficientBalance string | WalletServiceError string | WalletNetworkError string

fun wallet_error_text :: "wallet_client_error \<Rightarrow> string" where
  "wallet_error_text (InsufficientBalance m) = ''Insufficient balance: '' @ m"
| "wallet_error_text (WalletServiceError m) = ''Wallet service error: '' @ m"
| "wallet_error_text (WalletNetworkError m) = ''Network error: '' @ m"

text \<open>The trait \<^verbatim>\<open>WalletClient\<close>: its methods as functions of the tick. The service calls the first three.\<close>

record wallet_client =
  wc_hold_funds :: "nat \<Rightarrow> hold_funds_request \<Rightarrow> wallet_client_error + hold_response"
  wc_release_hold :: "nat \<Rightarrow> string \<Rightarrow> wallet_client_error + unit"
  wc_convert_hold :: "nat \<Rightarrow> string \<Rightarrow> wallet_client_error + unit"
  wc_credit_seller_escrow :: "nat \<Rightarrow> string \<Rightarrow> u64 \<Rightarrow> string \<Rightarrow> wallet_client_error + unit"

record listing_summary =
  ls_id :: string
  ls_seller_id :: string
  ls_status :: string

datatype catalog_client_error = ListingNotFound string | CatalogServiceError string | CatalogNetworkError string

fun catalog_error_text :: "catalog_client_error \<Rightarrow> string" where
  "catalog_error_text (ListingNotFound m) = ''Listing not found: '' @ m"
| "catalog_error_text (CatalogServiceError m) = ''Catalog service error: '' @ m"
| "catalog_error_text (CatalogNetworkError m) = ''Network error: '' @ m"

type_synonym catalog_client = "nat \<Rightarrow> string \<Rightarrow> catalog_client_error + listing_summary"

section \<open>World\<close>

datatype json = JNull | JBool bool | JInt int | JStr string | JObj "(string \<times> json) list"

record env =
  env_sqlite :: bool
  env_db_fault :: "nat \<Rightarrow> string option"
  env_sql_text :: "sql_error \<Rightarrow> string"
  env_clock :: "nat \<Rightarrow> i64"
  env_uuid :: "nat \<Rightarrow> string"
  env_pid :: string
  env_wallet :: "wallet_client option"
  env_catalog :: "catalog_client option"
  env_json_text :: "json \<Rightarrow> string"
  env_json_parse :: "string \<Rightarrow> json option"
  env_rfc3339 :: "i64 \<Rightarrow> string option"
  env_var :: "string \<Rightarrow> string option"

text \<open>The calls the wallet received, with its answers: what happened to the users' money.\<close>

datatype wallet_call =
    HoldCall hold_funds_request "wallet_client_error + hold_response"
  | ReleaseCall string "wallet_client_error + unit"
  | ConvertCall string "wallet_client_error + unit"

record world =
  db :: store
  tick :: nat
  wallet_log :: "wallet_call list"

definition start_world :: world where
  "start_world = \<lparr>db = empty_store, tick = 0, wallet_log = []\<rparr>"

type_synonym ('e, 'a) svc = "world \<Rightarrow> ('e + 'a) \<times> world"

text \<open>
  An environment for concrete runs: no faults, a clock that starts at 1000, numbered identifiers, an
  active listing in the catalogue and a wallet that grants every hold.
\<close>

definition calm_wallet :: wallet_client where
  "calm_wallet = \<lparr>wc_hold_funds = (\<lambda>_ q. Inr \<lparr>hr_id = hf_hold_id q, hr_status = ''HELD'', hr_amount = hf_amount q\<rparr>),
     wc_release_hold = (\<lambda>_ _. Inr ()), wc_convert_hold = (\<lambda>_ _. Inr ()),
     wc_credit_seller_escrow = (\<lambda>_ _ _ _. Inr ())\<rparr>"

definition calm_catalog :: catalog_client where
  "calm_catalog _ i = Inr \<lparr>ls_id = i, ls_seller_id = ''seller'', ls_status = ''ACTIVE''\<rparr>"

definition calm_env :: env where
  "calm_env = \<lparr>env_sqlite = False, env_db_fault = (\<lambda>_. None), env_sql_text = (\<lambda>_. ''sql''),
     env_clock = (\<lambda>n. 1000 + int n), env_uuid = (\<lambda>n. ''id-'' @ nat_to_dec n), env_pid = ''1'',
     env_wallet = Some calm_wallet, env_catalog = Some calm_catalog, env_json_text = (\<lambda>_. ''{}''),
     env_json_parse = (\<lambda>_. None), env_rfc3339 = (\<lambda>_. None), env_var = (\<lambda>_. None)\<rparr>"

section \<open>Combinators\<close>

definition ret :: "'a \<Rightarrow> ('e, 'a) svc" where
  "ret a w = (Inr a, w)"

definition throw :: "'e \<Rightarrow> ('e, 'a) svc" where
  "throw e w = (Inl e, w)"

text \<open>\<open>bindS m f\<close> is \<^verbatim>\<open>let x = m?; f(x)\<close>.\<close>

definition bindS :: "('e, 'a) svc \<Rightarrow> ('a \<Rightarrow> ('e, 'b) svc) \<Rightarrow> ('e, 'b) svc" where
  "bindS m f w = (case m w of (Inl e, w1) \<Rightarrow> (Inl e, w1) | (Inr a, w1) \<Rightarrow> f a w1)"

definition map_err :: "('e \<Rightarrow> 'f) \<Rightarrow> ('e, 'a) svc \<Rightarrow> ('f, 'a) svc" where
  "map_err g m w = (case m w of (Inl e, w1) \<Rightarrow> (Inl (g e), w1) | (Inr a, w1) \<Rightarrow> (Inr a, w1))"

text \<open>\<open>attempt m\<close> runs \<open>m\<close> and returns its \<open>Result\<close> as a value, for a \<open>match\<close> on it.\<close>

definition attempt :: "('e, 'a) svc \<Rightarrow> ('f, 'e + 'a) svc" where
  "attempt m w = (case m w of (r, w1) \<Rightarrow> (Inr r, w1))"

definition ignore_result :: "('e, 'a) svc \<Rightarrow> ('f, unit) svc" where
  "ignore_result m w = (case m w of (_, w1) \<Rightarrow> (Inr (), w1))"

definition of_result :: "('e + 'a) \<Rightarrow> ('e, 'a) svc" where
  "of_result r w = (r, w)"

definition ok_or :: "'e \<Rightarrow> 'a option \<Rightarrow> ('e, 'a) svc" where
  "ok_or e x w = (case x of None \<Rightarrow> (Inl e, w) | Some a \<Rightarrow> (Inr a, w))"

definition whenS :: "bool \<Rightarrow> ('e, unit) svc \<Rightarrow> ('e, unit) svc" where
  "whenS b m = (if b then m else ret ())"

section \<open>Interactions\<close>

definition next_tick :: "world \<Rightarrow> world" where
  "next_tick w = w\<lparr>tick := Suc (tick w)\<rparr>"

definition run_stmt :: "env \<Rightarrow> 'a stmt \<Rightarrow> (string, 'a) svc" where
  "run_stmt env q w =
     (case env_db_fault env (tick w) of
        Some m \<Rightarrow> (Inl (env_sql_text env (DbFault m)), next_tick w)
      | None \<Rightarrow>
          (case q (db w) of
             (Inl e, _) \<Rightarrow> (Inl (env_sql_text env e), next_tick w)
           | (Inr a, s) \<Rightarrow> (Inr a, (next_tick w)\<lparr>db := s\<rparr>)))"

definition run_query :: "env \<Rightarrow> (store \<Rightarrow> 'a) \<Rightarrow> (string, 'a) svc" where
  "run_query env f = run_stmt env (sql_query f)"

definition utc_now :: "env \<Rightarrow> ('e, i64) svc" where
  "utc_now env w = (Inr (env_clock env (tick w)), next_tick w)"

definition new_uuid :: "env \<Rightarrow> ('e, string) svc" where
  "new_uuid env w = (Inr (env_uuid env (tick w)), next_tick w)"

definition log_wallet :: "wallet_call \<Rightarrow> world \<Rightarrow> world" where
  "log_wallet c w = (next_tick w)\<lparr>wallet_log := wallet_log w @ [c]\<rparr>"

definition hold_funds :: "wallet_client \<Rightarrow> hold_funds_request \<Rightarrow> (wallet_client_error, hold_response) svc" where
  "hold_funds c q w = (let r = wc_hold_funds c (tick w) q in (r, log_wallet (HoldCall q r) w))"

definition release_hold :: "wallet_client \<Rightarrow> string \<Rightarrow> (wallet_client_error, unit) svc" where
  "release_hold c i w = (let r = wc_release_hold c (tick w) i in (r, log_wallet (ReleaseCall i r) w))"

definition convert_hold_to_payment :: "wallet_client \<Rightarrow> string \<Rightarrow> (wallet_client_error, unit) svc" where
  "convert_hold_to_payment c i w = (let r = wc_convert_hold c (tick w) i in (r, log_wallet (ConvertCall i r) w))"

definition get_listing_summary :: "catalog_client \<Rightarrow> string \<Rightarrow> (catalog_client_error, listing_summary) svc" where
  "get_listing_summary c i w = (c (tick w) i, next_tick w)"

text \<open>
  A transaction works on its own copy of the tables, which \<open>commit\<close> installs; a handler issues no
  other statement while its transaction is open.
\<close>

definition begin_tx :: "env \<Rightarrow> (string, store) svc" where
  "begin_tx env = run_query env (\<lambda>s. s)"

definition run_tx :: "env \<Rightarrow> 'a stmt \<Rightarrow> store \<Rightarrow> (string, 'a \<times> store) svc" where
  "run_tx env q t w =
     (case env_db_fault env (tick w) of
        Some m \<Rightarrow> (Inl (env_sql_text env (DbFault m)), next_tick w)
      | None \<Rightarrow>
          (case q t of
             (Inl e, _) \<Rightarrow> (Inl (env_sql_text env e), next_tick w)
           | (Inr a, t1) \<Rightarrow> (Inr (a, t1), next_tick w)))"

definition commit_tx :: "env \<Rightarrow> store \<Rightarrow> (string, unit) svc" where
  "commit_tx env t = run_stmt env (\<lambda>s. (Inr (), t))"

definition rollback_tx :: "env \<Rightarrow> (string, unit) svc" where
  "rollback_tx env = run_query env (\<lambda>s. ())"

section \<open>Weakest preconditions\<close>

named_theorems wp_simps \<open>weakest preconditions of the combinators and interactions\<close>

definition wp :: "('e, 'a) svc \<Rightarrow> ('a \<Rightarrow> world \<Rightarrow> bool) \<Rightarrow> ('e \<Rightarrow> world \<Rightarrow> bool) \<Rightarrow> world \<Rightarrow> bool" where
  "wp m Q E w = (case m w of (Inr a, w1) \<Rightarrow> Q a w1 | (Inl e, w1) \<Rightarrow> E e w1)"

lemma wp_ret [wp_simps]: "wp (ret a) Q E = Q a"
  by (simp add: wp_def ret_def fun_eq_iff)

lemma wp_throw [wp_simps]: "wp (throw e) Q E = E e"
  by (simp add: wp_def throw_def fun_eq_iff)

lemma wp_bindS [wp_simps]: "wp (bindS m f) Q E = wp m (\<lambda>a. wp (f a) Q E) E"
  by (auto simp: fun_eq_iff wp_def bindS_def split: prod.split sum.split)

lemma wp_map_err [wp_simps]: "wp (map_err g m) Q E = wp m Q (\<lambda>e. E (g e))"
  by (auto simp: fun_eq_iff wp_def map_err_def split: prod.split sum.split)

lemma wp_attempt [wp_simps]: "wp (attempt m) Q E = wp m (\<lambda>a. Q (Inr a)) (\<lambda>e. Q (Inl e))"
  by (auto simp: fun_eq_iff wp_def attempt_def split: prod.split sum.split)

lemma wp_ignore_result [wp_simps]: "wp (ignore_result m) Q E = wp m (\<lambda>_. Q ()) (\<lambda>_. Q ())"
  by (auto simp: fun_eq_iff wp_def ignore_result_def split: prod.split sum.split)

lemma wp_of_result [wp_simps]: "wp (of_result r) Q E w = (case r of Inr a \<Rightarrow> Q a w | Inl e \<Rightarrow> E e w)"
  by (simp add: wp_def of_result_def)

lemma wp_ok_or [wp_simps]: "wp (ok_or e x) Q E w = (case x of Some a \<Rightarrow> Q a w | None \<Rightarrow> E e w)"
  by (simp add: wp_def ok_or_def split: option.split)

lemma wp_whenS [wp_simps]: "wp (whenS b m) Q E w = (if b then wp m Q E w else Q () w)"
  by (simp add: whenS_def wp_ret)

lemma wp_if [wp_simps]: "wp (if b then m else n) Q E w = (if b then wp m Q E w else wp n Q E w)"
  by simp

lemma wp_case_option [wp_simps]:
  "wp (case x of None \<Rightarrow> m | Some a \<Rightarrow> f a) Q E w = (case x of None \<Rightarrow> wp m Q E w | Some a \<Rightarrow> wp (f a) Q E w)"
  by (simp split: option.split)

lemma wp_case_sum [wp_simps]:
  "wp (case x of Inl e \<Rightarrow> g e | Inr a \<Rightarrow> f a) Q E w = (case x of Inl e \<Rightarrow> wp (g e) Q E w | Inr a \<Rightarrow> wp (f a) Q E w)"
  by (simp split: sum.split)

lemma wp_Let [wp_simps]: "wp (let x = a in f x) Q E w = wp (f a) Q E w"
  by simp

lemma wp_run_stmt [wp_simps]: "wp (run_stmt env q) Q E w =
    (case env_db_fault env (tick w) of
       Some m \<Rightarrow> E (env_sql_text env (DbFault m)) (next_tick w)
     | None \<Rightarrow> (case q (db w) of
          (Inl e, _) \<Rightarrow> E (env_sql_text env e) (next_tick w)
        | (Inr a, s) \<Rightarrow> Q a ((next_tick w)\<lparr>db := s\<rparr>)))"
  by (simp add: wp_def run_stmt_def split: option.split prod.split sum.split)

lemma wp_run_query [wp_simps]: "wp (run_query env f) Q E w =
    (case env_db_fault env (tick w) of
       Some m \<Rightarrow> E (env_sql_text env (DbFault m)) (next_tick w)
     | None \<Rightarrow> Q (f (db w)) (next_tick w))"
  by (simp add: run_query_def wp_run_stmt sql_query_def next_tick_def split: option.split)

lemma wp_run_tx [wp_simps]: "wp (run_tx env q t) Q E w =
    (case env_db_fault env (tick w) of
       Some m \<Rightarrow> E (env_sql_text env (DbFault m)) (next_tick w)
     | None \<Rightarrow> (case q t of
          (Inl e, _) \<Rightarrow> E (env_sql_text env e) (next_tick w)
        | (Inr a, t1) \<Rightarrow> Q (a, t1) (next_tick w)))"
  by (simp add: wp_def run_tx_def split: option.split prod.split sum.split)

lemma wp_begin_tx [wp_simps]: "wp (begin_tx env) Q E w =
    (case env_db_fault env (tick w) of
       Some m \<Rightarrow> E (env_sql_text env (DbFault m)) (next_tick w)
     | None \<Rightarrow> Q (db w) (next_tick w))"
  by (simp add: begin_tx_def wp_run_query)

lemma wp_commit_tx [wp_simps]: "wp (commit_tx env t) Q E w =
    (case env_db_fault env (tick w) of
       Some m \<Rightarrow> E (env_sql_text env (DbFault m)) (next_tick w)
     | None \<Rightarrow> Q () ((next_tick w)\<lparr>db := t\<rparr>))"
  by (simp add: commit_tx_def wp_run_stmt split: option.split)

lemma wp_rollback_tx [wp_simps]: "wp (rollback_tx env) Q E w =
    (case env_db_fault env (tick w) of
       Some m \<Rightarrow> E (env_sql_text env (DbFault m)) (next_tick w)
     | None \<Rightarrow> Q () (next_tick w))"
  by (simp add: rollback_tx_def wp_run_query)

lemma wp_utc_now [wp_simps]: "wp (utc_now env) Q E w = Q (env_clock env (tick w)) (next_tick w)"
  by (simp add: wp_def utc_now_def)

lemma wp_new_uuid [wp_simps]: "wp (new_uuid env) Q E w = Q (env_uuid env (tick w)) (next_tick w)"
  by (simp add: wp_def new_uuid_def)

lemma wp_get_listing_summary [wp_simps]: "wp (get_listing_summary c i) Q E w =
    (case c (tick w) i of Inr a \<Rightarrow> Q a (next_tick w) | Inl e \<Rightarrow> E e (next_tick w))"
  by (simp add: wp_def get_listing_summary_def)

lemma wp_hold_funds [wp_simps]: "wp (hold_funds c q) Q E w =
    (case wc_hold_funds c (tick w) q of
       Inr a \<Rightarrow> Q a (log_wallet (HoldCall q (Inr a)) w) | Inl e \<Rightarrow> E e (log_wallet (HoldCall q (Inl e)) w))"
  by (auto simp: wp_def hold_funds_def Let_def split: sum.split)

lemma wp_release_hold [wp_simps]: "wp (release_hold c i) Q E w =
    (case wc_release_hold c (tick w) i of
       Inr a \<Rightarrow> Q a (log_wallet (ReleaseCall i (Inr a)) w) | Inl e \<Rightarrow> E e (log_wallet (ReleaseCall i (Inl e)) w))"
  by (auto simp: wp_def release_hold_def Let_def split: sum.split)

lemma wp_convert_hold [wp_simps]: "wp (convert_hold_to_payment c i) Q E w =
    (case wc_convert_hold c (tick w) i of
       Inr a \<Rightarrow> Q a (log_wallet (ConvertCall i (Inr a)) w) | Inl e \<Rightarrow> E e (log_wallet (ConvertCall i (Inl e)) w))"
  by (auto simp: wp_def convert_hold_to_payment_def Let_def split: sum.split)

lemma next_tick_simps [simp]: "db (next_tick w) = db w" "wallet_log (next_tick w) = wallet_log w"
    "tick (next_tick w) = Suc (tick w)"
  by (simp_all add: next_tick_def)

lemma log_wallet_simps [simp]: "db (log_wallet c w) = db w" "wallet_log (log_wallet c w) = wallet_log w @ [c]"
    "tick (log_wallet c w) = Suc (tick w)"
  by (simp_all add: log_wallet_def)

lemma wp_mono:
  "wp m Q E w \<Longrightarrow> (\<And>a w. Q a w \<Longrightarrow> Q1 a w) \<Longrightarrow> (\<And>e w. E e w \<Longrightarrow> E1 e w) \<Longrightarrow> wp m Q1 E1 w"
  by (auto simp: wp_def split: prod.splits sum.splits)

lemma wp_InrD: "wp m Q E w \<Longrightarrow> m w = (Inr a, w1) \<Longrightarrow> Q a w1"
  by (simp add: wp_def)

lemma wp_InlD: "wp m Q E w \<Longrightarrow> m w = (Inl e, w1) \<Longrightarrow> E e w1"
  by (simp add: wp_def)

lemma wpI: "(\<And>a w1. m w = (Inr a, w1) \<Longrightarrow> Q a w1) \<Longrightarrow> (\<And>e w1. m w = (Inl e, w1) \<Longrightarrow> E e w1) \<Longrightarrow> wp m Q E w"
  by (auto simp: wp_def split: prod.split sum.split)

lemma wp_conj: "wp m Q E w \<Longrightarrow> wp m Q1 E1 w \<Longrightarrow> wp m (\<lambda>a w. Q a w \<and> Q1 a w) (\<lambda>e w. E e w \<and> E1 e w) w"
  by (auto simp: wp_def split: prod.splits sum.splits)

section \<open>What every run keeps\<close>

text \<open>
  \<open>keeps R m\<close>: a run of \<open>m\<close> relates the tables and the wallet's log before and after by the
  preorder \<open>R\<close>, whatever its result. The rules follow the combinators.
\<close>

definition keeps :: "(world \<Rightarrow> world \<Rightarrow> bool) \<Rightarrow> ('e, 'a) svc \<Rightarrow> bool" where
  "keeps R m \<longleftrightarrow> (\<forall>w. R w (snd (m w)))"

named_theorems keeps_intros \<open>introduction rules for keeps\<close>

lemma wp_True [simp]: "wp m (\<lambda>_ _. True) (\<lambda>_ _. True) = (\<lambda>_. True)"
  by (simp add: fun_eq_iff wp_def split: prod.split sum.split)

lemma wp_final: "wp m (\<lambda>_. K) (\<lambda>_. K) w = K (snd (m w))"
  by (cases "m w"; cases "fst (m w)") (simp_all add: wp_def)

lemma keeps_iff_wp: "keeps R m \<longleftrightarrow> (\<forall>w. wp m (\<lambda>_. R w) (\<lambda>_. R w) w)"
  by (simp add: keeps_def wp_final)

lemma keeps_wp: "keeps R m \<Longrightarrow> (\<And>w1. R w w1 \<Longrightarrow> K w1) \<Longrightarrow> wp m (\<lambda>_. K) (\<lambda>_. K) w"
  by (simp add: keeps_def wp_final)

lemma keeps_if [keeps_intros]: "(b \<Longrightarrow> keeps R m) \<Longrightarrow> (\<not> b \<Longrightarrow> keeps R n) \<Longrightarrow> keeps R (if b then m else n)"
  by simp

lemma keeps_option [keeps_intros]: "keeps R m \<Longrightarrow> (\<And>a. keeps R (f a)) \<Longrightarrow> keeps R (case x of None \<Rightarrow> m | Some a \<Rightarrow> f a)"
  by (simp split: option.split)

lemma keeps_sum [keeps_intros]:
  "(\<And>e. keeps R (g e)) \<Longrightarrow> (\<And>a. keeps R (f a)) \<Longrightarrow> keeps R (case x of Inl e \<Rightarrow> g e | Inr a \<Rightarrow> f a)"
  by (simp split: sum.split)

lemma keeps_prod [keeps_intros]: "(\<And>a b. keeps R (f a b)) \<Longrightarrow> keeps R (case x of (a, b) \<Rightarrow> f a b)"
  by (simp split: prod.split)

lemma keeps_list [keeps_intros]:
  "keeps R m \<Longrightarrow> (\<And>x xs. keeps R (f x xs)) \<Longrightarrow> keeps R (case l of [] \<Rightarrow> m | x # xs \<Rightarrow> f x xs)"
  by (simp split: list.split)

locale run_relation =
  fixes R :: "world \<Rightarrow> world \<Rightarrow> bool"
  assumes R_refl: "R w w"
    and R_trans: "R w1 w2 \<Longrightarrow> R w2 w3 \<Longrightarrow> R w1 w3"
    and R_tick: "R w (next_tick w)"
begin

lemma keeps_ret [keeps_intros]: "keeps R (ret a)"
  and keeps_throw [keeps_intros]: "keeps R (throw e)"
  and keeps_of_result [keeps_intros]: "keeps R (of_result r)"
  by (simp_all add: keeps_def ret_def throw_def of_result_def R_refl)

lemma keeps_ok_or [keeps_intros]: "keeps R (ok_or e x)"
  by (simp add: keeps_def ok_or_def R_refl split: option.split)

lemma wp_keeps: "keeps R m \<Longrightarrow> R w0 w \<Longrightarrow> wp m (\<lambda>_. R w0) (\<lambda>_. R w0) w"
  unfolding keeps_iff_wp by (rule wp_mono [of m "\<lambda>_. R w" "\<lambda>_. R w"]) (auto intro: R_trans)

lemma keeps_bindS [keeps_intros]: "keeps R m \<Longrightarrow> (\<And>a. keeps R (f a)) \<Longrightarrow> keeps R (bindS m f)"
proof -
  assume m: "keeps R m" and f: "\<And>a. keeps R (f a)"
  have "wp m (\<lambda>a. wp (f a) (\<lambda>_. R w) (\<lambda>_. R w)) (\<lambda>_. R w) w" for w
    by (rule wp_mono [OF wp_keeps [OF m R_refl]]) (auto intro: wp_keeps f)
  then show ?thesis by (simp add: keeps_iff_wp wp_bindS)
qed

lemma keeps_map_err [keeps_intros]: "keeps R m \<Longrightarrow> keeps R (map_err g m)"
  by (simp add: keeps_iff_wp wp_map_err)

lemma keeps_attempt [keeps_intros]: "keeps R m \<Longrightarrow> keeps R (attempt m)"
  by (simp add: keeps_iff_wp wp_attempt)

lemma keeps_ignore_result [keeps_intros]: "keeps R m \<Longrightarrow> keeps R (ignore_result m)"
  by (simp add: keeps_iff_wp wp_ignore_result)

lemma keeps_whenS [keeps_intros]: "keeps R m \<Longrightarrow> keeps R (whenS b m)"
  by (simp add: whenS_def keeps_ret)

lemma keeps_run_stmt:
  assumes "\<And>w a s. q (db w) = (Inr a, s) \<Longrightarrow> R w ((next_tick w)\<lparr>db := s\<rparr>)"
  shows "keeps R (run_stmt env q)"
  using assms by (auto simp: keeps_iff_wp wp_run_stmt R_tick split: option.split prod.split sum.split)

lemma keeps_run_query [keeps_intros]: "keeps R (run_query env f)"
  by (simp add: keeps_iff_wp wp_run_query R_tick split: option.split)

lemma keeps_begin_tx [keeps_intros]: "keeps R (begin_tx env)"
  and keeps_rollback_tx [keeps_intros]: "keeps R (rollback_tx env)"
  by (simp_all add: begin_tx_def rollback_tx_def keeps_run_query)

lemma keeps_run_tx [keeps_intros]: "keeps R (run_tx env q t)"
  by (simp add: keeps_iff_wp wp_run_tx R_tick split: option.split prod.split sum.split)

lemma keeps_utc_now [keeps_intros]: "keeps R (utc_now env)"
  and keeps_new_uuid [keeps_intros]: "keeps R (new_uuid env)"
  and keeps_get_listing_summary [keeps_intros]: "keeps R (get_listing_summary c i)"
  by (simp_all add: keeps_def utc_now_def new_uuid_def get_listing_summary_def R_tick)

end

text \<open>A relation that also allows calls to the wallet.\<close>

locale wallet_relation = run_relation +
  assumes R_wallet: "R w (log_wallet c w)"
begin

lemma keeps_hold_funds [keeps_intros]: "keeps R (hold_funds c q)"
  and keeps_release_hold [keeps_intros]: "keeps R (release_hold c i)"
  and keeps_convert_hold [keeps_intros]: "keeps R (convert_hold_to_payment c i)"
  by (simp_all add: keeps_def hold_funds_def release_hold_def convert_hold_to_payment_def Let_def R_wallet)

end

section \<open>Reading only\<close>

text \<open>The tables and the wallet's log are as they were.\<close>

definition unchanged :: "world \<Rightarrow> world \<Rightarrow> bool" where
  "unchanged w w1 \<longleftrightarrow> db w1 = db w \<and> wallet_log w1 = wallet_log w"

interpretation unchanged: run_relation unchanged
  by unfold_locales (auto simp: unchanged_def)

text \<open>An invariant as a relation: a call keeps it.\<close>

definition kept_by :: "(world \<Rightarrow> bool) \<Rightarrow> world \<Rightarrow> world \<Rightarrow> bool" where
  "kept_by I w w1 \<longleftrightarrow> (I w \<longrightarrow> I w1)"

end
