(* ===== verification/AuctionTypes.thy ===== *)
theory AuctionTypes
  imports Config Session
begin

text \<open>
  \<^verbatim>\<open>service/auction_types.rs\<close>: the create command and its validation, the bid cursor and its text,
  the conversions towards the wallet, and the error types of the use cases;
  \<^verbatim>\<open>service/auction_strategy.rs\<close>: auction types, strategies and workflows.
\<close>

section \<open>Errors\<close>

datatype create_auction_error = CreateInvalidInput string | CreateDatabaseError string
datatype get_session_error = GetDatabaseError string
datatype list_sessions_error = ListSessionsDatabaseError string
datatype list_pending_closure_error = ListPendingDatabaseError string
datatype close_session_error =
  CloseAuctionNotFound | CloseAuctionNotEnded | CloseWalletError string | CloseDatabaseError string
datatype list_bids_error = ListBidsInvalidInput string | ListBidsDatabaseError string
datatype place_bid_error =
  PlaceAuctionNotFound | PlaceBidError bid_error | PlaceCatalogError string | PlaceWalletError string
  | PlaceDatabaseError string

fun close_session_error_text :: "close_session_error \<Rightarrow> string" where
  "close_session_error_text CloseAuctionNotFound = ''ListingAuctionSession not found''"
| "close_session_error_text CloseAuctionNotEnded = ''ListingAuctionSession has not reached its end time''"
| "close_session_error_text (CloseWalletError m) = ''Wallet error: '' @ m"
| "close_session_error_text (CloseDatabaseError m) = ''Database error: '' @ m"

section \<open>Create command\<close>

definition CREATE_AUCTION_START_TIME_CLOCK_SKEW_SECONDS :: i64 where
  "CREATE_AUCTION_START_TIME_CLOCK_SKEW_SECONDS = 120"

record create_auction_command =
  cc_listing_id :: string
  cc_seller_id :: string
  cc_auction_type :: string
  cc_starting_price_cents :: i64
  cc_reserve_price_cents :: i64
  cc_minimum_increment_cents :: i64
  cc_start_time :: i64
  cc_end_time :: i64

definition validate_command :: "create_auction_command \<Rightarrow> i64 \<Rightarrow> create_auction_error + unit" where
  "validate_command c now =
     (if is_blank (cc_listing_id c) then Inl (CreateInvalidInput ''listing_id is required'')
      else if is_blank (cc_seller_id c) then Inl (CreateInvalidInput ''seller_id is required'')
      else if is_blank (cc_auction_type c) then Inl (CreateInvalidInput ''auction_type is required'')
      else if cc_starting_price_cents c \<le> 0
        then Inl (CreateInvalidInput ''starting_price_cents must be greater than zero'')
      else if cc_minimum_increment_cents c \<le> 0
        then Inl (CreateInvalidInput ''minimum_increment_cents must be greater than zero'')
      else if cc_reserve_price_cents c < cc_starting_price_cents c
        then Inl (CreateInvalidInput
          ''reserve_price_cents must be greater than or equal to starting_price_cents'')
      else if cc_end_time c \<le> cc_start_time c
        then Inl (CreateInvalidInput ''end_time must be after start_time'')
      else if i64_add (cc_start_time c) CREATE_AUCTION_START_TIME_CLOCK_SKEW_SECONDS < now
        then Inl (CreateInvalidInput ''start_time must be greater than or equal to current time'')
      else if cc_end_time c \<le> now
        then Inl (CreateInvalidInput ''end_time must be in the future'')
      else Inr ())"

definition initial_status :: "i64 \<Rightarrow> i64 \<Rightarrow> string" where
  "initial_status start_time now = (if now < start_time then ''DRAFT'' else ''ACTIVE'')"

definition is_catalog_listing_biddable :: "string \<Rightarrow> bool" where
  "is_catalog_listing_biddable st \<longleftrightarrow>
     eq_ignore_ascii_case st ''ACTIVE'' \<or> eq_ignore_ascii_case st ''EXTENDED''"

section \<open>Towards the wallet\<close>

definition hold_expiration_rfc3339 :: "env \<Rightarrow> i64 \<Rightarrow> string" where
  "hold_expiration_rfc3339 env end_time =
     (case env_rfc3339 env (i64_saturating_add end_time (bid_hold_grace_seconds env)) of
        Some t \<Rightarrow> t
      | None \<Rightarrow> ''2099-12-31T23:59:59Z'')"

definition cents_to_rupiah :: "i64 \<Rightarrow> u64" where
  "cents_to_rupiah amount = (if amount \<le> 0 then 0 else u64_div_ceil (u64_of_i64 amount) 100)"

section \<open>Bid cursor\<close>

record bid_cursor =
  cur_amount_cents :: i64
  cur_bid_time :: i64
  cur_id :: string

definition parse_bid_cursor :: "string \<Rightarrow> string + bid_cursor" where
  "parse_bid_cursor v =
     (case splitn 3 CHR '':'' v of
        [] \<Rightarrow> Inl ''invalid cursor format''
      | a # rest1 \<Rightarrow>
        (case parse_i64 a of
           None \<Rightarrow> Inl ''invalid cursor amount''
         | Some amount \<Rightarrow>
           (case rest1 of
              [] \<Rightarrow> Inl ''invalid cursor format''
            | t # rest2 \<Rightarrow>
              (case parse_i64 t of
                 None \<Rightarrow> Inl ''invalid cursor bid time''
               | Some time \<Rightarrow>
                 (case rest2 of
                    [] \<Rightarrow> Inl ''invalid cursor format''
                  | i # _ \<Rightarrow>
                      if is_blank i then Inl ''invalid cursor id''
                      else Inr \<lparr>cur_amount_cents = amount, cur_bid_time = time, cur_id = i\<rparr>)))))"

definition bid_cursor_from_bid :: "bid_record \<Rightarrow> bid_cursor" where
  "bid_cursor_from_bid b =
     \<lparr>cur_amount_cents = br_bid_amount_cents b, cur_bid_time = br_bid_time b, cur_id = br_id b\<rparr>"

definition bid_cursor_to_string :: "bid_cursor \<Rightarrow> string" where
  "bid_cursor_to_string c =
     i64_to_string (cur_amount_cents c) @ '':'' @ i64_to_string (cur_bid_time c) @ '':'' @ cur_id c"

record bid_cursor_page =
  page_items :: "bid_record list"
  page_next_cursor :: "string option"
  page_size :: i64

datatype bid_placement_mode = Standard i64 | Proxy i64

section \<open>Auction types and strategies\<close>

datatype auction_type = English | Scholarship | MultiSlotRegional | Enterprise

definition auction_type_from_input :: "string option \<Rightarrow> string + auction_type" where
  "auction_type_from_input v =
     (let normalized = to_ascii_uppercase (trim (case v of None \<Rightarrow> ''ENGLISH'' | Some s \<Rightarrow> s)) in
      if normalized = ''ENGLISH'' then Inr English
      else if normalized = ''SCHOLARSHIP'' then Inr Scholarship
      else if normalized = ''MULTI_SLOT'' \<or> normalized = ''MULTI_SLOT_REGIONAL'' then Inr MultiSlotRegional
      else if normalized = ''ENTERPRISE'' then Inr Enterprise
      else Inl (''Unsupported auction type: '' @ normalized @
        ''. Supported types are ENGLISH, SCHOLARSHIP, MULTI_SLOT_REGIONAL, ENTERPRISE''))"

fun as_storage_value :: "auction_type \<Rightarrow> string" where
  "as_storage_value English = ''ENGLISH''"
| "as_storage_value Scholarship = ''SCHOLARSHIP''"
| "as_storage_value MultiSlotRegional = ''MULTI_SLOT_REGIONAL''"
| "as_storage_value Enterprise = ''ENTERPRISE''"

text \<open>A strategy is its one method, \<^verbatim>\<open>validate_create_request\<close>.\<close>

type_synonym auction_strategy = "create_auction_error + unit"

definition english_strategy :: auction_strategy where
  "english_strategy = Inr ()"

definition unsupported_strategy :: "auction_type \<Rightarrow> auction_strategy" where
  "unsupported_strategy t = Inl (CreateInvalidInput
     (''Auction type '' @ as_storage_value t @ '' is recognized but not enabled yet''))"

type_synonym strategy_registry = "auction_type \<rightharpoonup> auction_strategy"

definition register :: "auction_type \<Rightarrow> auction_strategy \<Rightarrow> strategy_registry \<Rightarrow> strategy_registry" where
  "register t f r = r(t \<mapsto> f)"

definition default_registry :: strategy_registry where
  "default_registry = register Enterprise (unsupported_strategy Enterprise)
     (register MultiSlotRegional (unsupported_strategy MultiSlotRegional)
     (register Scholarship (unsupported_strategy Scholarship)
     (register English english_strategy Map.empty)))"

definition registry_resolve :: "strategy_registry \<Rightarrow> auction_type \<Rightarrow> auction_strategy" where
  "registry_resolve r t = (case r t of None \<Rightarrow> unsupported_strategy English | Some f \<Rightarrow> f)"

definition resolve_strategy :: "auction_type \<Rightarrow> auction_strategy" where
  "resolve_strategy t = registry_resolve default_registry t"

fun workflow_create :: "auction_type \<Rightarrow> create_auction_error + unit" where
  "workflow_create English = Inr ()"
| "workflow_create t = Inl (CreateInvalidInput
     (''Auction type '' @ as_storage_value t @ '' is recognized but not enabled yet''))"

end
