(* ===== verification/Policies.thy ===== *)
theory Policies
  imports AuctionTypes
begin

text \<open>
  \<^verbatim>\<open>service/bid_policies.rs\<close> and \<^verbatim>\<open>service/bid_validation_chain.rs\<close>: the checks a bid passes on the
  stored rows before the domain object sees it, and the chain that runs them in order.
\<close>

fun map_status :: "string \<Rightarrow> session_status" where
  "map_status st =
     (if st = ''DRAFT'' \<or> st = ''SCHEDULED'' then Draft
      else if st = ''ACTIVE'' then Active
      else if st = ''EXTENDED'' then Extended
      else if st = ''CLOSED'' \<or> st = ''ENDED'' then Closed
      else if st = ''WON'' then Won
      else if st = ''UNSOLD'' then Unsold
      else if st = ''CANCELLED'' then Cancelled
      else Draft)"

declare map_status.simps [simp del]

definition time_bid_policy :: "listing_record \<Rightarrow> i64 \<Rightarrow> bid_error + unit" where
  "time_bid_policy auction bid_time =
     (let st = map_status (lr_status auction) in
      if st \<noteq> Active \<and> st \<noteq> Extended then Inl (AuctionNotActive st)
      else if bid_time < lr_start_time auction
        then Inl (AuctionNotStarted (UnixSeconds (u64_of_i64 (lr_start_time auction))))
      else if lr_end_time auction \<le> bid_time
        then Inl (AuctionEnded (UnixSeconds (u64_of_i64 (lr_end_time auction))))
      else Inr ())"

definition identity_bid_policy :: "listing_record \<Rightarrow> string \<Rightarrow> bid_record option \<Rightarrow> bid_error + unit" where
  "identity_bid_policy auction bidder winning =
     (if bidder = lr_seller_id auction then Inl (SelfBiddingNotAllowed (UserId bidder))
      else if (case winning of None \<Rightarrow> False | Some b \<Rightarrow> br_bidder_id b = bidder)
        then Inl (SelfBiddingNotAllowed (UserId bidder))
      else Inr ())"

definition amount_bid_policy :: "listing_record \<Rightarrow> i64 \<Rightarrow> bid_record option \<Rightarrow> bid_error + unit" where
  "amount_bid_policy auction amount winning =
     (let minimum = (case winning of
          Some b \<Rightarrow> i64_add (br_bid_amount_cents b) (lr_minimum_increment_cents auction)
        | None \<Rightarrow> lr_starting_price_cents auction)
      in if amount < minimum then Inl (BidTooLow (Money (u64_of_i64 minimum))) else Inr ())"

definition wallet_bid_policy :: "i64 \<Rightarrow> bid_error + unit" where
  "wallet_bid_policy accepted = (if accepted \<le> 0 then Inl (BidTooLow (Money 1)) else Inr ())"

record bid_validation_context =
  ctx_auction :: listing_record
  ctx_bidder_id :: string
  ctx_bid_time :: i64
  ctx_amount_cents :: i64
  ctx_winning_bid :: "bid_record option"

type_synonym bid_validation_link = "bid_validation_context \<Rightarrow> bid_error + unit"

definition time_validation_link :: bid_validation_link where
  "time_validation_link c = time_bid_policy (ctx_auction c) (ctx_bid_time c)"

definition identity_validation_link :: bid_validation_link where
  "identity_validation_link c = identity_bid_policy (ctx_auction c) (ctx_bidder_id c) (ctx_winning_bid c)"

definition amount_validation_link :: bid_validation_link where
  "amount_validation_link c = amount_bid_policy (ctx_auction c) (ctx_amount_cents c) (ctx_winning_bid c)"

definition wallet_amount_validation_link :: bid_validation_link where
  "wallet_amount_validation_link c = wallet_bid_policy (ctx_amount_cents c)"

definition standard_bid_chain :: "bid_validation_link list" where
  "standard_bid_chain = [time_validation_link, identity_validation_link, amount_validation_link,
     wallet_amount_validation_link]"

fun chain_validate :: "bid_validation_link list \<Rightarrow> bid_validation_context \<Rightarrow> bid_error + unit" where
  "chain_validate [] c = Inr ()"
| "chain_validate (l # ls) c = (case l c of Inl e \<Rightarrow> Inl e | Inr _ \<Rightarrow> chain_validate ls c)"

section \<open>Rows and the domain object\<close>

text \<open>
  \<^verbatim>\<open>record_to_domain_with_bid\<close> of \<^verbatim>\<open>service/auction_core.rs\<close>, given the winning bid it reads:
  the session a listing row stands for. The match on the status text is written again there.
\<close>

definition core_status :: "string \<Rightarrow> session_status" where
  "core_status st =
     (if st = ''DRAFT'' \<or> st = ''SCHEDULED'' then Draft
      else if st = ''ACTIVE'' then Active
      else if st = ''EXTENDED'' then Extended
      else if st = ''CLOSED'' \<or> st = ''ENDED'' then Closed
      else if st = ''WON'' then Won
      else if st = ''UNSOLD'' then Unsold
      else if st = ''CANCELLED'' then Cancelled
      else Draft)"

definition bid_of_record :: "bid_record \<Rightarrow> bid" where
  "bid_of_record b = \<lparr>bid_bidder = UserId (br_bidder_id b),
     bid_amount = Money (u64_of_i64 (br_bid_amount_cents b)),
     bid_placed_at = UnixSeconds (u64_of_i64 (br_bid_time b))\<rparr>"

definition session_of_record :: "listing_record \<Rightarrow> bid_record option \<Rightarrow> listing_auction_session" where
  "session_of_record r winning =
     with_status (lr_id r) (lr_listing_id r) (lr_seller_id r)
       (Money (u64_of_i64 (lr_starting_price_cents r)))
       (Money (u64_of_i64 (lr_minimum_increment_cents r)))
       (Money (u64_of_i64 (lr_reserve_price_cents r)))
       (UnixSeconds (u64_of_i64 (lr_start_time r)))
       (UnixSeconds (u64_of_i64 (lr_end_time r)))
       (core_status (lr_status r)) (map_option bid_of_record winning)"

fun status_to_string :: "session_status \<Rightarrow> string" where
  "status_to_string Draft = ''DRAFT''"
| "status_to_string Active = ''ACTIVE''"
| "status_to_string Extended = ''EXTENDED''"
| "status_to_string Closed = ''CLOSED''"
| "status_to_string Won = ''WON''"
| "status_to_string Unsold = ''UNSOLD''"
| "status_to_string Cancelled = ''CANCELLED''"

end
