(* ===== verification/Events.thy ===== *)
theory Events
  imports Policies
begin

text \<open>
  \<^verbatim>\<open>service/auction_event_publisher.rs\<close>: the domain events the use cases put into the outbox. The
  payload is the JSON value of the \<^verbatim>\<open>json!\<close> macro; its text is the environment's.
\<close>

definition new_outbox_event :: "string \<Rightarrow> string \<Rightarrow> string \<Rightarrow> string \<Rightarrow> i64 \<Rightarrow> outbox_event_record" where
  "new_outbox_event i aggregate event_type payload now =
     \<lparr>oe_id = i, oe_aggregate_id = aggregate, oe_event_type = event_type, oe_payload = payload,
      oe_published = False, oe_published_at = None, oe_created_at = now, oe_updated_at = now\<rparr>"

definition bid_placed_payload :: "listing_record \<Rightarrow> bid_record \<Rightarrow> i64 \<Rightarrow> json" where
  "bid_placed_payload a b now = JObj
     [(''auctionId'', JStr (lr_id a)), (''listingId'', JStr (lr_listing_id a)), (''sellerId'', JStr (lr_seller_id a)),
      (''bidId'', JStr (br_id b)), (''bidderId'', JStr (br_bidder_id b)),
      (''amountCents'', JInt (br_bid_amount_cents b)), (''currentPrice'', JInt (br_bid_amount_cents b)),
      (''status'', JStr (lr_status a)), (''endTime'', JInt (lr_end_time a)),
      (''bidTime'', JInt (br_bid_time b)), (''placedAt'', JInt now)]"

definition publish_bid_placed_event :: "env \<Rightarrow> listing_record \<Rightarrow> bid_record \<Rightarrow> (string, unit) svc" where
  "publish_bid_placed_event env a b =
     bindS (utc_now env) (\<lambda>now.
     bindS (new_uuid env) (\<lambda>i.
     bindS (run_stmt env (outbox_insert (new_outbox_event i (lr_id a) ''BidPlaced''
        (env_json_text env (bid_placed_payload a b now)) now))) (\<lambda>_.
     ret ())))"

definition outbid_payload :: "listing_record \<Rightarrow> bid_record \<Rightarrow> i64 \<Rightarrow> i64 \<Rightarrow> json" where
  "outbid_payload a previous amount now = JObj
     [(''auctionId'', JStr (lr_id a)), (''listingId'', JStr (lr_listing_id a)), (''sellerId'', JStr (lr_seller_id a)),
      (''previousBidderId'', JStr (br_bidder_id previous)), (''amountCents'', JInt amount),
      (''currentPrice'', JInt amount), (''outbidAt'', JInt now)]"

definition publish_outbid_event :: "env \<Rightarrow> listing_record \<Rightarrow> bid_record \<Rightarrow> i64 \<Rightarrow> (string, unit) svc" where
  "publish_outbid_event env a previous amount =
     bindS (utc_now env) (\<lambda>now.
     bindS (new_uuid env) (\<lambda>i.
     bindS (run_stmt env (outbox_insert (new_outbox_event i (lr_id a) ''Outbid''
        (env_json_text env (outbid_payload a previous amount now)) now))) (\<lambda>_.
     ret ())))"

definition auction_created_payload :: "listing_record \<Rightarrow> i64 \<Rightarrow> json" where
  "auction_created_payload a now = JObj
     [(''auctionId'', JStr (lr_id a)), (''listingId'', JStr (lr_listing_id a)), (''sellerId'', JStr (lr_seller_id a)),
      (''startingPrice'', JInt (lr_starting_price_cents a)), (''reservePrice'', JInt (lr_reserve_price_cents a)),
      (''minimumIncrement'', JInt (lr_minimum_increment_cents a)), (''status'', JStr (lr_status a)),
      (''startTime'', JInt (lr_start_time a)), (''endTime'', JInt (lr_end_time a)), (''createdAt'', JInt now)]"

definition publish_auction_created_event :: "env \<Rightarrow> listing_record \<Rightarrow> (string, unit) svc" where
  "publish_auction_created_event env a =
     bindS (utc_now env) (\<lambda>now.
     bindS (new_uuid env) (\<lambda>i.
     bindS (run_stmt env (outbox_insert (new_outbox_event i (lr_id a) ''AuctionCreated''
        (env_json_text env (auction_created_payload a now)) now))) (\<lambda>_.
     ret ())))"

definition auction_ended_payload :: "listing_record \<Rightarrow> bid_record option \<Rightarrow> i64 \<Rightarrow> json" where
  "auction_ended_payload a winning now =
     (if lr_status a = ''WON'' then JObj
        [(''auctionId'', JStr (lr_id a)), (''listingId'', JStr (lr_listing_id a)), (''sellerId'', JStr (lr_seller_id a)),
         (''status'', JStr (lr_status a)), (''reserveMet'', JBool True),
         (''winnerId'', case winning of None \<Rightarrow> JNull | Some b \<Rightarrow> JStr (br_bidder_id b)),
         (''finalPrice'', case winning of None \<Rightarrow> JNull | Some b \<Rightarrow> JInt (br_bid_amount_cents b)),
         (''endedAt'', JInt now)]
      else JObj
        [(''auctionId'', JStr (lr_id a)), (''listingId'', JStr (lr_listing_id a)), (''sellerId'', JStr (lr_seller_id a)),
         (''status'', JStr (lr_status a)), (''reserveMet'', JBool False), (''endedAt'', JInt now)])"

definition publish_auction_ended_event_with_tx :: "env \<Rightarrow> listing_record \<Rightarrow> bid_record option \<Rightarrow> store
    \<Rightarrow> (string, unit \<times> store) svc" where
  "publish_auction_ended_event_with_tx env a winning tx =
     bindS (utc_now env) (\<lambda>now.
     bindS (new_uuid env) (\<lambda>i.
     bindS (run_tx env (outbox_insert (new_outbox_event i (lr_id a) ''AuctionEnded''
        (env_json_text env (auction_ended_payload a winning now)) now)) tx) (\<lambda>r.
     ret ((), snd r))))"

end
