(* ===== verification/BidService.thy ===== *)
theory BidService
  imports Events
begin

text \<open>
  Placing bids and proxy bids: \<^verbatim>\<open>place_bid_internal\<close> and \<^verbatim>\<open>resolve_proxy_auto_bid\<close> of
  \<^verbatim>\<open>service/auction_core.rs\<close>, statement by statement. Each handler runs while it holds the
  auction's lock, so a call is one sequence of steps here; the stages of the two long methods are
  definitions of their own.
\<close>

abbreviation db_err :: "(string, 'a) svc \<Rightarrow> (place_bid_error, 'a) svc" where
  "db_err m \<equiv> map_err PlaceDatabaseError m"

section \<open>Before the bid\<close>

definition require_active_listing :: "env \<Rightarrow> string \<Rightarrow> (string, listing_summary) svc" where
  "require_active_listing env listing_id =
     bindS (ok_or ''Catalogue service is not configured'' (env_catalog env)) (\<lambda>catalog.
     bindS (map_err catalog_error_text (get_listing_summary catalog listing_id)) (\<lambda>listing.
     if \<not> is_catalog_listing_biddable (ls_status listing) then throw ''Listing is not active''
     else ret listing))"

definition validate_listing_for_bid :: "env \<Rightarrow> string \<Rightarrow> (place_bid_error, unit) svc" where
  "validate_listing_for_bid env listing_id =
     bindS (map_err PlaceCatalogError (require_active_listing env listing_id)) (\<lambda>_. ret ())"

definition resolve_record :: "env \<Rightarrow> string \<Rightarrow> (place_bid_error, listing_record) svc" where
  "resolve_record env auction_id =
     bindS (db_err (run_query env (find_by_id auction_id))) (\<lambda>by_id.
     bindS (db_err (run_query env (find_by_listing_id auction_id))) (\<lambda>by_listing.
     ok_or PlaceAuctionNotFound (case by_id of Some r \<Rightarrow> Some r | None \<Rightarrow> by_listing)))"

definition existing_standard_bid :: "env \<Rightarrow> string \<Rightarrow> string \<Rightarrow> i64 \<Rightarrow> bid_placement_mode
    \<Rightarrow> (place_bid_error, bid_record option) svc" where
  "existing_standard_bid env auction bidder bid_time mode =
     (case mode of
        Standard amount \<Rightarrow> db_err (run_query env (find_matching_bid auction bidder amount bid_time))
      | Proxy _ \<Rightarrow> ret None)"

definition precheck_bid :: "listing_record \<Rightarrow> string \<Rightarrow> i64 \<Rightarrow> bid_placement_mode \<Rightarrow> bid_record option
    \<Rightarrow> bid_error + unit" where
  "precheck_bid auction bidder bid_time mode winning =
     (case mode of
        Standard amount \<Rightarrow> chain_validate standard_bid_chain
          \<lparr>ctx_auction = auction, ctx_bidder_id = bidder, ctx_bid_time = bid_time,
           ctx_amount_cents = amount, ctx_winning_bid = winning\<rparr>
      | Proxy _ \<Rightarrow> time_bid_policy auction bid_time)"

fun is_proxy :: "bid_placement_mode \<Rightarrow> bool" where
  "is_proxy (Standard a) \<longleftrightarrow> False"
| "is_proxy (Proxy m) \<longleftrightarrow> True"

text \<open>A proxy bid of the bidder who leads already: only the stored maximum changes.\<close>

definition leading_proxy :: "string \<Rightarrow> bid_placement_mode \<Rightarrow> bid_record option \<Rightarrow> (i64 \<times> bid_record) option" where
  "leading_proxy bidder mode winning =
     (case (mode, winning) of
        (Proxy m, Some b) \<Rightarrow> if br_bidder_id b = bidder then Some (m, b) else None
      | _ \<Rightarrow> None)"

definition raise_own_maximum :: "env \<Rightarrow> string \<Rightarrow> listing_record \<Rightarrow> string \<Rightarrow> i64 \<Rightarrow> i64 \<Rightarrow> bid_record
    \<Rightarrow> (place_bid_error, bid_record) svc" where
  "raise_own_maximum env canonical auction bidder max_amount bid_time current =
     (if bidder = lr_seller_id auction then throw (PlaceBidError (SelfBiddingNotAllowed (UserId bidder)))
      else if max_amount < br_bid_amount_cents current
        then throw (PlaceBidError (BidTooLow (Money (u64_of_i64 (br_bid_amount_cents current)))))
      else
        bindS (map_err PlaceBidError (of_result (wallet_bid_policy max_amount))) (\<lambda>_.
        bindS (db_err (run_stmt env (upsert_max canonical bidder max_amount bid_time))) (\<lambda>_.
        ret current)))"

definition record_to_domain_with_bid :: "env \<Rightarrow> listing_record \<Rightarrow> (string, listing_auction_session) svc" where
  "record_to_domain_with_bid env r =
     bindS (run_query env (find_winning_bid (lr_id r))) (\<lambda>winning.
     ret (session_of_record r winning))"

definition domain_bid :: "listing_auction_session \<Rightarrow> string \<Rightarrow> i64 \<Rightarrow> bid_placement_mode
    \<Rightarrow> bid_error + (bid_accepted \<times> session_status)" where
  "domain_bid auction bidder bid_time mode =
     (case (case mode of
              Standard amount \<Rightarrow> place_bid auction (UserId bidder) (Money (u64_of_i64 amount))
                (UnixSeconds (u64_of_i64 bid_time))
            | Proxy max_amount \<Rightarrow> place_proxy_bid auction (UserId bidder) (Money (u64_of_i64 max_amount))
                (UnixSeconds (u64_of_i64 bid_time))) of
        (Inl e, _) \<Rightarrow> Inl e
      | (Inr acc, auction1) \<Rightarrow> Inr (acc, las_status auction1))"

section \<open>Money on hold\<close>

definition release_previous_hold :: "env \<Rightarrow> string \<Rightarrow> bid_record option \<Rightarrow> (place_bid_error, unit) svc" where
  "release_previous_hold env bidder previous =
     (case previous of
        None \<Rightarrow> ret ()
      | Some b \<Rightarrow>
          if br_bidder_id b = bidder then ret ()
          else (case env_wallet env of
                  None \<Rightarrow> ret ()
                | Some wallet \<Rightarrow>
                    (case br_wallet_hold_id b of
                       None \<Rightarrow> ret ()
                     | Some hold \<Rightarrow>
                         map_err (\<lambda>e. PlaceWalletError (wallet_error_text e)) (release_hold wallet hold))))"

definition hold_for_bid :: "env \<Rightarrow> string \<Rightarrow> string \<Rightarrow> string \<Rightarrow> i64 \<Rightarrow> i64 \<Rightarrow> (place_bid_error, string option) svc" where
  "hold_for_bid env bidder auction bid_id amount end_time =
     (case env_wallet env of
        None \<Rightarrow> ret None
      | Some wallet \<Rightarrow>
          bindS (new_uuid env) (\<lambda>hold_id.
          bindS (map_err (\<lambda>e. PlaceWalletError (wallet_error_text e)) (hold_funds wallet
            \<lparr>hf_user_id = bidder, hf_role = Some ''BUYER'', hf_hold_id = hold_id, hf_auction_id = auction,
             hf_bid_id = bid_id, hf_amount = cents_to_rupiah amount,
             hf_expires_at = hold_expiration_rfc3339 env end_time\<rparr>)) (\<lambda>response.
          ret (Some (hr_id response)))))"

text \<open>\<^verbatim>\<open>let _ = wallet_client.release_hold(hold_id)\<close> on the error paths.\<close>

definition release_quietly :: "env \<Rightarrow> string option \<Rightarrow> (place_bid_error, unit) svc" where
  "release_quietly env hold =
     (case (env_wallet env, hold) of
        (Some wallet, Some i) \<Rightarrow> ignore_result (release_hold wallet i)
      | _ \<Rightarrow> ret ())"

definition insert_bid_or_release :: "env \<Rightarrow> new_bid_record \<Rightarrow> string option \<Rightarrow> (place_bid_error, bid_record) svc" where
  "insert_bid_or_release env b hold =
     bindS (attempt (run_stmt env (insert_with_wallet_hold b hold))) (\<lambda>r.
     case r of
       Inr inserted \<Rightarrow> ret inserted
     | Inl e \<Rightarrow> bindS (release_quietly env hold) (\<lambda>_. throw (PlaceDatabaseError e)))"

definition notify_outbid :: "env \<Rightarrow> listing_record \<Rightarrow> string \<Rightarrow> bid_record option \<Rightarrow> i64 \<Rightarrow> (place_bid_error, unit) svc" where
  "notify_outbid env auction bidder previous amount =
     (case previous of
        None \<Rightarrow> ret ()
      | Some b \<Rightarrow> if br_bidder_id b = bidder then ret ()
                  else db_err (publish_outbid_event env auction b amount))"

section \<open>Automatic proxy bids\<close>

definition max_opt :: "i64 list \<Rightarrow> i64 option" where
  "max_opt xs = (case xs of [] \<Rightarrow> None | y # ys \<Rightarrow> Some (fold max ys y))"

definition competitor_cap :: "proxy_bid_record list \<Rightarrow> proxy_bid_record \<Rightarrow> bid_record \<Rightarrow> i64" where
  "competitor_cap rows top_proxy current =
     (case max_opt (map pr_max_bid_amount_cents (filter (\<lambda>p. pr_bidder_id p \<noteq> pr_bidder_id top_proxy) rows)) of
        Some m \<Rightarrow> m
      | None \<Rightarrow> br_bid_amount_cents current)"

definition auto_bid_target :: "proxy_bid_record list \<Rightarrow> proxy_bid_record \<Rightarrow> bid_record \<Rightarrow> i64 \<Rightarrow> i64" where
  "auto_bid_target rows top_proxy current increment =
     min (pr_max_bid_amount_cents top_proxy) (i64_add (competitor_cap rows top_proxy current) increment)"

definition own_raise_schedule :: "listing_record \<Rightarrow> i64 \<Rightarrow> string \<times> i64" where
  "own_raise_schedule listing auto_bid_time =
     (let end_time = (if i64_saturating_sub (lr_end_time listing) auto_bid_time \<le> 120
                      then i64_saturating_add auto_bid_time 120 else lr_end_time listing)
      in (if lr_end_time listing < end_time then ''EXTENDED'' else lr_status listing, end_time))"

definition auto_bid_schedule :: "env \<Rightarrow> listing_record \<Rightarrow> proxy_bid_record \<Rightarrow> bid_record \<Rightarrow> i64 \<Rightarrow> i64
    \<Rightarrow> (place_bid_error, string \<times> i64) svc" where
  "auto_bid_schedule env listing top_proxy current target auto_bid_time =
     (if pr_bidder_id top_proxy = br_bidder_id current then ret (own_raise_schedule listing auto_bid_time)
      else
        bindS (db_err (record_to_domain_with_bid env listing)) (\<lambda>auction.
        bindS (map_err PlaceBidError (of_result
          (domain_bid auction (pr_bidder_id top_proxy) auto_bid_time (Standard target)))) (\<lambda>r.
        ret (status_to_string (snd r), i64_of_u64 (seconds (new_end_at (fst r)))))))"

definition store_auto_bid :: "env \<Rightarrow> string \<Rightarrow> string \<Rightarrow> proxy_bid_record \<Rightarrow> bid_record \<Rightarrow> i64 \<Rightarrow> i64
    \<Rightarrow> string option \<Rightarrow> (place_bid_error, bid_record option) svc" where
  "store_auto_bid env auction bid_id top_proxy current target auto_bid_time hold =
     (if pr_bidder_id top_proxy = br_bidder_id current then
        bindS (db_err (run_stmt env (raise_own_bid (br_id current) target auto_bid_time hold))) (\<lambda>updated.
        case updated of
          Some b \<Rightarrow> ret (Some b)
        | None \<Rightarrow> bindS (release_quietly env hold) (\<lambda>_. ret None))
      else
        bindS (insert_bid_or_release env
          \<lparr>nb_id = bid_id, nb_auction_id = auction, nb_bidder_id = pr_bidder_id top_proxy,
           nb_bid_amount_cents = target, nb_bid_time = auto_bid_time\<rparr> hold) (\<lambda>b.
        ret (Some b)))"

definition release_current_hold :: "env \<Rightarrow> bid_record \<Rightarrow> (place_bid_error, unit) svc" where
  "release_current_hold env current =
     (case (env_wallet env, br_wallet_hold_id current) of
        (Some wallet, Some hold) \<Rightarrow> map_err (\<lambda>e. PlaceWalletError (wallet_error_text e)) (release_hold wallet hold)
      | _ \<Rightarrow> ret ())"

definition undo_auto_bid :: "env \<Rightarrow> bid_record \<Rightarrow> bid_record \<Rightarrow> string option \<Rightarrow> (place_bid_error, unit) svc" where
  "undo_auto_bid env inserted current hold =
     bindS (release_quietly env hold) (\<lambda>_.
     if br_id inserted \<noteq> br_id current then ignore_result (run_stmt env (delete_bid (br_id inserted)))
     else ret ())"

definition place_auto_bid :: "env \<Rightarrow> string \<Rightarrow> listing_record \<Rightarrow> proxy_bid_record \<Rightarrow> bid_record \<Rightarrow> i64 \<Rightarrow> i64
    \<Rightarrow> (place_bid_error, unit) svc" where
  "place_auto_bid env auction_id listing top_proxy current target auto_bid_time =
     bindS (auto_bid_schedule env listing top_proxy current target auto_bid_time) (\<lambda>schedule.
     bindS (new_uuid env) (\<lambda>bid_id.
     bindS (hold_for_bid env (pr_bidder_id top_proxy) auction_id bid_id target (snd schedule)) (\<lambda>hold.
     bindS (store_auto_bid env auction_id bid_id top_proxy current target auto_bid_time hold) (\<lambda>stored.
     case stored of
       None \<Rightarrow> ret ()
     | Some inserted \<Rightarrow>
         bindS (release_current_hold env current) (\<lambda>_.
         bindS (whenS (br_bidder_id current \<noteq> pr_bidder_id top_proxy)
           (db_err (publish_outbid_event env listing current target))) (\<lambda>_.
         bindS (db_err (run_stmt env
           (record_auto_bid auction_id target (snd schedule) (fst schedule) auto_bid_time))) (\<lambda>updated.
         case updated of
           None \<Rightarrow> undo_auto_bid env inserted current hold
         | Some r \<Rightarrow>
             bindS (db_err (run_stmt env (upsert_pending auction_id (lr_end_time r) auto_bid_time))) (\<lambda>_.
             db_err (publish_bid_placed_event env r inserted)))))))))"

definition resolve_proxy_auto_bid :: "env \<Rightarrow> string \<Rightarrow> listing_record \<Rightarrow> i64 \<Rightarrow> (place_bid_error, unit) svc" where
  "resolve_proxy_auto_bid env auction_id listing bid_time =
     bindS (db_err (run_query env (list_by_auction auction_id))) (\<lambda>rows.
     case rows of
       [] \<Rightarrow> ret ()
     | top_proxy # _ \<Rightarrow>
         bindS (db_err (run_query env (find_winning_bid auction_id))) (\<lambda>winning.
         case winning of
           None \<Rightarrow> ret ()
         | Some current \<Rightarrow>
             (let increment = lr_minimum_increment_cents listing;
                  target = auto_bid_target rows top_proxy current increment
              in if target \<le> br_bid_amount_cents current then ret ()
                 else if pr_max_bid_amount_cents top_proxy < i64_add (br_bid_amount_cents current) increment then ret ()
                 else place_auto_bid env auction_id listing top_proxy current target (i64_saturating_add bid_time 1))))"

section \<open>Placing a bid\<close>

definition record_accepted_listing :: "env \<Rightarrow> string \<Rightarrow> listing_record \<Rightarrow> i64 \<Rightarrow> i64 \<Rightarrow> string \<Rightarrow> i64
    \<Rightarrow> (place_bid_error, listing_record) svc" where
  "record_accepted_listing env canonical auction highest end_time st bid_time =
     (let updated = auction\<lparr>lr_current_highest_bid_cents := Some highest, lr_end_time := end_time,
                            lr_status := st, lr_updated_at := bid_time\<rparr>
      in bindS (db_err (run_stmt env (record_highest_bid canonical highest end_time st bid_time))) (\<lambda>persisted.
         case persisted of
           Some r \<Rightarrow> ret r
         | None \<Rightarrow>
             bindS (db_err (run_query env (find_by_id canonical))) (\<lambda>found.
             ret (case found of Some r \<Rightarrow> r | None \<Rightarrow> updated))))"

definition accept_bid :: "env \<Rightarrow> string \<Rightarrow> listing_record \<Rightarrow> string \<Rightarrow> i64 \<Rightarrow> bid_record option \<Rightarrow> bid_accepted
    \<Rightarrow> session_status \<Rightarrow> (place_bid_error, bid_record) svc" where
  "accept_bid env canonical auction bidder bid_time previous result st =
     (let amount = i64_of_u64 (cents (bid_amount (new_highest result)));
          end_time = i64_of_u64 (seconds (new_end_at result))
      in bindS (new_uuid env) (\<lambda>bid_id.
         bindS (release_previous_hold env bidder previous) (\<lambda>_.
         bindS (hold_for_bid env bidder canonical bid_id amount end_time) (\<lambda>hold.
         bindS (insert_bid_or_release env
           \<lparr>nb_id = bid_id, nb_auction_id = canonical, nb_bidder_id = bidder, nb_bid_amount_cents = amount,
            nb_bid_time = bid_time\<rparr> hold) (\<lambda>inserted.
         bindS (notify_outbid env auction bidder previous amount) (\<lambda>_.
         bindS (record_accepted_listing env canonical auction amount end_time (status_to_string st) bid_time) (\<lambda>updated.
         bindS (db_err (run_stmt env (upsert_pending canonical (lr_end_time updated) bid_time))) (\<lambda>_.
         bindS (resolve_proxy_auto_bid env canonical updated bid_time) (\<lambda>_.
         bindS (db_err (publish_bid_placed_event env updated inserted)) (\<lambda>_.
         ret inserted))))))))))"

text \<open>From the reloaded auction to the accepted bid: the rest of \<^verbatim>\<open>place_bid_internal\<close>.\<close>

definition place_new_bid :: "env \<Rightarrow> string \<Rightarrow> listing_record \<Rightarrow> string \<Rightarrow> i64 \<Rightarrow> bid_placement_mode
    \<Rightarrow> bid_record option \<Rightarrow> (place_bid_error, bid_record) svc" where
  "place_new_bid env canonical auction bidder bid_time mode previous =
     bindS (whenS (is_proxy mode) (map_err PlaceBidError (of_result
       (identity_bid_policy auction bidder previous)))) (\<lambda>_.
     bindS (db_err (record_to_domain_with_bid env auction)) (\<lambda>session.
     bindS (map_err PlaceBidError (of_result (domain_bid session bidder bid_time mode))) (\<lambda>r.
     bindS (map_err PlaceBidError (of_result
       (wallet_bid_policy (i64_of_u64 (cents (bid_amount (new_highest (fst r)))))))) (\<lambda>_.
     bindS (case mode of
        Proxy max_amount \<Rightarrow>
          bindS (db_err (run_stmt env (upsert_max canonical bidder max_amount bid_time))) (\<lambda>_. ret ())
      | Standard _ \<Rightarrow> ret ()) (\<lambda>_.
     accept_bid env canonical auction bidder bid_time previous (fst r) (snd r))))))"

text \<open>A bid that was not stored before: reload, validate, check, then place it.\<close>

definition place_unseen_bid :: "env \<Rightarrow> string \<Rightarrow> string \<Rightarrow> i64 \<Rightarrow> bid_placement_mode
    \<Rightarrow> (place_bid_error, bid_record) svc" where
  "place_unseen_bid env canonical bidder bid_time mode =
     bindS (db_err (run_query env (find_by_id canonical))) (\<lambda>found.
     bindS (ok_or PlaceAuctionNotFound found) (\<lambda>auction.
     bindS (validate_listing_for_bid env (lr_listing_id auction)) (\<lambda>_.
     bindS (db_err (run_query env (find_winning_bid canonical))) (\<lambda>previous.
     bindS (map_err PlaceBidError (of_result (precheck_bid auction bidder bid_time mode previous))) (\<lambda>_.
     case leading_proxy bidder mode previous of
       Some (max_amount, current) \<Rightarrow> raise_own_maximum env canonical auction bidder max_amount bid_time current
     | None \<Rightarrow> place_new_bid env canonical auction bidder bid_time mode previous)))))"

definition place_bid_internal :: "env \<Rightarrow> string \<Rightarrow> string \<Rightarrow> i64 \<Rightarrow> bid_placement_mode
    \<Rightarrow> (place_bid_error, bid_record) svc" where
  "place_bid_internal env auction_id bidder bid_time mode =
     bindS (resolve_record env auction_id) (\<lambda>resolved.
     bindS (existing_standard_bid env (lr_id resolved) bidder bid_time mode) (\<lambda>existing.
     case existing of
       Some b \<Rightarrow> ret b
     | None \<Rightarrow> place_unseen_bid env (lr_id resolved) bidder bid_time mode))"

text \<open>The public methods, through their command handlers of \<^verbatim>\<open>service/auction_commands.rs\<close>.\<close>

definition place_bid_core :: "env \<Rightarrow> string \<Rightarrow> string \<Rightarrow> i64 \<Rightarrow> i64 \<Rightarrow> (place_bid_error, bid_record) svc" where
  "place_bid_core env auction_id bidder amount bid_time =
     place_bid_internal env auction_id bidder bid_time (Standard amount)"

definition place_bid_handler :: "env \<Rightarrow> string \<Rightarrow> string \<Rightarrow> i64 \<Rightarrow> i64 \<Rightarrow> (place_bid_error, bid_record) svc" where
  "place_bid_handler = place_bid_core"

definition place_bid_and_persist :: "env \<Rightarrow> string \<Rightarrow> string \<Rightarrow> i64 \<Rightarrow> i64 \<Rightarrow> (place_bid_error, bid_record) svc" where
  "place_bid_and_persist = place_bid_handler"

definition place_proxy_bid_core :: "env \<Rightarrow> string \<Rightarrow> string \<Rightarrow> i64 \<Rightarrow> i64 \<Rightarrow> (place_bid_error, bid_record) svc" where
  "place_proxy_bid_core env auction_id bidder max_amount bid_time =
     place_bid_internal env auction_id bidder bid_time (Proxy max_amount)"

definition place_proxy_bid_handler :: "env \<Rightarrow> string \<Rightarrow> string \<Rightarrow> i64 \<Rightarrow> i64 \<Rightarrow> (place_bid_error, bid_record) svc" where
  "place_proxy_bid_handler = place_proxy_bid_core"

definition place_proxy_bid_and_persist :: "env \<Rightarrow> string \<Rightarrow> string \<Rightarrow> i64 \<Rightarrow> i64 \<Rightarrow> (place_bid_error, bid_record) svc" where
  "place_proxy_bid_and_persist = place_proxy_bid_handler"

end
