(* ===== verification/BidWrites.thy ===== *)
theory BidWrites
  imports StoreFacts BidService
begin

text \<open>
  The statements the bid handlers issue on one auction, as an interface: a relation on worlds that
  every one of them respects is respected by \<^verbatim>\<open>place_bid_internal\<close>. The lemmas walk up the call
  graph of \<^theory_text>\<open>BidService\<close> once; each interpretation gives a fact on what placing a bid does.
\<close>

lemma keeps_mode [keeps_intros]:
  "(\<And>n. keeps R (f n)) \<Longrightarrow> (\<And>n. keeps R (g n)) \<Longrightarrow> keeps R (case mode of Standard n \<Rightarrow> f n | Proxy n \<Rightarrow> g n)"
  by (simp split: bid_placement_mode.split)

declare TrueI [keeps_intros]

section \<open>Before the first write\<close>

context run_relation
begin

lemma keeps_before_bid [keeps_intros]:
  "keeps R (require_active_listing env l)"
  "keeps R (resolve_record env i)"
  "keeps R (existing_standard_bid env i u t mode)"
  "keeps R (record_to_domain_with_bid env a)"
  unfolding record_to_domain_with_bid_def require_active_listing_def resolve_record_def existing_standard_bid_def by (intro keeps_intros)+

lemma keeps_validate_listing [keeps_intros]: "keeps R (validate_listing_for_bid env l)"
  unfolding validate_listing_for_bid_def by (intro keeps_intros)

end

section \<open>The writes of a bid\<close>

text \<open>First those that leave the listing alone. The relation may depend on who bids: \<open>admitted\<close> holds of the
  bidders whose rows it allows.\<close>

locale bid_side_writes = wallet_relation +
  fixes env :: env and auction :: string and admitted :: "string \<Rightarrow> bool"
  assumes insert_bid: "nb_auction_id b = auction \<Longrightarrow> admitted (nb_bidder_id b) \<Longrightarrow> keeps R (run_stmt env (insert_with_wallet_hold b h))"
    and raise_own [keeps_intros]: "keeps R (run_stmt env (raise_own_bid i n t h))"
    and delete_bid [keeps_intros]: "keeps R (run_stmt env (delete_bid i))"
    and upsert_max [keeps_intros]: "admitted p \<Longrightarrow> keeps R (run_stmt env (upsert_max auction p n t))"
    and outbox_insert [keeps_intros]: "keeps R (run_stmt env (outbox_insert ev))"
    and upsert_pending [keeps_intros]: "keeps R (run_stmt env (upsert_pending auction due t))"
begin

lemma bid_events [keeps_intros]:
  "keeps R (publish_bid_placed_event env a b)"
  "keeps R (publish_outbid_event env a b n)"
  unfolding publish_bid_placed_event_def publish_outbid_event_def by (intro keeps_intros)+

lemma bid_parts [keeps_intros]:
  "keeps R (release_previous_hold env u prev)"
  "keeps R (hold_for_bid env u i b n t)"
  "keeps R (release_quietly env h)"
  "keeps R (release_current_hold env cur)"
  "keeps R (notify_outbid env a u prev n)"
  unfolding release_previous_hold_def hold_for_bid_def
    release_quietly_def release_current_hold_def notify_outbid_def
  by (intro keeps_intros)+

lemma insert_or_release: "nb_auction_id b = auction \<Longrightarrow> admitted (nb_bidder_id b) \<Longrightarrow> keeps R (insert_bid_or_release env b h)"
  unfolding insert_bid_or_release_def by (intro keeps_intros insert_bid)

lemma raised_maximum [keeps_intros]: "admitted u \<Longrightarrow> keeps R (raise_own_maximum env auction a u n t cur)"
  unfolding raise_own_maximum_def by (intro keeps_intros)

lemma bid_stages [keeps_intros]:
  "keeps R (undo_auto_bid env b cur h)"
  "keeps R (auto_bid_schedule env a p cur n t)"
  unfolding undo_auto_bid_def auto_bid_schedule_def by (intro keeps_intros)+

lemma stored_auto_bid [keeps_intros]: "admitted (pr_bidder_id p) \<Longrightarrow> keeps R (store_auto_bid env auction i p cur n t h)"
  unfolding store_auto_bid_def by (intro keeps_intros insert_or_release) simp_all

end

text \<open>Then the two updates of the listing, for relations that allow every bidder.\<close>

locale bid_writes = bid_side_writes R env auction "\<lambda>_. True" for R env auction +
  assumes record_highest [keeps_intros]: "keeps R (run_stmt env (record_highest_bid auction n e st u))"
    and record_auto [keeps_intros]: "keeps R (run_stmt env (record_auto_bid auction n e st u))"
begin

lemma recorded_listing [keeps_intros]: "keeps R (record_accepted_listing env auction a n e st t)"
  unfolding record_accepted_listing_def Let_def by (intro keeps_intros)

lemma placed_auto_bid [keeps_intros]: "keeps R (place_auto_bid env auction a p cur n t)"
  unfolding place_auto_bid_def by (intro keeps_intros)

lemma resolved_proxies [keeps_intros]: "keeps R (resolve_proxy_auto_bid env auction a t)"
  unfolding resolve_proxy_auto_bid_def Let_def by (intro keeps_intros)

lemma accepted_bid [keeps_intros]: "keeps R (accept_bid env auction a u t prev res st)"
  unfolding accept_bid_def Let_def by (intro keeps_intros insert_or_release) simp_all

lemma placed_new_bid [keeps_intros]: "keeps R (place_new_bid env auction a u t mode prev)"
  unfolding place_new_bid_def by (intro keeps_intros)

end

text \<open>A relation every auction's bid statements respect.\<close>

locale bid_service = wallet_relation +
  fixes env :: env
  assumes writes: "bid_writes R env auction"
begin

lemma placed_bid [keeps_intros]: "keeps R (place_bid_internal env i u t mode)"
  unfolding place_bid_internal_def place_unseen_bid_def
  by (intro keeps_intros bid_writes.placed_new_bid [OF writes] bid_side_writes.raised_maximum [OF bid_writes.axioms(1) [OF writes]])

end

text \<open>
  How a bid gets to its first write: until then the world only ticks on; then the auction's row, the
  winning bid and the checks they passed are known.
\<close>

definition bid_admitted :: "store \<Rightarrow> listing_record \<Rightarrow> string \<Rightarrow> i64 \<Rightarrow> bid_placement_mode \<Rightarrow> bid_record option \<Rightarrow> bool" where
  "bid_admitted s auction u t mode previous \<longleftrightarrow> find_by_id (lr_id auction) s = Some auction
     \<and> previous = find_winning_bid (lr_id auction) s \<and> precheck_bid auction u t mode previous = Inr ()"

lemma unchanged_tick [simp]: "unchanged w (next_tick w1) = unchanged w w1"
  by (simp add: unchanged_def)

lemma wp_read:
  assumes "keeps unchanged m" and "unchanged w0 w"
  shows "wp m (\<lambda>_. unchanged w0) (\<lambda>_. unchanged w0) w"
  by (rule unchanged.wp_keeps [OF assms])

lemma wp_read_bind:
  assumes "unchanged w0 w" and "keeps unchanged m"
    and "\<And>e w1. unchanged w0 w1 \<Longrightarrow> E e w1" and "\<And>a w1. unchanged w0 w1 \<Longrightarrow> wp (f a) Q E w1"
  shows "wp (bindS m f) Q E w"
  unfolding wp_bindS by (rule wp_mono [OF wp_read [OF assms(2,1)]]) (use assms in auto)

lemma wp_query_bind:
  assumes "unchanged w0 w" and "\<And>e w1. unchanged w0 w1 \<Longrightarrow> E e w1"
    and "\<And>w1. unchanged w0 w1 \<Longrightarrow> wp (f (q (db w0))) Q E w1"
  shows "wp (bindS (map_err g (run_query env q)) f) Q E w"
  using assms by (auto simp: wp_simps unchanged_def split: option.split)

lemma wp_ok_or_bind:
  assumes "unchanged w0 w" and "\<And>e w1. unchanged w0 w1 \<Longrightarrow> E e w1"
    and "\<And>a. x = Some a \<Longrightarrow> wp (f a) Q E w"
  shows "wp (bindS (ok_or e x) f) Q E w"
  using assms by (auto simp: wp_simps split: option.split)

lemma wp_of_result_bind:
  assumes "unchanged w0 w" and "\<And>e w1. unchanged w0 w1 \<Longrightarrow> E e w1"
    and "\<And>a. r = Inr a \<Longrightarrow> wp (f a) Q E w"
  shows "wp (bindS (map_err g (of_result r)) f) Q E w"
  using assms by (auto simp: wp_simps split: sum.split)

lemma find_matching_bid_stored: "find_matching_bid i u n t s = Some b \<Longrightarrow> b \<in> set (bids s)
    \<and> br_auction_id b = i \<and> br_bidder_id b = u \<and> br_bid_amount_cents b = n \<and> br_bid_time b = t"
  by (auto simp: find_matching_bid_def dest!: first_row_in)

lemma leading_proxyD: "leading_proxy u mode previous = Some (m, b) \<Longrightarrow> mode = Proxy m \<and> previous = Some b \<and> br_bidder_id b = u"
  by (auto simp: leading_proxy_def split: bid_placement_mode.splits option.splits if_splits)

lemma wp_place_unseen_bid:
  assumes w: "unchanged w0 w"
    and err: "\<And>e w1. unchanged w0 w1 \<Longrightarrow> E e w1"
    and new: "\<And>a w1 previous. unchanged w0 w1 \<Longrightarrow> lr_id a = i \<Longrightarrow> bid_admitted (db w0) a u t mode previous
        \<Longrightarrow> leading_proxy u mode previous = None \<Longrightarrow> wp (place_new_bid env i a u t mode previous) Q E w1"
    and own: "\<And>a w1 m b. unchanged w0 w1 \<Longrightarrow> lr_id a = i \<Longrightarrow> bid_admitted (db w0) a u t mode (Some b)
        \<Longrightarrow> mode = Proxy m \<Longrightarrow> br_bidder_id b = u \<Longrightarrow> wp (raise_own_maximum env i a u m t b) Q E w1"
  shows "wp (place_unseen_bid env i u t mode) Q E w"
proof -
  have final: "wp (case leading_proxy u mode previous of
              None \<Rightarrow> place_new_bid env i a u t mode previous
            | Some (m, b) \<Rightarrow> raise_own_maximum env i a u m t b) Q E w1"
    if "unchanged w0 w1" "find_by_id i (db w0) = Some a" "previous = find_winning_bid i (db w0)"
      "precheck_bid a u t mode previous = Inr ()" for a w1 previous
  proof -
    have i: "lr_id a = i" using that(2) by (auto simp: find_by_id_def dest: find_SomeD)
    have adm: "bid_admitted (db w0) a u t mode previous" using that i by (simp add: bid_admitted_def)
    show ?thesis
    proof (cases "leading_proxy u mode previous")
      case None
      with new [OF that(1) i adm] show ?thesis by simp
    next
      case (Some mb)
      obtain m b where mb: "mb = (m, b)" by force
      with Some leading_proxyD have "mode = Proxy m" "previous = Some b" "br_bidder_id b = u" by blast+
      with own [OF that(1) i] adm Some mb show ?thesis by simp
    qed
  qed
  show ?thesis
    unfolding place_unseen_bid_def
    apply (rule wp_query_bind [OF w err], assumption)
    apply (rule wp_ok_or_bind, assumption, erule err)
    apply (rule wp_read_bind, assumption, intro keeps_intros, erule err)
    apply (rule wp_query_bind, assumption, erule err)
    apply (rule wp_of_result_bind, assumption, erule err)
    apply (rule final)
       apply (simp_all add: unit_eq)
    done
qed

lemma wp_place_bid_internal:
  assumes err: "\<And>e w1. unchanged w w1 \<Longrightarrow> E e w1"
    and replay: "\<And>b w1 n. unchanged w w1 \<Longrightarrow> b \<in> set (bids (db w)) \<Longrightarrow> br_bidder_id b = u \<Longrightarrow> br_bid_time b = t
        \<Longrightarrow> mode = Standard n \<Longrightarrow> br_bid_amount_cents b = n \<Longrightarrow> Q b w1"
    and new: "\<And>a w1 previous. unchanged w w1 \<Longrightarrow> bid_admitted (db w) a u t mode previous
        \<Longrightarrow> leading_proxy u mode previous = None \<Longrightarrow> wp (place_new_bid env (lr_id a) a u t mode previous) Q E w1"
    and own: "\<And>a w1 m b. unchanged w w1 \<Longrightarrow> bid_admitted (db w) a u t mode (Some b)
        \<Longrightarrow> mode = Proxy m \<Longrightarrow> br_bidder_id b = u \<Longrightarrow> wp (raise_own_maximum env (lr_id a) a u m t b) Q E w1"
  shows "wp (place_bid_internal env i u t mode) Q E w"
proof -
  have unseen: "wp (place_unseen_bid env j u t mode) Q E w1" if "unchanged w w1" for j w1
    by (rule wp_place_unseen_bid [OF that err]) (assumption, metis new, metis own)
  have existing: "wp (bindS (existing_standard_bid env j u t mode) (\<lambda>existing.
     case existing of Some b \<Rightarrow> ret b | None \<Rightarrow> place_unseen_bid env j u t mode)) Q E w1"
    if w1: "unchanged w w1" for j w1
  proof (cases mode)
    case (Standard n)
    show ?thesis
      unfolding existing_standard_bid_def Standard bid_placement_mode.case
      apply (rule wp_query_bind [OF w1 err], assumption)
      apply (auto split: option.split simp: wp_ret unseen [unfolded Standard] dest!: find_matching_bid_stored
          intro: replay [OF _ _ _ _ Standard])
      done
  next
    case (Proxy m)
    then show ?thesis
      by (simp add: existing_standard_bid_def wp_simps unseen [OF w1, unfolded Proxy])
  qed
  show ?thesis
    unfolding place_bid_internal_def
    apply (rule wp_read_bind [of w w])
       apply (simp add: unchanged_def)
      apply (intro keeps_intros)
     apply (erule err)
    apply (erule existing)
    done
qed

end
