(* ===== verification/Closure.thy ===== *)
theory Closure
  imports Events
begin

text \<open>
  Closing auctions: \<^verbatim>\<open>service/closure_workflow.rs\<close> decides the outcome from the stored rows,
  \<^verbatim>\<open>service/auction_closure_use_case.rs\<close> closes one auction by hand or from the queue of closure
  jobs and settles the money, \<^verbatim>\<open>scheduler/auction_closure_scheduler.rs\<close> works the queue off in
  batches.
\<close>

abbreviation close_db_err :: "(string, 'a) svc \<Rightarrow> (close_session_error, 'a) svc" where
  "close_db_err m \<equiv> map_err CloseDatabaseError m"

section \<open>Outcome\<close>

record closure_decision =
  cd_status :: string
  cd_highest_bid_cents :: "i64 option"

definition determine_closure :: "listing_record \<Rightarrow> bid_record list \<Rightarrow> closure_decision" where
  "determine_closure auction bs =
     (let highest = (case map_option br_bid_amount_cents (first_row bs) of
            Some a \<Rightarrow> Some a | None \<Rightarrow> lr_current_highest_bid_cents auction);
          reserve_met = (case highest of Some a \<Rightarrow> lr_reserve_price_cents auction \<le> a | None \<Rightarrow> False)
      in \<lparr>cd_status = (if reserve_met then ''WON'' else ''UNSOLD''), cd_highest_bid_cents = highest\<rparr>)"

definition closure_workflow_for_auction :: "listing_record \<Rightarrow> listing_record \<Rightarrow> bid_record list \<Rightarrow> closure_decision" where
  "closure_workflow_for_auction auction = determine_closure"

section \<open>Closing one auction\<close>

definition execute_auction_closure :: "env \<Rightarrow> listing_record \<Rightarrow> store \<Rightarrow> i64
    \<Rightarrow> (close_session_error, (listing_record \<times> bid_record list) \<times> store) svc" where
  "execute_auction_closure env auction tx now =
     bindS (close_db_err (run_tx env (sql_query (list_by_auction_id_desc (lr_id auction))) tx)) (\<lambda>r1.
     let bs = fst r1; decision = closure_workflow_for_auction auction auction bs in
     bindS (close_db_err (run_tx env (update_lifecycle_status (lr_id auction) (cd_status decision)
        (cd_highest_bid_cents decision) now) (snd r1))) (\<lambda>r2.
     bindS (close_db_err (publish_auction_ended_event_with_tx env (fst r2) (first_row bs) (snd r2))) (\<lambda>r3.
     ret ((fst r2, bs), snd r3))))"

fun release_holds :: "wallet_client \<Rightarrow> bid_record list \<Rightarrow> (close_session_error, unit) svc" where
  "release_holds wallet [] = ret ()"
| "release_holds wallet (b # bs) =
     bindS (case br_wallet_hold_id b of
        None \<Rightarrow> ret ()
      | Some hold \<Rightarrow> map_err (\<lambda>e. CloseWalletError (wallet_error_text e)) (release_hold wallet hold)) (\<lambda>_.
     release_holds wallet bs)"

definition execute_post_closure_side_effects :: "env \<Rightarrow> listing_record \<Rightarrow> bid_record list
    \<Rightarrow> (close_session_error, unit) svc" where
  "execute_post_closure_side_effects env auction bs =
     (case env_wallet env of
        None \<Rightarrow> ret ()
      | Some wallet \<Rightarrow>
          if lr_status auction = ''WON'' then
            bindS (ok_or (CloseWalletError ''WON auction missing winning bid'') (first_row bs)) (\<lambda>winner.
            case br_wallet_hold_id winner of
              None \<Rightarrow> ret ()
            | Some hold \<Rightarrow> map_err (\<lambda>e. CloseWalletError (wallet_error_text e)) (convert_hold_to_payment wallet hold))
          else release_holds wallet bs)"

text \<open>
  The settlement after a commit, written out in three places of the source: the side effects, then
  the job is done, or it is put back to be settled 30 seconds later and the error returned.
\<close>

definition settle :: "env \<Rightarrow> listing_record \<Rightarrow> bid_record list \<Rightarrow> i64 \<Rightarrow> (close_session_error, unit) svc" where
  "settle env auction bs now =
     bindS (attempt (execute_post_closure_side_effects env auction bs)) (\<lambda>r.
     case r of
       Inl e \<Rightarrow>
         bindS (close_db_err (run_stmt env (mark_settlement_failed (lr_id auction) now (i64_add now 30)
           (close_session_error_text e)))) (\<lambda>_.
         throw e)
     | Inr _ \<Rightarrow> close_db_err (run_stmt env (mark_done (lr_id auction) now)))"

definition close_auction_core :: "env \<Rightarrow> string \<Rightarrow> (close_session_error, listing_record) svc" where
  "close_auction_core env auction_id =
     bindS (utc_now env) (\<lambda>now.
     bindS (close_db_err (begin_tx env)) (\<lambda>tx.
     bindS (close_db_err (run_tx env (sql_query (find_by_id_for_update auction_id)) tx)) (\<lambda>found.
     bindS (ok_or CloseAuctionNotFound (fst found)) (\<lambda>auction.
     if now < lr_end_time auction then
       bindS (close_db_err (rollback_tx env)) (\<lambda>_. throw CloseAuctionNotEnded)
     else if lr_status auction = ''WON'' \<or> lr_status auction = ''UNSOLD'' then
       bindS (close_db_err (rollback_tx env)) (\<lambda>_. ret auction)
     else
       bindS (execute_auction_closure env auction tx now) (\<lambda>r.
       let updated = fst (fst r); bs = snd (fst r) in
       bindS (close_db_err (commit_tx env (snd r))) (\<lambda>_.
       bindS (close_db_err (run_stmt env (mark_settling (lr_id updated) now now))) (\<lambda>_.
       bindS (settle env updated bs now) (\<lambda>_.
       ret updated))))))))"

section \<open>The queue of closure jobs\<close>

definition claim_due :: "env \<Rightarrow> i64 \<Rightarrow> i64 \<Rightarrow> string \<Rightarrow> (string, closure_job_record option) svc" where
  "claim_due env now lock_until worker =
     bindS (run_query env (\<lambda>_. ())) (\<lambda>_.
     if \<not> env_sqlite env then run_stmt env (claim_due_postgres now lock_until worker)
     else
       bindS (run_query env (due_job now)) (\<lambda>candidate.
       case candidate of
         None \<Rightarrow> ret None
       | Some job \<Rightarrow>
           bindS (run_stmt env (lock_job_stmt (job_auction_id job) now lock_until worker)) (\<lambda>n.
           ret (if n = 1 then Some job else None))))"

definition process_settling_job :: "env \<Rightarrow> listing_record \<Rightarrow> store \<Rightarrow> i64
    \<Rightarrow> (close_session_error, listing_record option) svc" where
  "process_settling_job env auction tx now =
     bindS (close_db_err (run_tx env (sql_query (list_by_auction_id_desc (lr_id auction))) tx)) (\<lambda>r.
     bindS (close_db_err (commit_tx env (snd r))) (\<lambda>_.
     bindS (settle env auction (fst r) now) (\<lambda>_.
     ret (Some auction))))"

definition close_claimed_auction :: "env \<Rightarrow> closure_job_record \<Rightarrow> listing_record \<Rightarrow> store \<Rightarrow> i64
    \<Rightarrow> (close_session_error, listing_record option) svc" where
  "close_claimed_auction env job auction tx now =
     bindS (attempt (execute_auction_closure env auction tx now)) (\<lambda>result.
     case result of
       Inl e \<Rightarrow>
         bindS (ignore_result (rollback_tx env)) (\<lambda>_.
         bindS (close_db_err (run_stmt env (mark_failed (job_auction_id job) now (i64_add now 30)
           (close_session_error_text e)))) (\<lambda>_.
         throw e))
     | Inr r \<Rightarrow>
         let updated = fst (fst r); bs = snd (fst r) in
         bindS (close_db_err (commit_tx env (snd r))) (\<lambda>_.
         bindS (close_db_err (run_stmt env (mark_settling (lr_id updated) now now))) (\<lambda>_.
         bindS (settle env updated bs now) (\<lambda>_.
         ret (Some updated)))))"

definition process_claimed_job :: "env \<Rightarrow> closure_job_record \<Rightarrow> i64 \<Rightarrow> (close_session_error, listing_record option) svc" where
  "process_claimed_job env job now =
     bindS (close_db_err (begin_tx env)) (\<lambda>tx.
     bindS (close_db_err (run_tx env (sql_query (find_by_id_for_update (job_auction_id job))) tx)) (\<lambda>found.
     case fst found of
       None \<Rightarrow>
         bindS (close_db_err (rollback_tx env)) (\<lambda>_.
         bindS (close_db_err (run_stmt env (mark_done (job_auction_id job) now))) (\<lambda>_.
         ret None))
     | Some auction \<Rightarrow>
         if job_status job = ''SETTLING'' then process_settling_job env auction tx now
         else if lr_status auction = ''WON'' \<or> lr_status auction = ''UNSOLD'' \<or> lr_status auction = ''CANCELLED'' then
           bindS (close_db_err (rollback_tx env)) (\<lambda>_.
           bindS (close_db_err (run_stmt env (mark_done (lr_id auction) now))) (\<lambda>_.
           ret None))
         else if now < lr_end_time auction then
           bindS (close_db_err (rollback_tx env)) (\<lambda>_.
           bindS (close_db_err (run_stmt env (upsert_pending (lr_id auction) (lr_end_time auction) now))) (\<lambda>_.
           ret None))
         else close_claimed_auction env job auction tx now))"

definition process_one_pending_closure_core :: "env \<Rightarrow> (close_session_error, listing_record option) svc" where
  "process_one_pending_closure_core env =
     bindS (utc_now env) (\<lambda>now.
     bindS (close_db_err (run_stmt env (reconcile_missing_pending_jobs now))) (\<lambda>_.
     bindS (close_db_err (claim_due env now (i64_add now 60) (''auction-closure-'' @ env_pid env))) (\<lambda>job.
     case job of
       None \<Rightarrow> ret None
     | Some j \<Rightarrow> process_claimed_job env j now)))"

text \<open>The public methods, through \<^verbatim>\<open>CloseAuctionHandler\<close>.\<close>

definition close_handler_close :: "env \<Rightarrow> string \<Rightarrow> (close_session_error, listing_record) svc" where
  "close_handler_close = close_auction_core"

definition close_handler_process_one_pending :: "env \<Rightarrow> (close_session_error, listing_record option) svc" where
  "close_handler_process_one_pending = process_one_pending_closure_core"

definition close_auction :: "env \<Rightarrow> string \<Rightarrow> (close_session_error, listing_record) svc" where
  "close_auction = close_handler_close"

definition process_one_pending_closure :: "env \<Rightarrow> (close_session_error, listing_record option) svc" where
  "process_one_pending_closure = close_handler_process_one_pending"

section \<open>The scheduler\<close>

record auction_closure_report =
  acr_attempted :: nat
  acr_closed :: nat
  acr_failed :: nat

text \<open>
  The loop of \<^verbatim>\<open>close_pending\<close>: every round that does not leave the loop counts as attempted, so
  the rounds left are the batch size less the attempts, and the recursion is structural in them.
\<close>

fun close_rounds :: "env \<Rightarrow> nat \<Rightarrow> auction_closure_report \<Rightarrow> ('e, auction_closure_report) svc" where
  "close_rounds env 0 report = ret report"
| "close_rounds env (Suc n) report =
     bindS (attempt (process_one_pending_closure env)) (\<lambda>r.
     case r of
       Inr (Some _) \<Rightarrow> close_rounds env n
         (report\<lparr>acr_attempted := acr_attempted report + 1, acr_closed := acr_closed report + 1\<rparr>)
     | Inr None \<Rightarrow> ret report
     | Inl _ \<Rightarrow> close_rounds env n
         (report\<lparr>acr_attempted := acr_attempted report + 1, acr_failed := acr_failed report + 1\<rparr>))"

definition close_pending :: "env \<Rightarrow> ('e, auction_closure_report) svc" where
  "close_pending env = close_rounds env (nat (resolve_auction_closure_batch_size env))
     \<lparr>acr_attempted = 0, acr_closed = 0, acr_failed = 0\<rparr>"

text \<open>\<^verbatim>\<open>spawn_polling\<close>: the first turns of its loop, each in the environment of its time.\<close>

fun close_polling :: "env list \<Rightarrow> world \<Rightarrow> world" where
  "close_polling [] w = w"
| "close_polling (env # envs) w = close_polling envs (snd (close_pending env w :: (unit + _) \<times> _))"

end
