(* ===== verification/ClosureWrites.thy ===== *)
theory ClosureWrites
  imports BidWrites Closure
begin

text \<open>
  Closing auctions, seen from the statements it issues: the transaction of a closure commits the
  new status and the event together or not at all, and around it only closure jobs are written. The
  locale proves once, for any relation the job statements respect, how the closing use cases end;
  the interpretations give the steps of the tables and the atomicity of a closure.
\<close>

section \<open>The transaction\<close>

lemma determine_closure_decision:
  "determine_closure auction (list_by_auction_id_desc (lr_id auction) s) =
    \<lparr>cd_status = fst (closing_decision auction s), cd_highest_bid_cents = snd (closing_decision auction s)\<rparr>"
  by (auto simp: determine_closure_def closing_decision_def Let_def split: option.split)

text \<open>What the transaction of a closure holds when it is ready to commit.\<close>

definition closed_in :: "listing_record \<Rightarrow> i64 \<Rightarrow> store \<Rightarrow> (listing_record \<times> bid_record list) \<times> store \<Rightarrow> bool" where
  "closed_in auction now tx r \<longleftrightarrow>
     (\<exists>t1 i payload time e1. snd (fst r) = list_by_auction_id_desc (lr_id auction) tx
        \<and> update_lifecycle_status (lr_id auction) (fst (closing_decision auction tx))
            (snd (closing_decision auction tx)) now tx = (Inr (fst (fst r)), t1)
        \<and> outbox_insert (new_outbox_event i (lr_id (fst (fst r))) ''AuctionEnded'' payload time) t1 = (Inr e1, snd r))"

lemma update_lifecycle_status_id: "update_lifecycle_status i st h u s = (Inr r, s1) \<Longrightarrow> lr_id r = i \<and> lr_status r = st
    \<and> lr_current_highest_bid_cents r = h"
  by (auto simp: update_lifecycle_status_def listing_update_def fetch_one_def dest: find_SomeD split: option.splits)

lemma update_lifecycle_status_row:
  "update_lifecycle_status i st h u s = (Inr r, s1) \<Longrightarrow> r \<in> set (listings s1)"
  by (auto simp: update_lifecycle_status_def listing_update_def fetch_one_def dest!: find_SomeD
      intro!: update_where_hit split: option.splits)

lemma outbox_insert_listings: "outbox_insert e s = (Inr e1, s1) \<Longrightarrow> listings s1 = listings s"
  by (auto simp: outbox_insert_def split: if_splits)

lemma execute_closure_wp:
  assumes "unchanged w0 w"
  shows "wp (execute_auction_closure env auction tx now)
     (\<lambda>r w1. unchanged w0 w1 \<and> closed_in auction now tx r) (\<lambda>_ w1. unchanged w0 w1) w"
  using assms
  by (auto simp: execute_auction_closure_def publish_auction_ended_event_with_tx_def closure_workflow_for_auction_def
      determine_closure_decision wp_simps sql_query_def unchanged_def closed_in_def Let_def
      split: option.split prod.split sum.split)

text \<open>Reads inside a transaction, in the style of \<open>wp_query_bind\<close>.\<close>

lemma wp_begin_tx_bind:
  assumes "unchanged w0 w" and "\<And>e w1. unchanged w0 w1 \<Longrightarrow> E e w1"
    and "\<And>w1. unchanged w0 w1 \<Longrightarrow> wp (f (db w0)) Q E w1"
  shows "wp (bindS (map_err g (begin_tx env)) f) Q E w"
  using assms by (auto simp: wp_simps unchanged_def split: option.split)

lemma wp_run_tx_bind:
  assumes "unchanged w0 w" and "\<And>e w1. unchanged w0 w1 \<Longrightarrow> E e w1"
    and "\<And>w1. unchanged w0 w1 \<Longrightarrow> wp (f (h t, t)) Q E w1"
  shows "wp (bindS (map_err g (run_tx env (sql_query h) t)) f) Q E w"
  using assms by (auto simp: wp_simps sql_query_def unchanged_def split: option.split)

lemma wp_execute_bind:
  assumes "unchanged w0 w" and "\<And>e w1. unchanged w0 w1 \<Longrightarrow> E e w1"
    and "\<And>r w1. unchanged w0 w1 \<Longrightarrow> closed_in auction now tx r \<Longrightarrow> wp (f r) Q E w1"
  shows "wp (bindS (execute_auction_closure env auction tx now) f) Q E w"
  unfolding wp_bindS by (rule wp_mono [OF execute_closure_wp [OF assms(1)]]) (auto intro: assms(2,3))

lemma wp_attempt_execute_bind:
  assumes "unchanged w0 w" and "\<And>e w1. unchanged w0 w1 \<Longrightarrow> wp (f (Inl e)) Q E w1"
    and "\<And>r w1. unchanged w0 w1 \<Longrightarrow> closed_in auction now tx r \<Longrightarrow> wp (f (Inr r)) Q E w1"
  shows "wp (bindS (attempt (execute_auction_closure env auction tx now)) f) Q E w"
  unfolding wp_bindS wp_attempt by (rule wp_mono [OF execute_closure_wp [OF assms(1)]]) (auto intro: assms(2,3))

lemma wp_commit_bind:
  assumes "unchanged w0 w" and "\<And>e w1. unchanged w0 w1 \<Longrightarrow> E e w1"
    and "\<And>w1. db w1 = t \<Longrightarrow> wallet_log w1 = wallet_log w0 \<Longrightarrow> wp (f ()) Q E w1"
  shows "wp (bindS (map_err g (commit_tx env t)) f) Q E w"
  using assms by (auto simp: wp_simps unchanged_def split: option.split)

section \<open>The closing use cases\<close>

locale closure_statements = run_relation +
  fixes env :: env
  assumes R_unchanged: "unchanged w w1 \<Longrightarrow> R w w1"
    and settling_stmt [keeps_intros]: "keeps R (run_stmt env (mark_settling i due t))"
    and settlement_failed_stmt [keeps_intros]: "keeps R (run_stmt env (mark_settlement_failed i t next err))"
    and failed_stmt [keeps_intros]: "keeps R (run_stmt env (mark_failed i t next err))"
    and done_stmt [keeps_intros]: "keeps R (run_stmt env (mark_done i t))"
    and pending_stmt [keeps_intros]: "keeps R (run_stmt env (upsert_pending i due t))"
    and claim_stmt [keeps_intros]: "keeps R (run_stmt env (claim_due_postgres t until worker))"
    and lock_stmt [keeps_intros]: "keeps R (run_stmt env (lock_job_stmt i t until worker))"
    and reconcile_stmt [keeps_intros]: "keeps R (run_stmt env (reconcile_missing_pending_jobs t))"
begin

lemma claimed [keeps_intros]: "keeps R (claim_due env t until worker)"
  unfolding claim_due_def by (intro keeps_intros)

lemma run_to:
  assumes "\<And>w1 w2. K w1 \<Longrightarrow> R w1 w2 \<Longrightarrow> K w2" and "K w" and "keeps R m"
  shows "wp m (\<lambda>_. K) (\<lambda>_. K) w"
  by (rule keeps_wp [OF assms(3)]) (rule assms(1) [OF assms(2)])

lemma wp_step_bind:
  assumes "S w" and "\<And>w1 w2. S w1 \<Longrightarrow> R w1 w2 \<Longrightarrow> S w2" and "keeps R m"
    and "\<And>w1. S w1 \<Longrightarrow> K w1" and "\<And>x w1. S w1 \<Longrightarrow> wp (f x) (\<lambda>_. K) (\<lambda>_. K) w1"
  shows "wp (bindS m f) (\<lambda>_. K) (\<lambda>_. K) w"
  unfolding wp_bindS
  by (rule wp_mono [OF run_to [where K = S, OF assms(2) assms(1,3)]]) (auto intro: assms(4,5))

text \<open>
  \<open>K\<close> is what is claimed of the end. It holds while only \<open>R\<close> has happened, and \<open>R\<close> keeps it. \<open>S\<close> is
  what is known when a settlement is due: right after the commit of a closure, or when a settlement is
  resumed; \<open>R\<close> keeps it, and the settlement leads from it to \<open>K\<close>.
\<close>

lemma close_core_settles:
  assumes K0: "\<And>w1. R w w1 \<Longrightarrow> K w1" and KR: "\<And>w1 w2. K w1 \<Longrightarrow> R w1 w2 \<Longrightarrow> K w2"
    and Kc: "\<And>a now r w1. find_by_id_for_update i (db w) = Some a \<Longrightarrow> lr_end_time a \<le> now
      \<Longrightarrow> lr_status a \<noteq> ''WON'' \<Longrightarrow> lr_status a \<noteq> ''UNSOLD'' \<Longrightarrow> closed_in a now (db w) r
      \<Longrightarrow> db w1 = snd r \<Longrightarrow> wallet_log w1 = wallet_log w \<Longrightarrow> S (fst (fst r)) (snd (fst r)) w1"
    and SR: "\<And>a bs w1 w2. S a bs w1 \<Longrightarrow> R w1 w2 \<Longrightarrow> S a bs w2" and SK: "\<And>a bs w1. S a bs w1 \<Longrightarrow> K w1"
    and settles: "\<And>a bs t w1. S a bs w1 \<Longrightarrow> wp (settle env a bs t) (\<lambda>_. K) (\<lambda>_. K) w1"
  shows "K (snd (close_auction_core env i w))"
proof -
  have un: "K w1" if "unchanged w w1" for w1 by (rule K0 [OF R_unchanged [OF that]])
  have "wp (close_auction_core env i) (\<lambda>_. K) (\<lambda>_. K) w"
    unfolding close_auction_core_def Let_def
    apply (rule wp_read_bind [of w w], simp add: unchanged_def, intro keeps_intros, erule un)
    apply (rule wp_begin_tx_bind, assumption, erule un)
    apply (rule wp_run_tx_bind, assumption, erule un)
    apply (simp only: fst_conv)
    apply (rule wp_ok_or_bind, assumption, erule un)
    apply (split if_split, intro conjI impI)
     apply (rule run_to [OF KR], assumption+, erule un, intro keeps_intros)
    apply (split if_split, intro conjI impI)
     apply (rule run_to [OF KR], assumption+, erule un, intro keeps_intros)
    apply (rule wp_execute_bind, assumption, erule un)
    apply (rule wp_commit_bind, assumption, erule un)
    subgoal for now _ _ _ a r _ w1
      apply (rule wp_step_bind [where S = "S (fst (fst r)) (snd (fst r))"])
          apply (rule Kc; simp)
         apply (erule SR, assumption)
        apply (intro keeps_intros)
       apply (erule SK)
      apply (simp add: wp_bindS wp_ret settles)
      done
    done
  then show ?thesis by (simp add: wp_final)
qed

lemma claimed_job_settles:
  assumes K0: "\<And>w1. R w w1 \<Longrightarrow> K w1" and KR: "\<And>w1 w2. K w1 \<Longrightarrow> R w1 w2 \<Longrightarrow> K w2"
    and Kc: "\<And>a r w1. find_by_id_for_update (job_auction_id job) (db w) = Some a \<Longrightarrow> lr_end_time a \<le> now
      \<Longrightarrow> lr_status a \<noteq> ''WON'' \<Longrightarrow> lr_status a \<noteq> ''UNSOLD'' \<Longrightarrow> closed_in a now (db w) r
      \<Longrightarrow> db w1 = snd r \<Longrightarrow> wallet_log w1 = wallet_log w \<Longrightarrow> S (fst (fst r)) (snd (fst r)) w1"
    and Kr: "\<And>a w1. find_by_id_for_update (job_auction_id job) (db w) = Some a \<Longrightarrow> unchanged w w1
      \<Longrightarrow> S a (list_by_auction_id_desc (lr_id a) (db w)) w1"
    and SR: "\<And>a bs w1 w2. S a bs w1 \<Longrightarrow> R w1 w2 \<Longrightarrow> S a bs w2" and SK: "\<And>a bs w1. S a bs w1 \<Longrightarrow> K w1"
    and settles: "\<And>a bs t w1. S a bs w1 \<Longrightarrow> wp (settle env a bs t) (\<lambda>_. K) (\<lambda>_. K) w1"
  shows "K (snd (process_claimed_job env job now w))"
proof -
  have un: "K w1" if "unchanged w w1" for w1 by (rule K0 [OF R_unchanged [OF that]])
  note run = run_to [OF KR]
  have settling: "wp (process_settling_job env a (db w) now) (\<lambda>_. K) (\<lambda>_. K) w1"
    if "unchanged w w1" "find_by_id_for_update (job_auction_id job) (db w) = Some a" for a w1
    unfolding process_settling_job_def
    apply (rule wp_run_tx_bind [OF that(1)], erule un)
    apply (rule wp_commit_bind, assumption, erule un)
    apply (simp add: wp_bindS wp_ret settles [OF Kr [OF that(2)]] unchanged_def)
    done
  have closing: "wp (close_claimed_auction env job a (db w) now) (\<lambda>_. K) (\<lambda>_. K) w1"
    if "unchanged w w1" "find_by_id_for_update (job_auction_id job) (db w) = Some a" "lr_end_time a \<le> now"
      "lr_status a \<noteq> ''WON''" "lr_status a \<noteq> ''UNSOLD''" for a w1
    unfolding close_claimed_auction_def Let_def
    apply (rule wp_attempt_execute_bind [OF that(1)])
     apply (simp only: sum.case)
     apply (rule run, assumption+, erule un, intro keeps_intros)
    apply (simp only: sum.case)
    apply (rule wp_commit_bind, assumption, erule un)
    subgoal for r
      apply (rule wp_step_bind [where S = "S (fst (fst r)) (snd (fst r))"])
          apply (rule Kc [OF that(2-5)]; assumption)
         apply (erule SR, assumption)
        apply (intro keeps_intros)
       apply (erule SK)
      apply (simp add: wp_bindS wp_ret settles)
      done
    done
  have "wp (process_claimed_job env job now) (\<lambda>_. K) (\<lambda>_. K) w"
    unfolding process_claimed_job_def
    apply (rule wp_begin_tx_bind [of w w], simp add: unchanged_def, erule un)
    apply (rule wp_run_tx_bind, assumption, erule un)
    apply (simp only: fst_conv)
    apply (split option.split, intro conjI impI allI)
     apply (rule run, assumption+, erule un, intro keeps_intros)
    apply (auto intro!: settling closing)
     apply (rule run, assumption+, erule un, intro keeps_intros)+
    done
  then show ?thesis by (simp add: wp_final)
qed

lemma process_one_settles:
  assumes K0: "\<And>w1. R w w1 \<Longrightarrow> K w1" and KR: "\<And>w1 w2. K w1 \<Longrightarrow> R w1 w2 \<Longrightarrow> K w2"
    and Kc: "\<And>i a now r w1 w2. R w w1 \<Longrightarrow> find_by_id_for_update i (db w1) = Some a \<Longrightarrow> lr_end_time a \<le> now
      \<Longrightarrow> lr_status a \<noteq> ''WON'' \<Longrightarrow> lr_status a \<noteq> ''UNSOLD'' \<Longrightarrow> closed_in a now (db w1) r
      \<Longrightarrow> db w2 = snd r \<Longrightarrow> wallet_log w2 = wallet_log w1 \<Longrightarrow> S (fst (fst r)) (snd (fst r)) w2"
    and Kr: "\<And>i a w1. R w w1 \<Longrightarrow> find_by_id_for_update i (db w1) = Some a
      \<Longrightarrow> S a (list_by_auction_id_desc (lr_id a) (db w1)) w1"
    and SR: "\<And>a bs w1 w2. S a bs w1 \<Longrightarrow> R w1 w2 \<Longrightarrow> S a bs w2" and SK: "\<And>a bs w1. S a bs w1 \<Longrightarrow> K w1"
    and settles: "\<And>a bs t w1. S a bs w1 \<Longrightarrow> wp (settle env a bs t) (\<lambda>_. K) (\<lambda>_. K) w1"
  shows "K (snd (process_one_pending_closure_core env w))"
proof -
  have job: "wp (process_claimed_job env job now) (\<lambda>_. K) (\<lambda>_. K) w1" if "R w w1" for job now w1
    unfolding wp_final
    by (rule claimed_job_settles [where S = S])
      (use that in \<open>auto intro: K0 KR Kc SR SK settles R_trans SR [OF Kr R_unchanged]\<close>)
  have bind: "wp (bindS m f) (\<lambda>_. K) (\<lambda>_. K) w1"
    if "R w w1" "keeps R m" "\<And>a w2. R w w2 \<Longrightarrow> wp (f a) (\<lambda>_. K) (\<lambda>_. K) w2"
    for m :: "(close_session_error, 'm) svc" and f :: "'m \<Rightarrow> (close_session_error, listing_record option) svc" and w1
    unfolding wp_bindS by (rule wp_mono [OF wp_keeps [OF that(2,1)]]) (auto intro: K0 that(3))
  have "wp (process_one_pending_closure_core env) (\<lambda>_. K) (\<lambda>_. K) w"
    unfolding process_one_pending_closure_core_def
    apply (rule bind [OF R_refl], intro keeps_intros)
    apply (rule bind, assumption, intro keeps_intros)
    apply (rule bind, assumption, intro keeps_intros)
    apply (auto simp: wp_ret intro: K0 job split: option.split)
    done
  then show ?thesis by (simp add: wp_final)
qed

end

text \<open>For a relation that allows the wallet's calls, a settlement is one of its steps.\<close>

locale closure_writes = closure_statements + wallet_relation
begin

lemma released_holds [keeps_intros]: "keeps R (release_holds wallet bs)"
  by (induction bs) (auto intro!: keeps_intros)

lemma settled [keeps_intros]: "keeps R (settle env a bs t)"
  unfolding settle_def execute_post_closure_side_effects_def by (intro keeps_intros)

lemma close_core_ends:
  assumes K0: "\<And>w1. R w w1 \<Longrightarrow> K w1" and KR: "\<And>w1 w2. K w1 \<Longrightarrow> R w1 w2 \<Longrightarrow> K w2"
    and Kc: "\<And>a now r w1. find_by_id_for_update i (db w) = Some a \<Longrightarrow> lr_end_time a \<le> now
      \<Longrightarrow> lr_status a \<noteq> ''WON'' \<Longrightarrow> lr_status a \<noteq> ''UNSOLD'' \<Longrightarrow> closed_in a now (db w) r
      \<Longrightarrow> db w1 = snd r \<Longrightarrow> wallet_log w1 = wallet_log w \<Longrightarrow> K w1"
  shows "K (snd (close_auction_core env i w))"
  by (rule close_core_settles [where S = "\<lambda>_ _. K"]) (auto intro: K0 KR Kc run_to [OF KR] settled)

lemma process_one_ends:
  assumes K0: "\<And>w1. R w w1 \<Longrightarrow> K w1" and KR: "\<And>w1 w2. K w1 \<Longrightarrow> R w1 w2 \<Longrightarrow> K w2"
    and Kc: "\<And>i a now r w1 w2. R w w1 \<Longrightarrow> find_by_id_for_update i (db w1) = Some a \<Longrightarrow> lr_end_time a \<le> now
      \<Longrightarrow> lr_status a \<noteq> ''WON'' \<Longrightarrow> lr_status a \<noteq> ''UNSOLD'' \<Longrightarrow> closed_in a now (db w1) r
      \<Longrightarrow> db w2 = snd r \<Longrightarrow> wallet_log w2 = wallet_log w1 \<Longrightarrow> K w2"
  shows "K (snd (process_one_pending_closure_core env w))"
  by (rule process_one_settles [where S = "\<lambda>_ _. K"]) (auto intro: K0 KR Kc run_to [OF KR] settled)

end

end
