(* ===== verification/CreateService.thy ===== *)
theory CreateService
  imports BidService
begin

text \<open>\<^verbatim>\<open>service/auction_create.rs\<close>: opening an auction for a catalogue listing.\<close>

abbreviation create_db_err :: "(string, 'a) svc \<Rightarrow> (create_auction_error, 'a) svc" where
  "create_db_err m \<equiv> map_err CreateDatabaseError m"

definition validate_listing_for_auction :: "env \<Rightarrow> create_auction_command \<Rightarrow> (create_auction_error, unit) svc" where
  "validate_listing_for_auction env c =
     bindS (map_err CreateInvalidInput (require_active_listing env (cc_listing_id c))) (\<lambda>listing.
     if ls_seller_id listing \<noteq> [] \<and> ls_seller_id listing \<noteq> cc_seller_id c
     then throw (CreateInvalidInput ''Listing seller does not match auction seller'')
     else ret ())"

definition new_listing_of_command :: "create_auction_command \<Rightarrow> i64 \<Rightarrow> new_listing_record" where
  "new_listing_of_command c now =
     \<lparr>nl_id = cc_listing_id c, nl_listing_id = cc_listing_id c, nl_seller_id = cc_seller_id c,
      nl_starting_price_cents = cc_starting_price_cents c, nl_reserve_price_cents = cc_reserve_price_cents c,
      nl_current_highest_bid_cents = None, nl_minimum_increment_cents = cc_minimum_increment_cents c,
      nl_status = initial_status (cc_start_time c) now, nl_start_time = cc_start_time c,
      nl_end_time = cc_end_time c, nl_created_at = now, nl_updated_at = now\<rparr>"

definition create_auction_core :: "env \<Rightarrow> create_auction_command \<Rightarrow> (create_auction_error, listing_record) svc" where
  "create_auction_core env c =
     bindS (utc_now env) (\<lambda>now.
     bindS (of_result (validate_command c now)) (\<lambda>_.
     bindS (map_err CreateInvalidInput (of_result (auction_type_from_input (Some (cc_auction_type c))))) (\<lambda>t.
     bindS (of_result (workflow_create t)) (\<lambda>_.
     bindS (validate_listing_for_auction env c) (\<lambda>_.
     bindS (create_db_err (run_query env (find_by_listing_id (cc_listing_id c)))) (\<lambda>existing.
     case existing of
       Some r \<Rightarrow> ret r
     | None \<Rightarrow>
         bindS (create_db_err (run_stmt env (listing_insert (new_listing_of_command c now)))) (\<lambda>inserted.
         bindS (create_db_err (run_stmt env (upsert_pending (lr_id inserted) (lr_end_time inserted) now))) (\<lambda>_.
         bindS (create_db_err (publish_auction_created_event env inserted)) (\<lambda>_.
         ret inserted)))))))))"

definition create_auction_handler :: "env \<Rightarrow> create_auction_command \<Rightarrow> (create_auction_error, listing_record) svc" where
  "create_auction_handler = create_auction_core"

definition create_auction :: "env \<Rightarrow> create_auction_command \<Rightarrow> (create_auction_error, listing_record) svc" where
  "create_auction = create_auction_handler"

end
