(* ===== verification/Outbox.thy ===== *)
theory Outbox
  imports Config
begin

text \<open>
  The outbox relay: claiming and publishing pending events
  (\<^verbatim>\<open>scheduler/outbox_scheduler.rs\<close> with \<^verbatim>\<open>OutboxRepository::claim_pending\<close>), the routing keys and
  the envelope of \<^verbatim>\<open>scheduler/rabbitmq_outbox_publisher.rs\<close>. The publisher is a parameter: a function
  of the tick and the event.
\<close>

section \<open>Claiming\<close>

fun lock_candidates :: "env \<Rightarrow> i64 \<Rightarrow> i64 \<Rightarrow> string \<Rightarrow> outbox_event_record list
    \<Rightarrow> (string, outbox_event_record list) svc" where
  "lock_candidates env now lock_until worker [] = ret []"
| "lock_candidates env now lock_until worker (e # es) =
     bindS (run_stmt env (lock_event_stmt (oe_id e) now lock_until worker)) (\<lambda>n.
     bindS (lock_candidates env now lock_until worker es) (\<lambda>claimed.
     ret (if n = 1 then e # claimed else claimed)))"

definition claim_pending :: "env \<Rightarrow> i64 \<Rightarrow> i64 \<Rightarrow> i64 \<Rightarrow> string \<Rightarrow> (string, outbox_event_record list) svc" where
  "claim_pending env limit now lock_until worker =
     bindS (run_query env (\<lambda>_. ())) (\<lambda>_.
     if \<not> env_sqlite env then run_stmt env (claim_pending_postgres limit now lock_until worker)
     else
       bindS (run_query env (\<lambda>s. map outbox_event_record.truncate (outbox_candidates limit now s))) (\<lambda>candidates.
       lock_candidates env now lock_until worker candidates))"

section \<open>Publishing\<close>

definition retry_delay_seconds :: "nat \<Rightarrow> i64" where
  "retry_delay_seconds failure_index = min (2 ^ min (failure_index - 1) 6) 60"

record outbox_publish_report =
  opr_attempted :: nat
  opr_published :: nat
  opr_failed :: nat

type_synonym publisher = "nat \<Rightarrow> outbox_event_record \<Rightarrow> string + unit"

definition publish_event :: "publisher \<Rightarrow> outbox_event_record \<Rightarrow> (string, unit) svc" where
  "publish_event publish e w = (publish (tick w) e, next_tick w)"

fun publish_events :: "env \<Rightarrow> publisher \<Rightarrow> outbox_event_record list \<Rightarrow> outbox_publish_report
    \<Rightarrow> (string, outbox_publish_report) svc" where
  "publish_events env publish [] report = ret report"
| "publish_events env publish (e # es) report =
     bindS (attempt (publish_event publish e)) (\<lambda>r.
     case r of
       Inr _ \<Rightarrow>
         bindS (utc_now env) (\<lambda>published_at.
         bindS (run_stmt env (mark_published (oe_id e) published_at)) (\<lambda>_.
         publish_events env publish es (report\<lparr>opr_published := opr_published report + 1\<rparr>)))
     | Inl err \<Rightarrow>
         bindS (utc_now env) (\<lambda>now.
         bindS (run_stmt env (mark_publish_failed (oe_id e) now
           (i64_add now (retry_delay_seconds (opr_failed report + 1))) err)) (\<lambda>_.
         publish_events env publish es (report\<lparr>opr_failed := opr_failed report + 1\<rparr>))))"

text \<open>The error type \<^verbatim>\<open>OutboxSchedulerError\<close> has one case, the database's text.\<close>

definition publish_pending :: "env \<Rightarrow> i64 \<Rightarrow> publisher \<Rightarrow> (string, outbox_publish_report) svc" where
  "publish_pending env limit publish =
     bindS (utc_now env) (\<lambda>now.
     bindS (claim_pending env limit now (i64_add now 60) (''outbox-'' @ env_pid env)) (\<lambda>events.
     publish_events env publish events
       \<lparr>opr_attempted = length events, opr_published = 0, opr_failed = 0\<rparr>))"

section \<open>Routing and envelope\<close>

definition event_type_to_routing_key :: "string \<Rightarrow> string" where
  "event_type_to_routing_key t =
     (if t = ''AuctionCreated'' then ''auction.created.v1''
      else if t = ''AuctionEnded'' then ''auction.ended.v1''
      else if t = ''BidPlaced'' then ''auction.bid-placed.v1''
      else if t = ''Outbid'' then ''auction.outbid.v1''
      else t)"

definition event_payload :: "env \<Rightarrow> outbox_event_record \<Rightarrow> json" where
  "event_payload env e = (case env_json_parse env (oe_payload e) of Some v \<Rightarrow> v | None \<Rightarrow> JStr (oe_payload e))"

definition build_event_envelope :: "env \<Rightarrow> outbox_event_record \<Rightarrow> string \<Rightarrow> json" where
  "build_event_envelope env e routing_key = JObj
     [(''eventId'', JStr (oe_id e)), (''aggregateId'', JStr (oe_aggregate_id e)), (''eventType'', JStr routing_key),
      (''eventVersion'', JInt 1), (''payload'', event_payload env e), (''createdAt'', JInt (oe_created_at e))]"

end
