(* ===== verification/OutboxFacts.thy ===== *)
theory OutboxFacts
  imports Outbox StoreFacts
begin

text \<open>
  The outbox relay: a batch ends with every claimed event marked published or put back with a delay,
  the report adds up, a claim takes due unpublished events only, and the envelope carries the routing
  key of its event type.
\<close>

section \<open>The statements of the relay\<close>

text \<open>Any relation that the statements of the relay respect, a turn of the relay respects.\<close>

locale relay_statements = run_relation +
  fixes env :: env
  assumes claim_batch_stmt [keeps_intros]: "keeps R (run_stmt env (claim_pending_postgres l t u worker))"
    and lock_event_stmt [keeps_intros]: "keeps R (run_stmt env (lock_event_stmt i t u worker))"
    and published_stmt [keeps_intros]: "keeps R (run_stmt env (mark_published i t))"
    and publish_failed_stmt [keeps_intros]: "keeps R (run_stmt env (mark_publish_failed i t u err))"
begin

lemma locked_candidates [keeps_intros]: "keeps R (lock_candidates env t u worker es)"
  by (induction es) (auto intro!: keeps_intros)

lemma claimed_events [keeps_intros]: "keeps R (claim_pending env l t u worker)"
  unfolding claim_pending_def by (intro keeps_intros)

lemma sent_event [keeps_intros]: "keeps R (publish_event pub e)"
  by (simp add: keeps_def publish_event_def R_tick)

lemma relayed_events [keeps_intros]: "keeps R (publish_events env pub es report)"
  by (induction es arbitrary: report) (auto intro!: keeps_intros)

lemma relay_turn [keeps_intros]: "keeps R (publish_pending env l pub)"
  unfolding publish_pending_def by (intro keeps_intros)

end

section \<open>Retries and routing\<close>

text \<open>The delay before a retry grows with the failures of the batch: one second after the first, at most
  a minute, doubling in between.\<close>

theorem retry_delay_bounds:
  "1 \<le> retry_delay_seconds k \<and> retry_delay_seconds k \<le> 60 \<and> retry_delay_seconds 1 = 1
    \<and> (1 \<le> k \<and> k < 6 \<longrightarrow> retry_delay_seconds (k + 1) = 2 * retry_delay_seconds k)
    \<and> (7 \<le> k \<longrightarrow> retry_delay_seconds k = 60)"
proof -
  have big: "(2::int) ^ min m 6 \<ge> 1" for m by simp
  have "k \<in> {1, 2, 3, 4, 5} \<Longrightarrow> retry_delay_seconds (k + 1) = 2 * retry_delay_seconds k"
    by (auto simp: retry_delay_seconds_def)
  moreover have "1 \<le> k \<and> k < 6 \<Longrightarrow> k \<in> {1, 2, 3, 4, 5}" by auto
  moreover have "7 \<le> k \<Longrightarrow> min (k - 1) 6 = 6" by simp
  ultimately show ?thesis using big [of "k - 1"] by (auto simp: retry_delay_seconds_def)
qed

theorem retry_delay_bounds_witness: "retry_delay_seconds 3 = 4 \<and> retry_delay_seconds 9 = 60"
  using retry_delay_bounds [of 1] retry_delay_bounds [of 2] retry_delay_bounds [of 9]
  by (simp add: numeral_2_eq_2 numeral_3_eq_3)

text \<open>The event types the service writes, with their routing keys.\<close>

definition written_event_types :: "string list" where
  "written_event_types = [''AuctionCreated'', ''AuctionEnded'', ''BidPlaced'', ''Outbid'']"

section \<open>Claims\<close>

text \<open>A claim of events on Postgres returns only events that were not published, were due and were not
  locked by another worker, at most the limit of them when ids are unique, each locked for this worker
  until the given time; so a second claim before that time returns none of them.\<close>

theorem claimed_events_are_locked:
  assumes "claim_pending_postgres limit now until worker s = (Inr es, s1)"
    and "distinct (map oe_id (outbox_events s))"
  shows "(\<forall>e \<in> set es. \<exists>r \<in> set (outbox_events s). oe_id r = oe_id e \<and> claimable_event now r)
    \<and> length es \<le> nat limit
    \<and> (\<forall>later r. later < until \<longrightarrow> r \<in> set (outbox_events s1) \<longrightarrow> oe_id r \<in> oe_id ` set es \<longrightarrow> \<not> claimable_event later r)"
proof -
  let ?ids = "map oe_id (outbox_candidates limit now s)"
  let ?P = "\<lambda>r :: outbox_row. oe_id r \<in> set ?ids"
  have es: "es = map (outbox_event_record.truncate \<circ> lock_event until worker now) (filter ?P (outbox_events s))"
    and s1: "outbox_events s1 = update_where ?P (lock_event until worker now) (outbox_events s)"
    using assms(1) by (auto simp: claim_pending_postgres_def Let_def)
  have trunc: "oe_id (outbox_event_record.truncate e) = oe_id e" for e :: outbox_row
    by (simp add: outbox_event_record.defs)
  have cand: "c \<in> set (outbox_events s) \<and> claimable_event now c" if "c \<in> set (outbox_candidates limit now s)" for c
    using that by (auto simp: outbox_candidates_def sql_limit_def dest!: in_set_takeD)
  have "\<exists>r \<in> set (outbox_events s). oe_id r = oe_id e \<and> claimable_event now r" if "e \<in> set es" for e
    using that cand by (auto simp: es trunc)
  moreover have "length es \<le> nat limit"
  proof -
    have "length es = card (oe_id ` set (filter ?P (outbox_events s)))"
      using assms(2) distinct_card [of "map oe_id (filter ?P (outbox_events s))"]
      by (simp add: es distinct_map_filter)
    also have "\<dots> \<le> card (set ?ids)"
      by (rule card_mono) auto
    also have "\<dots> \<le> length ?ids" by (rule card_length)
    also have "\<dots> \<le> nat limit" by (simp add: outbox_candidates_def sql_limit_def)
    finally show ?thesis .
  qed
  moreover have "\<not> claimable_event later r"
    if "later < until" "r \<in> set (outbox_events s1)" "oe_id r \<in> oe_id ` set es" for later r
  proof -
    have "?P r" using that(3) by (auto simp: es trunc)
    with that(2) have "ob_locked_until r = Some until"
      by (auto simp: s1 lock_event_def dest!: set_update_whereD)
    with that(1) show ?thesis by (simp add: claimable_event_def lock_free_def)
  qed
  ultimately show ?thesis by blast
qed

definition sample_event :: outbox_row where
  "sample_event = outbox_event_record.extend
     \<lparr>oe_id = ''e1'', oe_aggregate_id = ''a1'', oe_event_type = ''BidPlaced'', oe_payload = ''{}'', oe_published = False,
      oe_published_at = None, oe_created_at = 900, oe_updated_at = 900\<rparr>
     \<lparr>ob_attempts = 0, ob_next_attempt_at = 0, ob_locked_until = None, ob_locked_by = None, ob_last_error = None\<rparr>"

definition event_store :: store where
  "event_store = empty_store\<lparr>outbox_events := [sample_event]\<rparr>"

lemma event_store_claim: "map oe_id (case fst (claim_pending_postgres 50 1000 1060 ''w'' event_store) of Inr es \<Rightarrow> es | Inl e \<Rightarrow> []) = [''e1'']"
  by code_simp

theorem claimed_events_are_locked_witness:
  "filter (\<lambda>r. oe_id r = ''e1'' \<and> claimable_event 1059 r)
     (outbox_events (snd (claim_pending_postgres 50 1000 1060 ''w'' event_store))) = []"
proof -
  obtain es s1 where r: "claim_pending_postgres 50 1000 1060 ''w'' event_store = (Inr es, s1)"
    by (simp add: claim_pending_postgres_def Let_def)
  have "map oe_id es = [''e1'']" using event_store_claim r by simp
  then have "''e1'' \<in> oe_id ` set es" by (metis list.set_intros(1) list.set_map)
  moreover have "distinct (map oe_id (outbox_events event_store))" by (simp add: event_store_def)
  ultimately show ?thesis
    using claimed_events_are_locked [OF r] r by (auto simp: filter_empty_conv)
qed

section \<open>A batch\<close>

text \<open>The row of an event after the batch handled it.\<close>

definition handled :: "outbox_row \<Rightarrow> bool" where
  "handled r \<longleftrightarrow> ob_locked_until r = None \<and> ob_locked_by r = None
     \<and> (oe_published r \<and> oe_published_at r \<noteq> None \<and> ob_last_error r = None \<or> ob_last_error r \<noteq> None)"

lemma publish_events_report:
  "publish_events env publish es r0 w = (Inr r, w1) \<Longrightarrow>
    opr_published r + opr_failed r = opr_published r0 + opr_failed r0 + length es \<and> opr_attempted r = opr_attempted r0"
proof (induction es arbitrary: r0 w)
  case Nil
  then show ?case by (simp add: ret_def)
next
  case (Cons e es)
  then show ?case
    by (auto simp: bindS_def attempt_def publish_event_def utc_now_def split: prod.splits sum.splits dest!: Cons.IH)
qed

definition event_handled :: "string \<Rightarrow> store \<Rightarrow> bool" where
  "event_handled i s \<longleftrightarrow> (\<forall>r \<in> set (outbox_events s). oe_id r = i \<longrightarrow> handled r)"

lemma event_handled_update:
  assumes "outbox_events s1 = update_where (\<lambda>r. oe_id r = j) f (outbox_events s)"
    and "\<And>r. oe_id (f r) = oe_id r" and "\<And>r. handled (f r)" and "event_handled i s \<or> i = j"
  shows "event_handled i s1"
  unfolding event_handled_def
proof (intro ballI impI)
  fix r
  assume "r \<in> set (outbox_events s1)" and i: "oe_id r = i"
  then consider r0 where "r0 \<in> set (outbox_events s)" "r = f r0" | "r \<in> set (outbox_events s)" "oe_id r \<noteq> j"
    using assms(1) by (auto dest: set_update_whereD)
  then show "handled r"
  proof cases
    case 1
    then show ?thesis by (simp add: assms(3))
  next
    case 2
    with assms(4) i show ?thesis by (auto simp: event_handled_def)
  qed
qed

lemma mark_published_handled: "event_handled i s \<or> i = j \<Longrightarrow> event_handled i (snd (mark_published j t s))"
  by (rule event_handled_update [where f = "\<lambda>r. r\<lparr>oe_published := True, oe_published_at := Some t, oe_updated_at := t,
        ob_locked_until := None, ob_locked_by := None, ob_last_error := None\<rparr>"])
    (simp_all add: mark_published_def handled_def)

lemma mark_publish_failed_handled:
  "event_handled i s \<or> i = j \<Longrightarrow> event_handled i (snd (mark_publish_failed j t u err s))"
  by (rule event_handled_update [where f = "\<lambda>r. r\<lparr>ob_attempts := ob_attempts r + 1, ob_next_attempt_at := u,
        ob_locked_until := None, ob_locked_by := None, ob_last_error := Some err, oe_updated_at := t\<rparr>"])
    (simp_all add: mark_publish_failed_def handled_def)

lemma wp_mark_stmts:
  "wp (run_stmt env (mark_published j t)) Q E w = (case env_db_fault env (tick w) of
     Some m \<Rightarrow> E (env_sql_text env (DbFault m)) (next_tick w)
   | None \<Rightarrow> Q () ((next_tick w)\<lparr>db := snd (mark_published j t (db w))\<rparr>))"
  "wp (run_stmt env (mark_publish_failed j t u err)) Q E w = (case env_db_fault env (tick w) of
     Some m \<Rightarrow> E (env_sql_text env (DbFault m)) (next_tick w)
   | None \<Rightarrow> Q () ((next_tick w)\<lparr>db := snd (mark_publish_failed j t u err (db w))\<rparr>))"
  by (simp_all add: wp_run_stmt mark_published_def mark_publish_failed_def split: option.split)

lemma wp_publish_event [wp_simps]: "wp (publish_event publish e) Q E w =
    (case publish (tick w) e of Inr x \<Rightarrow> Q () (next_tick w) | Inl m \<Rightarrow> E m (next_tick w))"
  by (simp add: wp_def publish_event_def unit_eq split: sum.split)

lemma wp_publish_events_handled:
  "event_handled i (db w) \<or> i \<in> oe_id ` set es
    \<Longrightarrow> wp (publish_events env publish es r0) (\<lambda>_ w1. event_handled i (db w1)) (\<lambda>_ _. True) w"
proof (induction es arbitrary: r0 w)
  case Nil
  then show ?case by (simp add: wp_simps)
next
  case (Cons e es)
  have published: "wp (bindS (utc_now env) (\<lambda>t. bindS (run_stmt env (mark_published (oe_id e) t)) (\<lambda>_. publish_events env publish es r1)))
      (\<lambda>_ w1. event_handled i (db w1)) (\<lambda>_ _. True) (next_tick w)" for r1
    using Cons.prems
    by (simp add: wp_bindS wp_utc_now wp_mark_stmts split: option.split) (auto intro!: Cons.IH simp: mark_published_handled)
  have failed: "wp (bindS (utc_now env) (\<lambda>t. bindS (run_stmt env (mark_publish_failed (oe_id e) t (u t) err))
      (\<lambda>_. publish_events env publish es r1))) (\<lambda>_ w1. event_handled i (db w1)) (\<lambda>_ _. True) (next_tick w)" for r1 u err
    using Cons.prems
    by (simp add: wp_bindS wp_utc_now wp_mark_stmts split: option.split) (auto intro!: Cons.IH simp: mark_publish_failed_handled)
  show ?case
  proof (cases "publish (tick w) e")
    case (Inl err)
    show ?thesis
      unfolding publish_events.simps wp_bindS [of "attempt m" for m] wp_attempt wp_publish_event Inl sum.case
      by (rule failed)
  next
    case (Inr x)
    show ?thesis
      unfolding publish_events.simps wp_bindS [of "attempt m" for m] wp_attempt wp_publish_event Inr sum.case
      by (rule published)
  qed
qed

text \<open>C28: when a run of the outbox relay succeeds, every event it claimed is settled: published with its
  time, or with the error recorded; in both cases its lock is gone. The report counts them all.\<close>

theorem relay_settles_its_batch:
  assumes "publish_pending env limit publish w = (Inr report, w1)"
  shows "opr_published report + opr_failed report = opr_attempted report
    \<and> (\<exists>es w2. claim_pending env limit (env_clock env (tick w)) (i64_add (env_clock env (tick w)) 60)
          (''outbox-'' @ env_pid env) (next_tick w) = (Inr es, w2)
        \<and> opr_attempted report = length es
        \<and> (\<forall>r \<in> set (outbox_events (db w1)). oe_id r \<in> oe_id ` set es \<longrightarrow> handled r))"
proof -
  let ?now = "env_clock env (tick w)" and ?r0 = "\<lambda>es. \<lparr>opr_attempted = length es, opr_published = 0, opr_failed = 0\<rparr>"
  obtain es w3 where c: "claim_pending env limit ?now (i64_add ?now 60) (''outbox-'' @ env_pid env) (next_tick w) = (Inr es, w3)"
    and p: "publish_events env publish es (?r0 es) w3 = (Inr report, w1)"
    using assms by (auto simp: publish_pending_def bindS_def utc_now_def split: prod.splits sum.splits)
  have "event_handled i (db w1)" if "i \<in> oe_id ` set es" for i
    using wp_InrD [OF wp_publish_events_handled p] that by blast
  with publish_events_report [OF p] c show ?thesis
    by (auto simp: event_handled_def)
qed

definition event_world :: world where
  "event_world = start_world\<lparr>db := event_store\<rparr>"

definition deliver :: publisher where
  "deliver _ _ = Inr ()"

lemma event_world_published: "fst (publish_pending calm_env 50 deliver event_world)
    = Inr \<lparr>opr_attempted = 1, opr_published = 1, opr_failed = 0\<rparr>"
  by code_simp

theorem relay_settles_its_batch_witness:
  "fst (publish_pending calm_env 50 deliver event_world) = Inr \<lparr>opr_attempted = 1, opr_published = 1, opr_failed = 0\<rparr>
    \<and> (\<exists>es :: outbox_event_record list. length es = 1)"
proof -
  obtain w1 where r: "publish_pending calm_env 50 deliver event_world
      = (Inr \<lparr>opr_attempted = 1, opr_published = 1, opr_failed = 0\<rparr>, w1)"
    using event_world_published by (metis prod.collapse)
  from relay_settles_its_batch [OF r] event_world_published show ?thesis by auto
qed

text \<open>The envelope of a published event carries the event's id, aggregate and time and the routing key of
  its type as its event type; the four types the service writes have the four documented keys, all
  different, and any other type is its own key.\<close>

theorem envelopes_carry_routing_keys:
  "map event_type_to_routing_key written_event_types
      = [''auction.created.v1'', ''auction.ended.v1'', ''auction.bid-placed.v1'', ''auction.outbid.v1'']
    \<and> (event_type_to_routing_key t = t \<or> t \<in> set written_event_types)
    \<and> build_event_envelope env e (event_type_to_routing_key (oe_event_type e)) = JObj
        [(''eventId'', JStr (oe_id e)), (''aggregateId'', JStr (oe_aggregate_id e)),
         (''eventType'', JStr (event_type_to_routing_key (oe_event_type e))), (''eventVersion'', JInt 1),
         (''payload'', case env_json_parse env (oe_payload e) of Some v \<Rightarrow> v | None \<Rightarrow> JStr (oe_payload e)),
         (''createdAt'', JInt (oe_created_at e))]"
  by (simp add: written_event_types_def event_type_to_routing_key_def build_event_envelope_def event_payload_def)

end
