(* ===== verification/Queries.thy ===== *)
theory Queries
  imports Policies
begin

text \<open>
  \<^verbatim>\<open>service/auction_queries.rs\<close>: the read side, with the cursor pages over an auction's bids, and
  the deletion of a proxy bid.
\<close>

abbreviation bids_db_err :: "(string, 'a) svc \<Rightarrow> (list_bids_error, 'a) svc" where
  "bids_db_err m \<equiv> map_err ListBidsDatabaseError m"

definition get_auction_by_id_core :: "env \<Rightarrow> string \<Rightarrow> (get_session_error, listing_record option) svc" where
  "get_auction_by_id_core env auction_id =
     bindS (map_err GetDatabaseError (run_query env (find_by_id auction_id))) (\<lambda>found.
     case found of
       Some r \<Rightarrow> ret (Some r)
     | None \<Rightarrow> map_err GetDatabaseError (run_query env (find_by_listing_id auction_id)))"

definition list_auctions_core :: "env \<Rightarrow> (list_sessions_error, listing_record list) svc" where
  "list_auctions_core env = map_err ListSessionsDatabaseError (run_query env list_all)"

definition list_pending_closure_core :: "env \<Rightarrow> (list_pending_closure_error, listing_record list) svc" where
  "list_pending_closure_core env =
     bindS (utc_now env) (\<lambda>now.
     map_err ListPendingDatabaseError (run_query env (list_pending_closure now)))"

definition canonical_auction_id :: "env \<Rightarrow> string \<Rightarrow> (list_bids_error, string) svc" where
  "canonical_auction_id env auction_id =
     bindS (bids_db_err (run_query env (find_by_id auction_id))) (\<lambda>by_id.
     bindS (bids_db_err (run_query env (find_by_listing_id auction_id))) (\<lambda>by_listing.
     ret (case (case by_id of Some r \<Rightarrow> Some r | None \<Rightarrow> by_listing) of
            Some r \<Rightarrow> lr_id r
          | None \<Rightarrow> auction_id)))"

definition list_bids_core :: "env \<Rightarrow> string \<Rightarrow> (list_bids_error, bid_record list) svc" where
  "list_bids_core env auction_id =
     bindS (canonical_auction_id env auction_id) (\<lambda>canonical.
     bids_db_err (run_query env (list_by_auction_id_desc canonical)))"

definition get_proxy_bid_core :: "env \<Rightarrow> string \<Rightarrow> string \<Rightarrow> (list_bids_error, proxy_bid_record option) svc" where
  "get_proxy_bid_core env auction_id bidder =
     bindS (canonical_auction_id env auction_id) (\<lambda>canonical.
     bids_db_err (run_query env (find_by_bidder canonical bidder)))"

definition delete_proxy_bid_core :: "env \<Rightarrow> string \<Rightarrow> string \<Rightarrow> (list_bids_error, unit) svc" where
  "delete_proxy_bid_core env auction_id bidder =
     bindS (canonical_auction_id env auction_id) (\<lambda>canonical.
     bindS (bids_db_err (run_stmt env (delete_for_bidder canonical bidder))) (\<lambda>_.
     ret ()))"

definition clamp :: "i64 \<Rightarrow> i64 \<Rightarrow> i64 \<Rightarrow> i64" where
  "clamp lo hi x = (if x < lo then lo else if hi < x then hi else x)"

definition sanitized_limit :: "i64 option \<Rightarrow> i64" where
  "sanitized_limit limit = clamp 1 100 (case limit of None \<Rightarrow> 20 | Some n \<Rightarrow> n)"

definition parse_optional_cursor :: "string option \<Rightarrow> list_bids_error + bid_cursor option" where
  "parse_optional_cursor cursor =
     (case cursor of
        None \<Rightarrow> Inr None
      | Some v \<Rightarrow> (case parse_bid_cursor v of Inl e \<Rightarrow> Inl (ListBidsInvalidInput e) | Inr c \<Rightarrow> Inr (Some c)))"

text \<open>The page made of the \<open>lim + 1\<close> rows fetched.\<close>

definition cut_page :: "i64 \<Rightarrow> bid_record list \<Rightarrow> bid_cursor_page" where
  "cut_page lim fetched =
     (let has_more = lim < int (length fetched);
          items = (if has_more then take (nat lim) fetched else fetched)
      in \<lparr>page_items = items,
          page_next_cursor = (if has_more
            then (if items = [] then None else Some (bid_cursor_to_string (bid_cursor_from_bid (last items))))
            else None),
          page_size = lim\<rparr>)"

definition list_bids_with_cursor_core :: "env \<Rightarrow> string \<Rightarrow> string option \<Rightarrow> i64 option
    \<Rightarrow> (list_bids_error, bid_cursor_page) svc" where
  "list_bids_with_cursor_core env auction_id cursor limit =
     bindS (canonical_auction_id env auction_id) (\<lambda>canonical.
     let lim = sanitized_limit limit in
     bindS (of_result (parse_optional_cursor cursor)) (\<lambda>parsed.
     bindS (bids_db_err (run_query env (list_by_auction_cursor canonical
        (map_option (\<lambda>c. (cur_amount_cents c, cur_bid_time c, cur_id c)) parsed) (lim + 1)))) (\<lambda>fetched.
     ret (cut_page lim fetched))))"

definition get_auction_with_bids :: "env \<Rightarrow> string \<Rightarrow> (string, (string \<times> string list) option) svc" where
  "get_auction_with_bids env auction_id =
     bindS (run_query env (find_by_id auction_id)) (\<lambda>by_id.
     bindS (run_query env (find_by_listing_id auction_id)) (\<lambda>by_listing.
     case (case by_id of Some r \<Rightarrow> Some r | None \<Rightarrow> by_listing) of
       Some auction \<Rightarrow>
         bindS (run_query env (list_by_auction_id_desc (lr_id auction))) (\<lambda>bs.
         ret (Some (lr_id auction, map br_id bs)))
     | None \<Rightarrow> ret None))"

text \<open>The public methods, through the query services of \<^verbatim>\<open>service/auction_commands.rs\<close>.\<close>

definition list_auction_query_get :: "env \<Rightarrow> string \<Rightarrow> (get_session_error, listing_record option) svc" where
  "list_auction_query_get = get_auction_by_id_core"

definition list_auction_query_list :: "env \<Rightarrow> (list_sessions_error, listing_record list) svc" where
  "list_auction_query_list = list_auctions_core"

definition list_auction_query_pending :: "env \<Rightarrow> (list_pending_closure_error, listing_record list) svc" where
  "list_auction_query_pending = list_pending_closure_core"

definition list_bid_query_list :: "env \<Rightarrow> string \<Rightarrow> (list_bids_error, bid_record list) svc" where
  "list_bid_query_list = list_bids_core"

definition list_bid_query_list_cursor :: "env \<Rightarrow> string \<Rightarrow> string option \<Rightarrow> i64 option
    \<Rightarrow> (list_bids_error, bid_cursor_page) svc" where
  "list_bid_query_list_cursor = list_bids_with_cursor_core"

definition list_bid_query_get_proxy_bid :: "env \<Rightarrow> string \<Rightarrow> string \<Rightarrow> (list_bids_error, proxy_bid_record option) svc" where
  "list_bid_query_get_proxy_bid = get_proxy_bid_core"

definition list_bid_query_delete_proxy_bid :: "env \<Rightarrow> string \<Rightarrow> string \<Rightarrow> (list_bids_error, unit) svc" where
  "list_bid_query_delete_proxy_bid = delete_proxy_bid_core"

definition get_auction_by_id :: "env \<Rightarrow> string \<Rightarrow> (get_session_error, listing_record option) svc" where
  "get_auction_by_id = list_auction_query_get"

definition list_auctions :: "env \<Rightarrow> (list_sessions_error, listing_record list) svc" where
  "list_auctions = list_auction_query_list"

definition list_pending_closures :: "env \<Rightarrow> (list_pending_closure_error, listing_record list) svc" where
  "list_pending_closures = list_auction_query_pending"

definition list_bids :: "env \<Rightarrow> string \<Rightarrow> (list_bids_error, bid_record list) svc" where
  "list_bids = list_bid_query_list"

definition get_proxy_bid :: "env \<Rightarrow> string \<Rightarrow> string \<Rightarrow> (list_bids_error, proxy_bid_record option) svc" where
  "get_proxy_bid = list_bid_query_get_proxy_bid"

definition delete_proxy_bid :: "env \<Rightarrow> string \<Rightarrow> string \<Rightarrow> (list_bids_error, unit) svc" where
  "delete_proxy_bid = list_bid_query_delete_proxy_bid"

definition list_bids_with_cursor :: "env \<Rightarrow> string \<Rightarrow> string option \<Rightarrow> i64 option \<Rightarrow> (list_bids_error, bid_cursor_page) svc" where
  "list_bids_with_cursor = list_bid_query_list_cursor"

end
