(* ===== verification/ServiceSteps.thy ===== *)
theory ServiceSteps
  imports ClosureWrites CreateService OutboxFacts Queries
begin

text \<open>
  Every use case changes the tables only by the steps of \<open>store_step\<close> and only adds to the wallet's
  log, whatever its arguments, its result and the faults it meets. One lemma per function, in the
  order they call each other; the invariants and the history of \<^theory_text>\<open>StoreFacts\<close> follow for any
  sequence of calls.
\<close>

definition stepping :: "world \<Rightarrow> world \<Rightarrow> bool" where
  "stepping w w1 \<longleftrightarrow> store_steps (db w) (db w1) \<and> prefix (wallet_log w) (wallet_log w1)"

interpretation stepping: wallet_relation stepping
  by unfold_locales (auto simp: stepping_def intro: rtranclp_trans prefix_order.trans)

lemma stepping_stmt:
  assumes "\<And>s a s1. q s = (Inr a, s1) \<Longrightarrow> store_step s s1"
  shows "keeps stepping (run_stmt env q)"
  by (rule stepping.keeps_run_stmt) (auto simp: stepping_def dest: assms)

section \<open>Statements\<close>

lemma stepping_stmts [keeps_intros]:
  "keeps stepping (run_stmt env (listing_insert a))"
  "keeps stepping (run_stmt env (record_highest_bid i n e st u))"
  "keeps stepping (run_stmt env (record_auto_bid i n e st u))"
  "keeps stepping (run_stmt env (insert_with_wallet_hold b h))"
  "keeps stepping (run_stmt env (raise_own_bid i n t h))"
  "keeps stepping (run_stmt env (delete_bid i))"
  "keeps stepping (run_stmt env (upsert_max i p n t))"
  "keeps stepping (run_stmt env (delete_for_bidder i p))"
  "keeps stepping (run_stmt env (outbox_insert ev))"
  "keeps stepping (run_stmt env (claim_pending_postgres l t u worker))"
  "keeps stepping (run_stmt env (lock_event_stmt i t u worker))"
  "keeps stepping (run_stmt env (mark_published i t))"
  "keeps stepping (run_stmt env (mark_publish_failed i t u err))"
  "keeps stepping (run_stmt env (upsert_pending i u t))"
  "keeps stepping (run_stmt env (claim_due_postgres t u worker))"
  "keeps stepping (run_stmt env (lock_job_stmt i t u worker))"
  "keeps stepping (run_stmt env (mark_done i t))"
  "keeps stepping (run_stmt env (mark_settling i u t))"
  "keeps stepping (run_stmt env (mark_failed i t u err))"
  "keeps stepping (run_stmt env (mark_settlement_failed i t u err))"
  "keeps stepping (run_stmt env (reconcile_missing_pending_jobs t))"
  by (rule stepping_stmt, erule store_step.intros)+

section \<open>Bids and new auctions\<close>

interpretation step_writes: bid_writes stepping env auction for env auction
  by unfold_locales (intro keeps_intros)+

interpretation step_service: bid_service stepping env for env
  by unfold_locales (intro keeps_intros)+

lemma stepping_created_event [keeps_intros]: "keeps stepping (publish_auction_created_event env a)"
  unfolding publish_auction_created_event_def by (intro keeps_intros)

lemma stepping_create_auction_core [keeps_intros]: "keeps stepping (create_auction_core env c)"
  unfolding create_auction_core_def validate_listing_for_auction_def by (intro keeps_intros)

section \<open>Closing\<close>

lemma closed_in_step:
  assumes "closed_in auction now tx r" and "find_by_id_for_update i tx = Some auction"
    and "lr_end_time auction \<le> now" and "lr_status auction \<noteq> ''WON''" and "lr_status auction \<noteq> ''UNSOLD''"
  shows "store_step tx (snd r)"
proof -
  from assms(1) obtain t1 j payload time e1
    where u: "update_lifecycle_status (lr_id auction) (fst (closing_decision auction tx))
            (snd (closing_decision auction tx)) now tx = (Inr (fst (fst r)), t1)"
      and o: "outbox_insert (new_outbox_event j (lr_id (fst (fst r))) ''AuctionEnded'' payload time) t1 = (Inr e1, snd r)"
    by (auto simp: closed_in_def)
  show ?thesis
    by (rule step_close [OF assms(2-5) _ u _ _ o])
      (simp_all add: new_outbox_event_def update_lifecycle_status_id [OF u])
qed

lemma stepping_unchanged: "unchanged w w1 \<Longrightarrow> stepping w w1"
  by (simp add: stepping_def unchanged_def)

interpretation step_closure: closure_writes stepping env for env
  by unfold_locales (intro keeps_intros stepping_unchanged; assumption?)+

lemma stepping_closed:
  assumes "stepping w0 w" and "find_by_id_for_update i (db w) = Some a" and "lr_end_time a \<le> now"
    and "lr_status a \<noteq> ''WON''" and "lr_status a \<noteq> ''UNSOLD''" and "closed_in a now (db w) r"
    and "db w1 = snd r" and "wallet_log w1 = wallet_log w"
  shows "stepping w0 w1"
  using assms(1,7,8) closed_in_step [OF assms(6,2-5)] by (auto simp: stepping_def)

lemma stepping_close_auction_core [keeps_intros]: "keeps stepping (close_auction_core env i)"
  unfolding keeps_def
proof
  fix w
  show "stepping w (snd (close_auction_core env i w))"
    by (rule step_closure.close_core_ends)
      (assumption, erule stepping.R_trans, assumption, rule stepping_closed [OF stepping.R_refl])
qed

lemma stepping_process_one [keeps_intros]: "keeps stepping (process_one_pending_closure env)"
  unfolding keeps_def process_one_pending_closure_def close_handler_process_one_pending_def
proof
  fix w
  show "stepping w (snd (process_one_pending_closure_core env w))"
    by (rule step_closure.process_one_ends)
      (assumption, erule stepping.R_trans, assumption, rule stepping_closed)
qed

lemma stepping_close_rounds [keeps_intros]: "keeps stepping (close_rounds env n report)"
  by (induction n arbitrary: report) (auto intro!: keeps_intros)

lemma stepping_close_pending [keeps_intros]: "keeps stepping (close_pending env)"
  unfolding close_pending_def by (intro keeps_intros)

section \<open>The outbox\<close>

interpretation step_relay: relay_statements stepping env for env
  by unfold_locales (intro keeps_intros)+

lemma stepping_publish_pending: "keeps stepping (publish_pending env l pub)"
  by (rule step_relay.relay_turn)

section \<open>Queries\<close>

lemma unchanged_queries [keeps_intros]:
  "keeps unchanged (get_auction_by_id_core env i)"
  "keeps unchanged (list_auctions_core env)"
  "keeps unchanged (list_pending_closure_core env)"
  "keeps unchanged (canonical_auction_id env i)"
  unfolding get_auction_by_id_core_def list_auctions_core_def list_pending_closure_core_def canonical_auction_id_def
  by (intro keeps_intros)+

lemma unchanged_bid_queries [keeps_intros]:
  "keeps unchanged (list_bids_core env i)"
  "keeps unchanged (get_proxy_bid_core env i u)"
  "keeps unchanged (list_bids_with_cursor_core env i c l)"
  "keeps unchanged (get_auction_with_bids env i)"
  unfolding list_bids_core_def get_proxy_bid_core_def list_bids_with_cursor_core_def get_auction_with_bids_def Let_def
  by (intro keeps_intros)+

lemma stepping_of_unchanged: "keeps unchanged m \<Longrightarrow> keeps stepping m"
  by (auto simp: keeps_def intro: stepping_unchanged)

lemma stepping_delete_proxy_bid_core [keeps_intros]: "keeps stepping (delete_proxy_bid_core env i u)"
  unfolding delete_proxy_bid_core_def
  by (intro keeps_intros stepping_of_unchanged [OF unchanged_queries(4)])

end
