(* ===== verification/PolicyFacts.thy ===== *)
theory PolicyFacts
  imports Policies SessionFacts
begin

text \<open>
  Properties of the checks before a bid and of the small types: the chain on stored rows and the
  domain object accept the same bids with the same errors, the chain reports its first error, the
  create command is validated as a conjunction, the cursor text parses back, and the conversion to
  rupiah rounds up.
\<close>

section \<open>Values in range\<close>

definition nonneg_i64 :: "i64 \<Rightarrow> bool" where
  "nonneg_i64 x \<longleftrightarrow> 0 \<le> x \<and> x \<le> i64_max"

lemma nonneg_i64D: "nonneg_i64 x \<Longrightarrow> 0 \<le> x \<and> i64_range x"
  by (simp add: nonneg_i64_def i64_range_def i64_min_def)

lemma nonneg_le_iff: "nonneg_i64 x \<Longrightarrow> nonneg_i64 y \<Longrightarrow> u64_of_i64 x \<le> u64_of_i64 y \<longleftrightarrow> x \<le> y"
  and nonneg_less_iff: "nonneg_i64 x \<Longrightarrow> nonneg_i64 y \<Longrightarrow> u64_of_i64 x < u64_of_i64 y \<longleftrightarrow> x < y"
  by (simp_all add: nonneg_i64D u64_of_i64_le_iff u64_of_i64_less_iff)

lemma nonneg_roundtrip: "nonneg_i64 x \<Longrightarrow> i64_of_u64 (u64_of_i64 x) = x"
  by (simp add: nonneg_i64D i64_of_u64_of_i64)

definition sane_listing :: "listing_record \<Rightarrow> bool" where
  "sane_listing r \<longleftrightarrow> nonneg_i64 (lr_start_time r) \<and> nonneg_i64 (lr_end_time r)
     \<and> nonneg_i64 (lr_starting_price_cents r) \<and> nonneg_i64 (lr_minimum_increment_cents r)
     \<and> nonneg_i64 (lr_reserve_price_cents r)"

definition sane_winning :: "listing_record \<Rightarrow> bid_record option \<Rightarrow> bool" where
  "sane_winning r w \<longleftrightarrow> (\<forall>b. w = Some b \<longrightarrow> nonneg_i64 (br_bid_amount_cents b)
     \<and> nonneg_i64 (br_bid_amount_cents b + lr_minimum_increment_cents r))"

lemma map_status_core_status: "map_status st = core_status st"
  by (simp add: map_status.simps core_status_def)

lemma core_status_to_string [simp]: "core_status (status_to_string st) = st"
  by (cases st) (simp_all add: core_status_def)

lemma session_of_record_simps [simp]:
  "las_status (session_of_record r w) = core_status (lr_status r)"
  "las_seller_id (session_of_record r w) = UserId (lr_seller_id r)"
  "las_start_at (session_of_record r w) = UnixSeconds (u64_of_i64 (lr_start_time r))"
  "las_end_at (session_of_record r w) = UnixSeconds (u64_of_i64 (lr_end_time r))"
  "las_current_highest (session_of_record r w) = map_option bid_of_record w"
  "las_minimum_increment (session_of_record r w) = Money (u64_of_i64 (lr_minimum_increment_cents r))"
  "las_starting_price (session_of_record r w) = Money (u64_of_i64 (lr_starting_price_cents r))"
  "las_reserve_price (session_of_record r w) = Money (u64_of_i64 (lr_reserve_price_cents r))"
  by (simp_all add: session_of_record_def with_status_def)

definition minimum_cents :: "listing_record \<Rightarrow> bid_record option \<Rightarrow> i64" where
  "minimum_cents r w = (case w of
     Some b \<Rightarrow> br_bid_amount_cents b + lr_minimum_increment_cents r | None \<Rightarrow> lr_starting_price_cents r)"

lemma minimum_required_of_record:
  "minimum_required_bid (session_of_record r w) = Money (u64_of_i64 (minimum_cents r w))"
  by (simp add: minimum_required_bid_def minimum_cents_def bid_of_record_def u64_of_i64_add split: option.split)

lemma nonneg_minimum: "sane_listing r \<Longrightarrow> sane_winning r w \<Longrightarrow> nonneg_i64 (minimum_cents r w)"
  by (auto simp: sane_listing_def sane_winning_def minimum_cents_def split: option.split)

lemma amount_policy_minimum:
  "sane_winning r w \<Longrightarrow> amount_bid_policy r a w =
    (if a < minimum_cents r w then Inl (BidTooLow (Money (u64_of_i64 (minimum_cents r w)))) else Inr ())"
  by (auto simp: amount_bid_policy_def minimum_cents_def sane_winning_def Let_def nonneg_i64D i64_add_id
      split: option.split)

lemma highest_bidder_of_record:
  "is_highest_bidder (session_of_record r w) (UserId u) \<longleftrightarrow>
    (case w of None \<Rightarrow> False | Some b \<Rightarrow> br_bidder_id b = u)"
  by (simp add: is_highest_bidder_def bid_of_record_def split: option.split)

lemma time_policy_ensure:
  assumes "sane_listing r" and "nonneg_i64 t"
  shows "time_bid_policy r t =
    fst (ensure_accepting_bids (session_of_record r w) (UnixSeconds (u64_of_i64 t)))"
  using assms
  by (auto simp: time_bid_policy_def Let_def map_status_core_status ensure_accepting_bids_def status_simps
      accepts_bids_def sane_listing_def nonneg_le_iff nonneg_less_iff split: if_splits)

section \<open>The chain and the domain object\<close>

lemma chain_standard: "chain_validate standard_bid_chain c =
    (case time_validation_link c of Inl e \<Rightarrow> Inl e | Inr _ \<Rightarrow>
     (case identity_validation_link c of Inl e \<Rightarrow> Inl e | Inr _ \<Rightarrow>
      (case amount_validation_link c of Inl e \<Rightarrow> Inl e | Inr _ \<Rightarrow> wallet_amount_validation_link c)))"
  by (simp add: standard_bid_chain_def split: sum.split)

definition erase_ok :: "'e + 'a \<Rightarrow> 'e + unit" where
  "erase_ok r = (case r of Inl e \<Rightarrow> Inl e | Inr _ \<Rightarrow> Inr ())"

text \<open>C10: for rows in range and a positive amount, the validation chain on the stored rows returns
  exactly what the domain object's place_bid returns: it accepts the same bids, and refuses with the
  same error.\<close>

theorem chain_agrees_with_domain:
  assumes "sane_listing r" and "sane_winning r w" and "nonneg_i64 t" and "0 < a" and "a \<le> i64_max"
  shows "chain_validate standard_bid_chain \<lparr>ctx_auction = r, ctx_bidder_id = u, ctx_bid_time = t,
      ctx_amount_cents = a, ctx_winning_bid = w\<rparr>
    = erase_ok (fst (place_bid (session_of_record r w) (UserId u) (Money (u64_of_i64 a)) (UnixSeconds (u64_of_i64 t))))"
proof -
  let ?s = "session_of_record r w" and ?t = "UnixSeconds (u64_of_i64 t)" and ?a = "Money (u64_of_i64 a)"
  have a: "nonneg_i64 a" using assms(4,5) by (simp add: nonneg_i64_def)
  have low: "?a < minimum_required_bid ?s \<longleftrightarrow> a < minimum_cents r w"
    using nonneg_less_iff [OF a nonneg_minimum [OF assms(1,2)]] by (simp add: minimum_required_of_record)
  note time = time_policy_ensure [OF assms(1,3), of w]
  show ?thesis
  proof (cases "open_for_bids ?s ?t")
    case True
    then have "time_bid_policy r t = Inr ()" by (simp add: time)
    with True assms(4) low show ?thesis
      by (auto simp: chain_standard time_validation_link_def identity_validation_link_def
          amount_validation_link_def wallet_amount_validation_link_def wallet_bid_policy_def
          amount_policy_minimum [OF assms(2)] identity_bid_policy_def place_bid_def erase_ok_def Let_def
          highest_bidder_of_record minimum_required_of_record split: prod.split option.splits)
  next
    case False
    then obtain e s1 where "ensure_accepting_bids ?s ?t = (Inl e, s1)" using closed_ensure by blast
    with time show ?thesis
      by (simp add: chain_standard time_validation_link_def place_bid_def erase_ok_def)
  qed
qed

definition sample_listing :: listing_record where
  "sample_listing = \<lparr>lr_id = ''a1'', lr_listing_id = ''a1'', lr_seller_id = ''seller'', lr_auction_type = ''ENGLISH'',
     lr_starting_price_cents = 1000, lr_reserve_price_cents = 1500, lr_current_highest_bid_cents = None,
     lr_minimum_increment_cents = 100, lr_status = ''ACTIVE'', lr_start_time = 100, lr_end_time = 1000,
     lr_created_at = 100, lr_updated_at = 100\<rparr>"

lemma sane_sample_listing [simp]: "sane_listing sample_listing"
  by (simp add: sane_listing_def nonneg_i64_def sample_listing_def i64_max_def)

theorem chain_agrees_with_domain_witness:
  "chain_validate standard_bid_chain \<lparr>ctx_auction = sample_listing, ctx_bidder_id = ''u1'', ctx_bid_time = 200,
      ctx_amount_cents = 900, ctx_winning_bid = None\<rparr> = Inl (BidTooLow (Money 1000))
    \<and> erase_ok (fst (place_bid (session_of_record sample_listing None) (UserId ''u1'')
        (Money (u64_of_i64 900)) (UnixSeconds (u64_of_i64 200)))) = Inl (BidTooLow (Money 1000))"
proof -
  have "sane_winning sample_listing None" "nonneg_i64 200"
    by (simp_all add: sane_winning_def nonneg_i64_def i64_max_def)
  note eq = chain_agrees_with_domain [OF sane_sample_listing this, of 900 "''u1''"]
  moreover have "chain_validate standard_bid_chain \<lparr>ctx_auction = sample_listing, ctx_bidder_id = ''u1'',
      ctx_bid_time = 200, ctx_amount_cents = 900, ctx_winning_bid = None\<rparr> = Inl (BidTooLow (Money 1000))"
    by (simp add: chain_standard time_validation_link_def time_bid_policy_def identity_validation_link_def
        identity_bid_policy_def amount_validation_link_def amount_bid_policy_def sample_listing_def map_status.simps
        u64_of_i64_def)
  ultimately show ?thesis by (simp add: i64_max_def)
qed

text \<open>The chain stops at its first failing link: for any list of links, the result is the first
  link's error if there is one, and the links after it do not matter.\<close>

lemma chain_first_error:
  "chain_validate (ls @ l # ls') c = (case chain_validate ls c of Inl e \<Rightarrow> Inl e | Inr _ \<Rightarrow>
     (case l c of Inl e \<Rightarrow> Inl e | Inr _ \<Rightarrow> chain_validate ls' c))"
  by (induction ls) (auto split: sum.split)

section \<open>Create command\<close>

text \<open>A create command is accepted exactly when its texts are not blank, its prices and increment
  are positive with the reserve at least the starting price, and its times leave the auction a future:
  the start at most 120 seconds in the past, the end after both the start and now.\<close>

theorem validate_command_iff:
  assumes "i64_range (cc_start_time c + 120)"
  shows "validate_command c now = Inr () \<longleftrightarrow>
    \<not> is_blank (cc_listing_id c) \<and> \<not> is_blank (cc_seller_id c) \<and> \<not> is_blank (cc_auction_type c)
    \<and> 0 < cc_starting_price_cents c \<and> 0 < cc_minimum_increment_cents c
    \<and> cc_starting_price_cents c \<le> cc_reserve_price_cents c
    \<and> cc_start_time c < cc_end_time c \<and> now \<le> cc_start_time c + 120 \<and> now < cc_end_time c"
  using assms
  by (auto simp: validate_command_def CREATE_AUCTION_START_TIME_CLOCK_SKEW_SECONDS_def i64_add_id)

definition sample_command :: create_auction_command where
  "sample_command = \<lparr>cc_listing_id = ''l1'', cc_seller_id = ''seller'', cc_auction_type = ''ENGLISH'',
     cc_starting_price_cents = 1000, cc_reserve_price_cents = 1500, cc_minimum_increment_cents = 100,
     cc_start_time = 100, cc_end_time = 1000\<rparr>"

lemma sample_command_not_blank:
  "\<not> is_blank (cc_listing_id sample_command) \<and> \<not> is_blank (cc_seller_id sample_command)
    \<and> \<not> is_blank (cc_auction_type sample_command)"
  by code_simp

theorem validate_command_iff_witness: "validate_command sample_command 150 = Inr ()"
proof -
  have "i64_range (cc_start_time sample_command + 120)"
    by (simp add: sample_command_def i64_range_def i64_min_def i64_max_def)
  from validate_command_iff [OF this, of 150] show ?thesis
    using sample_command_not_blank by (simp add: sample_command_def)
qed

section \<open>Cursor text\<close>

lemma cursor_parses_back:
  assumes "i64_range (cur_amount_cents c)" and "i64_range (cur_bid_time c)" and "\<not> is_blank (cur_id c)"
  shows "parse_bid_cursor (bid_cursor_to_string c) = Inr c"
proof -
  have three: "(3::nat) = Suc (Suc (Suc 0))" by simp
  have "splitn 3 CHR '':'' (bid_cursor_to_string c) =
    [i64_to_string (cur_amount_cents c), i64_to_string (cur_bid_time c), cur_id c]"
    using splitn_step [OF i64_to_string_no_colon, of "Suc 0"] splitn_step [OF i64_to_string_no_colon, of 0]
    by (simp add: bid_cursor_to_string_def three del: splitn.simps(3))
  then show ?thesis
    using assms by (simp add: parse_bid_cursor_def parse_i64_to_string)
qed

text \<open>The text of a cursor parses back to the cursor, colons in the id included, whenever its
  numbers are i64 values and its id is not blank.\<close>

theorem cursor_roundtrip:
  assumes "i64_range (cur_amount_cents c)" and "i64_range (cur_bid_time c)" and "\<not> is_blank (cur_id c)"
  shows "parse_bid_cursor (bid_cursor_to_string c) = Inr c"
  by (rule cursor_parses_back [OF assms])

theorem cursor_roundtrip_witness:
  "parse_bid_cursor (bid_cursor_to_string \<lparr>cur_amount_cents = 5000, cur_bid_time = - 3, cur_id = ''a:b''\<rparr>)
    = Inr \<lparr>cur_amount_cents = 5000, cur_bid_time = - 3, cur_id = ''a:b''\<rparr>"
proof -
  have "\<not> is_blank ''a:b''" by code_simp
  then show ?thesis
    by (intro cursor_roundtrip) (simp_all add: i64_range_def i64_min_def i64_max_def)
qed

section \<open>Rupiah\<close>

lemma ceil_div_100: "(a + 99) div 100 = (if a mod 100 = 0 then a div 100 else a div 100 + 1)" for a :: int
proof -
  have a: "a = 100 * (a div 100) + a mod 100" "0 \<le> a mod 100" "a mod 100 < 100" by simp_all
  show ?thesis
  proof (cases "a mod 100 = 0")
    case True
    with a show ?thesis by (simp add: int_div_pos_eq [of "a + 99" 100 "a div 100" 99])
  next
    case False
    with a show ?thesis
      by (simp add: int_div_pos_eq [of "a + 99" 100 "a div 100 + 1" "a mod 100 - 1"])
  qed
qed

text \<open>The amount held in the wallet is the smallest number of rupiah that covers a positive bid in
  cents, and nothing for a bid that is not positive.\<close>

theorem rupiah_covers_cents:
  assumes "i64_range a"
  shows "uint (cents_to_rupiah a) = (if a \<le> 0 then 0 else (a + 99) div 100)
    \<and> (0 < a \<longrightarrow> a \<le> 100 * uint (cents_to_rupiah a) \<and> 100 * (uint (cents_to_rupiah a) - 1) < a)"
proof (cases "a \<le> 0")
  case True
  then show ?thesis by (simp add: cents_to_rupiah_def)
next
  case False
  then have u: "uint (u64_of_i64 a) = a" using assms by (simp add: uint_u64_of_i64)
  have d: "uint (u64_of_i64 a div 100) = a div 100" and m: "u64_of_i64 a mod 100 = 0 \<longleftrightarrow> a mod 100 = 0"
    by (simp_all add: uint_div u word_uint_eq_iff uint_mod)
  have "a div 100 + 1 < 18446744073709551616"
    using assms False div_mult_mod_eq [of a 100] pos_mod_sign [of 100 a]
    unfolding i64_range_def i64_max_def by linarith
  then have small: "a div 100 + 1 < 2 ^ 64" by simp
  have "uint (u64_of_i64 a div 100 + 1) = a div 100 + 1"
    using d small False by (simp add: uint_word_ariths)
  with d m False have "uint (cents_to_rupiah a) = (if a mod 100 = 0 then a div 100 else a div 100 + 1)"
    by (simp add: cents_to_rupiah_def u64_div_ceil_def)
  also have "\<dots> = (a + 99) div 100" by (simp add: ceil_div_100)
  finally have eq: "uint (cents_to_rupiah a) = (a + 99) div 100" .
  have bounds: "n = 100 * q + m \<Longrightarrow> 0 \<le> m \<Longrightarrow> m < 100 \<Longrightarrow> n - 99 \<le> 100 * q \<and> 100 * (q - 1) < n - 99" for n q m :: int
    by auto
  have "a \<le> 100 * ((a + 99) div 100) \<and> 100 * ((a + 99) div 100 - 1) < a"
    using bounds [of "a + 99" "(a + 99) div 100" "(a + 99) mod 100"] by simp
  then show ?thesis using False by (simp only: eq if_False simp_thms)
qed

theorem rupiah_covers_cents_witness: "uint (cents_to_rupiah 12345) = 124"
  using rupiah_covers_cents [of 12345] by (simp add: i64_range_def i64_min_def i64_max_def)

section \<open>Auction types\<close>

lemma storage_text_reads_back:
  "auction_type_from_input (Some ''ENGLISH'') = Inr English"
  "auction_type_from_input (Some ''SCHOLARSHIP'') = Inr Scholarship"
  "auction_type_from_input (Some ''MULTI_SLOT_REGIONAL'') = Inr MultiSlotRegional"
  "auction_type_from_input (Some ''ENTERPRISE'') = Inr Enterprise"
  by code_simp+

text \<open>The strategy registry and the workflow factory agree: both admit English auctions and refuse
  every other recognised type with the same message; and the storage text of a type reads back.\<close>

theorem strategies_agree:
  "resolve_strategy t = workflow_create t \<and> (workflow_create t = Inr () \<longleftrightarrow> t = English)
    \<and> auction_type_from_input (Some (as_storage_value t)) = Inr t"
proof -
  have "auction_type_from_input (Some (as_storage_value t)) = Inr t"
    by (cases t) (simp_all add: storage_text_reads_back)
  then show ?thesis
    by (cases t) (simp_all add: resolve_strategy_def registry_resolve_def default_registry_def register_def
        english_strategy_def unsupported_strategy_def)
qed

end
