(* ===== verification/ServiceRun.thy ===== *)
theory ServiceRun
  imports ServiceSteps PolicyFacts
begin

text \<open>
  Sequences of calls on the whole service, in any order, each in its own environment (so with any
  faults, clocks, wallet and catalogue answers). Every sequence is a sequence of steps of the tables.
\<close>

text \<open>The public operations of \<^verbatim>\<open>AuctionService\<close> and of the two schedulers that write.\<close>

datatype service_op =
    CreateAuction create_auction_command
  | PlaceBid string string i64 i64
  | PlaceProxyBid string string i64 i64
  | DeleteProxyBid string string
  | CloseAuction string
  | ClosePending
  | PublishPending i64 publisher

fun service_exec :: "env \<Rightarrow> service_op \<Rightarrow> world \<Rightarrow> world" where
  "service_exec env (CreateAuction c) w = snd (create_auction env c w)"
| "service_exec env (PlaceBid i u n t) w = snd (place_bid_and_persist env i u n t w)"
| "service_exec env (PlaceProxyBid i u n t) w = snd (place_proxy_bid_and_persist env i u n t w)"
| "service_exec env (DeleteProxyBid i u) w = snd (delete_proxy_bid env i u w)"
| "service_exec env (CloseAuction i) w = snd (close_auction env i w)"
| "service_exec env ClosePending w = snd (close_pending env w :: (unit + _) \<times> _)"
| "service_exec env (PublishPending limit publish) w = snd (publish_pending env limit publish w)"

definition service_run :: "(env \<times> service_op) list \<Rightarrow> world \<Rightarrow> world" where
  "service_run calls w = fold (\<lambda>(env, op) w. service_exec env op w) calls w"

lemma exec_steps: "stepping w (service_exec env op w)"
proof (cases op)
  case (CreateAuction c)
  then show ?thesis
    using stepping_create_auction_core by (simp add: create_auction_def create_auction_handler_def keeps_def)
next
  case (PlaceBid i u n t)
  then show ?thesis
    using step_service.placed_bid
    by (simp add: place_bid_and_persist_def place_bid_handler_def place_bid_core_def keeps_def)
next
  case (PlaceProxyBid i u n t)
  then show ?thesis
    using step_service.placed_bid
    by (simp add: place_proxy_bid_and_persist_def place_proxy_bid_handler_def place_proxy_bid_core_def keeps_def)
next
  case (DeleteProxyBid i u)
  then show ?thesis
    using stepping_delete_proxy_bid_core
    by (simp add: delete_proxy_bid_def list_bid_query_delete_proxy_bid_def keeps_def)
next
  case (CloseAuction i)
  then show ?thesis
    using stepping_close_auction_core by (simp add: close_auction_def close_handler_close_def keeps_def)
next
  case ClosePending
  then show ?thesis by (simp add: stepping_close_pending [unfolded keeps_def])
next
  case (PublishPending limit publish)
  then show ?thesis using stepping_publish_pending by (simp add: keeps_def)
qed

lemma run_steps: "stepping w (service_run calls w)"
proof (induction calls arbitrary: w)
  case Nil
  then show ?case by (simp add: service_run_def stepping.R_refl)
next
  case (Cons c calls)
  obtain env op where c: "c = (env, op)" by force
  have "stepping (service_exec env op w) (service_run (c # calls) w)"
    using Cons.IH [of "service_exec env op w"] c by (simp add: service_run_def)
  then show ?case using exec_steps stepping.R_trans by blast
qed

text \<open>The polling task of the closure scheduler is such a sequence.\<close>

lemma close_polling_is_run: "close_polling envs w = service_run (map (\<lambda>env. (env, ClosePending)) envs) w"
  by (induction envs arbitrary: w) (simp_all add: service_run_def)

end
