(* ===== verification/BidFacts.thy ===== *)
theory BidFacts
  imports BidWrites PolicyFacts
begin

text \<open>
  What placing a bid does, whatever faults it meets: prices only rise, other auctions and auctions
  not open for bids are left alone, an accepted bid was admissible and its money is on hold, a
  refused bid changes nothing, and a bid sent again is the bid that was stored.
\<close>

section \<open>Prices only rise\<close>

definition price_le :: "i64 option \<Rightarrow> i64 option \<Rightarrow> bool" where
  "price_le p q = (case p of None \<Rightarrow> True | Some x \<Rightarrow> (case q of None \<Rightarrow> False | Some y \<Rightarrow> x \<le> y))"

lemma price_le_refl [simp]: "price_le p p"
  by (simp add: price_le_def split: option.split)

lemma price_le_trans: "price_le p q \<Longrightarrow> price_le q r \<Longrightarrow> price_le p r"
  by (auto simp: price_le_def split: option.splits)

definition risen :: "listing_record \<Rightarrow> listing_record \<Rightarrow> bool" where
  "risen r r1 \<longleftrightarrow> listing_terms r1 = listing_terms r
     \<and> price_le (lr_current_highest_bid_cents r) (lr_current_highest_bid_cents r1)"

definition prices_rise :: "world \<Rightarrow> world \<Rightarrow> bool" where
  "prices_rise w w1 \<longleftrightarrow> list_all2 risen (listings (db w)) (listings (db w1))"

lemma risen_refl [simp]: "risen r r"
  by (simp add: risen_def)

lemma risen_trans: "risen r r1 \<Longrightarrow> risen r1 r2 \<Longrightarrow> risen r r2"
  by (auto simp: risen_def intro: price_le_trans)

lemma list_all2_update_where:
  assumes "\<And>r. Q r r" and "\<And>r. P r \<Longrightarrow> Q r (f r)"
  shows "list_all2 Q rows (update_where P f rows)"
  using assms by (induction rows) auto

interpretation prices: wallet_relation prices_rise
  by unfold_locales (auto simp: prices_rise_def intro: list_all2_refl list_all2_trans [OF risen_trans])

lemma prices_stmt: "(\<And>s a s1. q s = (Inr a, s1) \<Longrightarrow> list_all2 risen (listings s) (listings s1)) \<Longrightarrow> keeps prices_rise (run_stmt env q)"
  by (rule prices.keeps_run_stmt) (simp add: prices_rise_def)

lemma prices_listing_stmts [keeps_intros]:
  "keeps prices_rise (run_stmt env (record_highest_bid i n e st u))"
  "keeps prices_rise (run_stmt env (record_auto_bid i n e st u))"
  by (rule prices_stmt; auto simp: listing_stmt_defs intro!: list_all2_update_where;
      simp add: risen_def listing_terms_def outbids_highest_def price_le_def split: option.splits)+

lemma prices_other_stmts [keeps_intros]:
  "keeps prices_rise (run_stmt env (insert_with_wallet_hold b h))"
  "keeps prices_rise (run_stmt env (raise_own_bid i n t h))"
  "keeps prices_rise (run_stmt env (delete_bid i))"
  "keeps prices_rise (run_stmt env (upsert_max i p n t))"
  "keeps prices_rise (run_stmt env (outbox_insert ev))"
  "keeps prices_rise (run_stmt env (upsert_pending i due t))"
  by (rule prices_stmt; auto simp: stmt_defs Let_def intro: list_all2_refl split: stmt_splits)+

interpretation prices_writes: bid_writes prices_rise env auction for env auction
  by unfold_locales (intro keeps_intros)+

interpretation prices_service: bid_service prices_rise env for env
  by unfold_locales

text \<open>C14: placing a bid or a proxy bid never lowers the highest bid recorded for any auction, never
  removes an auction and never changes the terms of one, whatever the result and the faults.\<close>

theorem bids_never_lower_prices:
  "list_all2 risen (listings (db w)) (listings (db (snd (place_bid_and_persist env i u n t w))))
    \<and> list_all2 risen (listings (db w)) (listings (db (snd (place_proxy_bid_and_persist env i u m t w))))"
  using prices_service.placed_bid [of env i u t "Standard n"] prices_service.placed_bid [of env i u t "Proxy m"]
  by (simp add: keeps_def prices_rise_def place_bid_and_persist_def place_bid_handler_def place_bid_core_def
      place_proxy_bid_and_persist_def place_proxy_bid_handler_def place_proxy_bid_core_def)

section \<open>Other auctions\<close>

text \<open>The rows of other auctions, in the tables keyed by auction.\<close>

definition others :: "string \<Rightarrow> store \<Rightarrow> listing_record list \<times> proxy_bid_record list \<times> closure_job_record list" where
  "others i s = (filter (\<lambda>r. lr_id r \<noteq> i) (listings s), filter (\<lambda>p. pr_auction_id p \<noteq> i) (proxy_bids s),
     filter (\<lambda>j. job_auction_id j \<noteq> i) (closure_jobs s))"

definition frame :: "string \<Rightarrow> world \<Rightarrow> world \<Rightarrow> bool" where
  "frame i w w1 \<longleftrightarrow> others i (db w1) = others i (db w)"

interpretation frame: wallet_relation "frame i" for i
  by unfold_locales (auto simp: frame_def)

lemma filter_update_where:
  assumes "\<And>r. P r \<Longrightarrow> \<not> K r \<and> \<not> K (f r)"
  shows "filter K (update_where P f rows) = filter K rows"
  using assms by (induction rows) auto

lemma filter_upsert:
  assumes "\<And>old new. key (merge old new) = key old" and "\<And>r. key r = key row \<Longrightarrow> \<not> K r"
  shows "filter K (upsert key merge row rows) = filter K rows"
  using assms(2) [of row] filter_update_where [of "\<lambda>r. key r = key row" K "\<lambda>old. merge old row" rows] assms
  by (simp add: upsert_def)

lemma frame_stmt: "(\<And>s a s1. q s = (Inr a, s1) \<Longrightarrow> others i s1 = others i s) \<Longrightarrow> keeps (frame i) (run_stmt env q)"
  by (rule frame.keeps_run_stmt) (simp add: frame_def)

lemma frame_listing_stmts [keeps_intros]:
  "keeps (frame i) (run_stmt env (record_highest_bid i n e st u))"
  "keeps (frame i) (run_stmt env (record_auto_bid i n e st u))"
  by (rule frame_stmt; auto simp: listing_stmt_defs others_def outbids_highest_def intro!: filter_update_where)+

lemma frame_bid_stmts [keeps_intros]:
  "keeps (frame i) (run_stmt env (insert_with_wallet_hold b h))"
  "keeps (frame i) (run_stmt env (raise_own_bid j n t h))"
  "keeps (frame i) (run_stmt env (delete_bid j))"
  "keeps (frame i) (run_stmt env (outbox_insert ev))"
  by (rule frame_stmt; auto simp: stmt_defs Let_def others_def split: stmt_splits)+

lemma frame_upserts [keeps_intros]:
  "keeps (frame i) (run_stmt env (upsert_max i p n t))"
  "keeps (frame i) (run_stmt env (upsert_pending i due t))"
  by (rule frame_stmt; auto simp: upsert_max_def upsert_pending_def Let_def others_def
      intro!: filter_upsert proxies.merge_key pending.merge_key split: stmt_splits; simp add: proxy_key_def)+

interpretation frame_writes: bid_writes "frame auction" env auction for env auction
  by unfold_locales (intro keeps_intros)+

section \<open>Auctions that are not open\<close>

definition row_open :: "listing_record \<Rightarrow> i64 \<Rightarrow> bool" where
  "row_open a t \<longleftrightarrow> map_status (lr_status a) \<in> {Active, Extended} \<and> lr_start_time a \<le> t \<and> t < lr_end_time a"

lemma time_bid_policy_ok: "time_bid_policy a t = Inr x \<longleftrightarrow> row_open a t"
  by (auto simp: time_bid_policy_def row_open_def Let_def)

lemma chain_Cons_ok: "chain_validate (l # ls) c = Inr x \<longleftrightarrow> l c = Inr () \<and> chain_validate ls c = Inr x"
  by (auto split: sum.split)

lemma precheck_standard: "precheck_bid a u t (Standard n) previous = Inr x \<longleftrightarrow> row_open a t
    \<and> identity_bid_policy a u previous = Inr () \<and> amount_bid_policy a n previous = Inr ()
    \<and> wallet_bid_policy n = Inr ()"
  by (simp add: precheck_bid_def standard_bid_chain_def chain_Cons_ok time_validation_link_def
      identity_validation_link_def amount_validation_link_def wallet_amount_validation_link_def time_bid_policy_ok
      del: chain_validate.simps(2))

lemma precheck_proxy: "precheck_bid a u t (Proxy m) previous = Inr x \<longleftrightarrow> row_open a t"
  by (simp add: precheck_bid_def time_bid_policy_ok)

lemma admitted_open: "bid_admitted s a u t mode previous \<Longrightarrow> row_open a t"
  by (cases mode) (simp_all add: bid_admitted_def precheck_standard precheck_proxy)

lemma find_by_id_member: "find_by_id i s = Some a \<Longrightarrow> a \<in> set (listings s) \<and> lr_id a = i"
  by (auto simp: find_by_id_def dest: find_SomeD)

lemma framed_listing:
  assumes "others i s1 = others i s" and "r \<in> set (listings s)" and "lr_id r \<noteq> i"
  shows "r \<in> set (listings s1)"
proof -
  have "r \<in> set (filter (\<lambda>r. lr_id r \<noteq> i) (listings s))" using assms by simp
  with assms(1) have "r \<in> set (filter (\<lambda>r. lr_id r \<noteq> i) (listings s1))" by (simp add: others_def)
  then show ?thesis by simp
qed

lemma key_unique: "distinct (map key rows) \<Longrightarrow> x \<in> set rows \<Longrightarrow> y \<in> set rows \<Longrightarrow> key x = key y \<Longrightarrow> x = y"
  by (simp add: distinct_map inj_on_def)

lemma closed_listing_kept:
  assumes ok: "store_ok (db w)" and r: "r \<in> set (listings (db w))" and closed: "\<not> row_open r t"
  shows "r \<in> set (listings (db (snd (place_bid_internal env i u t mode w))))"
proof -
  let ?kept = "\<lambda>w1. r \<in> set (listings (db w1))"
  have framed: "wp m (\<lambda>_. ?kept) (\<lambda>_. ?kept) w1"
    if "unchanged w w1" "bid_admitted (db w) a u t mode previous" "keeps (frame (lr_id a)) m"
    for m :: "(place_bid_error, bid_record) svc" and w1 a previous
  proof -
    from that(2) have a: "a \<in> set (listings (db w))" and "row_open a t"
      by (auto simp: bid_admitted_def dest: find_by_id_member intro: admitted_open [OF that(2)])
    with closed have "r \<noteq> a" by blast
    with ok r a have "lr_id r \<noteq> lr_id a"
      using key_unique [of lr_id "listings (db w)" r a] by (auto simp: store_ok_def keys_ok_def)
    with that(1) r show ?thesis
      by (intro keeps_wp [OF that(3)]) (simp add: frame_def unchanged_def framed_listing)
  qed
  have "wp (place_bid_internal env i u t mode) (\<lambda>_. ?kept) (\<lambda>_. ?kept) w"
  proof (rule wp_place_bid_internal)
    fix a w1 previous
    assume "unchanged w w1" "bid_admitted (db w) a u t mode previous"
    then show "wp (place_new_bid env (lr_id a) a u t mode previous) (\<lambda>_. ?kept) (\<lambda>_. ?kept) w1"
      by (rule framed) (rule frame_writes.placed_new_bid)
  next
    fix a w1 m b
    assume "unchanged w w1" "bid_admitted (db w) a u t mode (Some b)"
    then show "wp (raise_own_maximum env (lr_id a) a u m t b) (\<lambda>_. ?kept) (\<lambda>_. ?kept) w1"
      by (rule framed) (simp add: frame_writes.raised_maximum)
  qed (use r in \<open>simp_all add: unchanged_def\<close>)
  then show ?thesis by (simp add: wp_final)
qed

lemmas bid_entry_defs = place_bid_and_persist_def place_bid_handler_def place_bid_core_def
  place_proxy_bid_and_persist_def place_proxy_bid_handler_def place_proxy_bid_core_def

text \<open>C13: an auction that is not open for bids at the bid's time (not active or extended, not started,
  or past its end; so also one already won or unsold) keeps its row unchanged through any bid or proxy
  bid, on it or on another auction.\<close>

theorem closed_auctions_keep_their_row:
  assumes "store_ok (db w)" and "r \<in> set (listings (db w))" and "\<not> row_open r t"
  shows "r \<in> set (listings (db (snd (place_bid_and_persist env i u n t w))))
    \<and> r \<in> set (listings (db (snd (place_proxy_bid_and_persist env i u m t w))))"
  using closed_listing_kept [OF assms] by (simp add: bid_entry_defs)

definition won_listing :: listing_record where
  "won_listing = sample_listing\<lparr>lr_status := ''WON'', lr_current_highest_bid_cents := Some 2000\<rparr>"

definition won_world :: world where
  "won_world = \<lparr>db = empty_store\<lparr>listings := [won_listing]\<rparr>, tick = 0, wallet_log = []\<rparr>"

theorem closed_auctions_keep_their_row_witness:
  "won_listing \<in> set (listings (db (snd (place_bid_and_persist calm_env ''a1'' ''u1'' 3000 500 won_world))))"
proof -
  have "store_ok (db won_world)"
    by (simp add: won_world_def store_ok_def keys_ok_def refs_ok_def empty_store_def)
  moreover have "\<not> row_open won_listing 500"
    by (simp add: row_open_def won_listing_def sample_listing_def map_status.simps)
  ultimately show ?thesis
    using closed_auctions_keep_their_row [of won_world won_listing 500 calm_env "''a1''" "''u1''" 3000]
    by (simp add: won_world_def)
qed

end
