(* ===== verification/BidOutcome.thy ===== *)
theory BidOutcome
  imports BidFacts
begin

text \<open>
  The result of placing a bid: what an accepted bid was and which money is on hold for it, what a
  refused bid leaves behind, and what a bid sent twice does.
\<close>

section \<open>The wallet's log and the proxy bids\<close>

definition log_grows :: "world \<Rightarrow> world \<Rightarrow> bool" where
  "log_grows w w1 \<longleftrightarrow> set (wallet_log w) \<subseteq> set (wallet_log w1)"

interpretation log_grows: wallet_relation log_grows
  by unfold_locales (auto simp: log_grows_def)

lemma log_grows_stmt [keeps_intros]: "keeps log_grows (run_stmt env q)"
  by (rule log_grows.keeps_run_stmt) (simp add: log_grows_def)

interpretation log_grows_writes: bid_writes log_grows env auction for env auction
  by unfold_locales (intro keeps_intros)+

text \<open>Placing a standard bid stores no proxy bid.\<close>

definition proxies_same :: "world \<Rightarrow> world \<Rightarrow> bool" where
  "proxies_same w w1 \<longleftrightarrow> proxy_bids (db w1) = proxy_bids (db w)"

interpretation proxies_same: wallet_relation proxies_same
  by unfold_locales (auto simp: proxies_same_def)

lemma proxies_same_stmts [keeps_intros]:
  "keeps proxies_same (run_stmt env (record_highest_bid i n e st u))"
  "keeps proxies_same (run_stmt env (insert_with_wallet_hold b h))"
  "keeps proxies_same (run_stmt env (outbox_insert ev))"
  "keeps proxies_same (run_stmt env (upsert_pending i due t))"
  by (rule proxies_same.keeps_run_stmt; auto simp: proxies_same_def stmt_defs Let_def split: stmt_splits)+

lemma proxies_same_stages [keeps_intros]:
  "keeps proxies_same (release_previous_hold env u prev)"
  "keeps proxies_same (hold_for_bid env u i b n t)"
  "keeps proxies_same (insert_bid_or_release env nb h)"
  "keeps proxies_same (notify_outbid env a u prev n)"
  "keeps proxies_same (record_accepted_listing env i a n e st t)"
  unfolding release_previous_hold_def hold_for_bid_def insert_bid_or_release_def release_quietly_def
    notify_outbid_def publish_outbid_event_def record_accepted_listing_def Let_def
  by (intro keeps_intros)+

section \<open>Errors after the checks\<close>

fun late_error :: "place_bid_error \<Rightarrow> bool" where
  "late_error (PlaceWalletError m) \<longleftrightarrow> True"
| "late_error (PlaceDatabaseError m) \<longleftrightarrow> True"
| "late_error e \<longleftrightarrow> False"

definition fails_late :: "(place_bid_error, 'a) svc \<Rightarrow> bool" where
  "fails_late m \<longleftrightarrow> (\<forall>w. wp m (\<lambda>_ _. True) (\<lambda>e _. late_error e) w)"

named_theorems late_intros

lemma fails_late_bindS [late_intros]: "fails_late m \<Longrightarrow> (\<And>a. fails_late (f a)) \<Longrightarrow> fails_late (bindS m f)"
  unfolding fails_late_def wp_bindS by (blast intro: wp_mono)

lemma fails_late_basic [late_intros]:
  "fails_late (ret a)" "fails_late (throw (PlaceDatabaseError e))" "fails_late (db_err m)"
  "fails_late (map_err (\<lambda>e. PlaceWalletError (g e)) m')" "fails_late (ignore_result m2)"
  "fails_late (attempt m3)" "fails_late (utc_now env)" "fails_late (new_uuid env)"
  by (simp_all add: fails_late_def wp_simps)

lemma fails_late_cases [late_intros]:
  "(b \<Longrightarrow> fails_late m) \<Longrightarrow> (\<not> b \<Longrightarrow> fails_late n) \<Longrightarrow> fails_late (if b then m else n)"
  "fails_late m' \<Longrightarrow> (\<And>a. fails_late (f a)) \<Longrightarrow> fails_late (case x of None \<Rightarrow> m' | Some a \<Rightarrow> f a)"
  "(\<And>e. fails_late (g e)) \<Longrightarrow> (\<And>a. fails_late (k a)) \<Longrightarrow> fails_late (case y of Inl e \<Rightarrow> g e | Inr a \<Rightarrow> k a)"
  "(\<And>a b. fails_late (h a b)) \<Longrightarrow> fails_late (case z of (a, b) \<Rightarrow> h a b)"
  by (auto split: option.split sum.split prod.split)

lemma fails_late_stages [late_intros]:
  "fails_late (release_previous_hold env u prev)"
  "fails_late (hold_for_bid env u i b n t)"
  "fails_late (insert_bid_or_release env nb h)"
  "fails_late (notify_outbid env a u prev n)"
  "fails_late (record_accepted_listing env i a n e st t)"
  unfolding release_previous_hold_def hold_for_bid_def insert_bid_or_release_def release_quietly_def
    notify_outbid_def record_accepted_listing_def Let_def
  by (intro late_intros)+

lemma wp_late_bind:
  assumes "keeps R m" and "fails_late m" and "\<And>a w1. R w w1 \<Longrightarrow> wp (f a) Q E w1"
    and "\<And>e w1. late_error e \<Longrightarrow> E e w1"
  shows "wp (bindS m f) Q E w"
proof -
  have "wp m (\<lambda>_ w1. R w w1 \<and> True) (\<lambda>e w1. R w w1 \<and> late_error e) w"
    using assms(1,2) by (intro wp_conj) (simp_all add: keeps_iff_wp fails_late_def)
  then show ?thesis unfolding wp_bindS by (rule wp_mono) (use assms(3,4) in auto)
qed

lemma no_proxies_resolve:
  assumes "\<forall>p \<in> set (proxy_bids (db w)). pr_auction_id p \<noteq> i"
  shows "wp (resolve_proxy_auto_bid env i a t) (\<lambda>_ _. True) (\<lambda>e _. late_error e) w"
proof -
  have "list_by_auction i (db w) = []" using assms by (simp add: list_by_auction_def filter_empty_conv)
  then show ?thesis by (simp add: resolve_proxy_auto_bid_def wp_simps split: option.split)
qed

lemma accept_bid_late:
  assumes none: "\<forall>p \<in> set (proxy_bids (db w)). pr_auction_id p \<noteq> i"
  shows "wp (accept_bid env i a u t prev res st) (\<lambda>_ _. True) (\<lambda>e _. late_error e) w"
proof -
  have bind: "wp (bindS m f) (\<lambda>_ _. True) (\<lambda>e _. late_error e) w1"
    if "proxies_same w w1" "keeps proxies_same m" "fails_late m"
      "\<And>a w2. proxies_same w w2 \<Longrightarrow> wp (f a) (\<lambda>_ _. True) (\<lambda>e _. late_error e) w2"
    for m :: "(place_bid_error, 'm) svc" and f :: "'m \<Rightarrow> (place_bid_error, 'n) svc" and w1
    by (rule wp_late_bind [OF that(2,3)]) (use that(1,4) in \<open>auto intro: proxies_same.R_trans\<close>)
  have late: "fails_late (bindS (db_err m) (\<lambda>_. ret b))" for m :: "(string, unit) svc" and b :: bid_record
    by (intro late_intros)
  have rest: "wp (bindS (resolve_proxy_auto_bid env i a' t) (\<lambda>_. bindS (db_err m) (\<lambda>_. ret b)))
      (\<lambda>_ _. True) (\<lambda>e _. late_error e) w1"
    if "proxies_same w w1" for a' w1 and m :: "(string, unit) svc" and b :: bid_record
    unfolding wp_bindS [of "resolve_proxy_auto_bid env i a' t"]
    by (rule wp_mono [OF no_proxies_resolve])
      (use that none late [of m b] in \<open>simp_all add: proxies_same_def fails_late_def\<close>)
  show ?thesis
    unfolding accept_bid_def Let_def
    by (intro bind rest keeps_intros late_intros) (assumption | simp add: proxies_same.R_refl)+
qed

lemma place_new_standard_late:
  assumes w: "unchanged w0 w" and none: "\<forall>p \<in> set (proxy_bids (db w0)). pr_auction_id p \<noteq> i"
  shows "wp (place_new_bid env i a u t (Standard n) prev) (\<lambda>_ _. True)
    (\<lambda>e w1. late_error e \<or> unchanged w0 w1) w"
proof -
  have accept: "wp (accept_bid env i a u t prev res st) (\<lambda>_ _. True) (\<lambda>e w1. late_error e \<or> unchanged w0 w1) w1"
    if "unchanged w0 w1" for res st w1
    by (rule wp_mono [OF accept_bid_late]) (use that none in \<open>auto simp: unchanged_def\<close>)
  show ?thesis
    unfolding place_new_bid_def
    apply (rule wp_read_bind [OF w], intro keeps_intros, simp)
    apply (rule wp_read_bind, assumption, intro keeps_intros, simp)
    apply (rule wp_of_result_bind, assumption, simp)
    apply (rule wp_of_result_bind, assumption, simp)
    apply (simp add: wp_simps accept)
    done
qed


definition open_world :: world where
  "open_world = \<lparr>db = empty_store\<lparr>listings := [sample_listing]\<rparr>, tick = 0, wallet_log = []\<rparr>"

lemma won_world_bid: "fst (place_bid_and_persist calm_env ''a1'' ''u1'' 3000 500 won_world)
    = Inl (PlaceBidError (AuctionNotActive Won))"
  by code_simp


section \<open>Accepted bids\<close>

text \<open>The bid's money is on hold: the wallet granted exactly this bid's amount to this bidder, and the
  stored row refers to that hold.\<close>

definition money_on_hold :: "env \<Rightarrow> bid_record \<Rightarrow> world \<Rightarrow> bool" where
  "money_on_hold env b w \<longleftrightarrow>
     (case env_wallet env of
        None \<Rightarrow> br_wallet_hold_id b = None
      | Some _ \<Rightarrow> (\<exists>q resp. HoldCall q (Inr resp) \<in> set (wallet_log w) \<and> br_wallet_hold_id b = Some (hr_id resp)
          \<and> hf_user_id q = br_bidder_id b \<and> hf_auction_id q = br_auction_id b \<and> hf_bid_id q = br_id b
          \<and> hf_amount q = cents_to_rupiah (br_bid_amount_cents b)))"

lemma money_on_hold_grows: "log_grows w w1 \<Longrightarrow> money_on_hold env b w \<Longrightarrow> money_on_hold env b w1"
  by (auto simp: money_on_hold_def log_grows_def split: option.splits)

lemma money_on_holdI:
  "env_wallet env = Some wallet \<Longrightarrow> HoldCall q (Inr resp) \<in> set (wallet_log w)
    \<Longrightarrow> br_wallet_hold_id b = Some (hr_id resp) \<Longrightarrow> hf_user_id q = br_bidder_id b
    \<Longrightarrow> hf_auction_id q = br_auction_id b \<Longrightarrow> hf_bid_id q = br_id b
    \<Longrightarrow> hf_amount q = cents_to_rupiah (br_bid_amount_cents b) \<Longrightarrow> money_on_hold env b w"
  by (auto simp: money_on_hold_def)

lemma wp_hold_for_bid: "wp (hold_for_bid env u i j n e)
   (\<lambda>h w1. \<forall>t. money_on_hold env (bid_of_new \<lparr>nb_id = j, nb_auction_id = i, nb_bidder_id = u,
       nb_bid_amount_cents = n, nb_bid_time = t\<rparr> h) w1) (\<lambda>_ _. True) w"
proof (cases "env_wallet env")
  case None
  then show ?thesis by (simp add: hold_for_bid_def wp_simps money_on_hold_def bid_of_new_def)
next
  case (Some wallet)
  then show ?thesis
    by (auto simp: hold_for_bid_def wp_simps bid_of_new_def intro!: money_on_holdI [OF Some] split: sum.split)
qed

lemma wp_insert_bid: "wp (insert_bid_or_release env nb h)
   (\<lambda>b w1. b = bid_of_new nb h \<and> log_grows w w1) (\<lambda>_ _. True) w"
  by (auto simp: insert_bid_or_release_def insert_with_wallet_hold_def wp_simps log_grows_def
      split: option.split sum.split prod.split)

lemma wp_bind_keeps:
  assumes "keeps log_grows m" and "log_grows w0 w" and "\<And>a w1. log_grows w0 w1 \<Longrightarrow> wp (f a) Q (\<lambda>_ _. True) w1"
  shows "wp (bindS m f) Q (\<lambda>_ _. True) w"
proof -
  have "wp m (\<lambda>_. log_grows w0) (\<lambda>_. log_grows w0) w"
    using log_grows.wp_keeps [OF assms(1,2)] .
  then show ?thesis unfolding wp_bindS by (rule wp_mono) (use assms(3) in auto)
qed

lemma accept_bid_result:
  fixes env i a u t prev res st
  defines "n \<equiv> i64_of_u64 (cents (bid_amount (new_highest res)))"
  shows "wp (accept_bid env i a u t prev res st)
    (\<lambda>b w1. br_auction_id b = i \<and> br_bidder_id b = u \<and> br_bid_amount_cents b = n \<and> br_bid_time b = t
       \<and> money_on_hold env b w1) (\<lambda>_ _. True) w"
proof -
  let ?Q = "\<lambda>b w1. br_auction_id b = i \<and> br_bidder_id b = u \<and> br_bid_amount_cents b = n \<and> br_bid_time b = t
       \<and> money_on_hold env b w1"
  have main: "wp (bindS (insert_bid_or_release env
        \<lparr>nb_id = j, nb_auction_id = i, nb_bidder_id = u, nb_bid_amount_cents = n, nb_bid_time = t\<rparr> h) (\<lambda>inserted.
      bindS (notify_outbid env a u prev n) (\<lambda>_.
      bindS (record_accepted_listing env i a n e (status_to_string st) t) (\<lambda>updated.
      bindS (db_err (run_stmt env (upsert_pending i (lr_end_time updated) t))) (\<lambda>_.
      bindS (resolve_proxy_auto_bid env i updated t) (\<lambda>_.
      bindS (db_err (publish_bid_placed_event env updated inserted)) (\<lambda>_.
      ret inserted))))))) ?Q (\<lambda>_ _. True) w2"
    if "\<forall>t. money_on_hold env (bid_of_new \<lparr>nb_id = j, nb_auction_id = i, nb_bidder_id = u,
       nb_bid_amount_cents = n, nb_bid_time = t\<rparr> h) w2" for j h e w2
    unfolding wp_bindS [of "insert_bid_or_release env x h" for x]
  proof (rule wp_mono [OF wp_insert_bid], erule conjE)
    fix b w3
    assume b: "b = bid_of_new \<lparr>nb_id = j, nb_auction_id = i, nb_bidder_id = u, nb_bid_amount_cents = n, nb_bid_time = t\<rparr> h"
      and g: "log_grows w2 w3"
    have held: "?Q b w4" if "log_grows w3 w4" for w4
      using money_on_hold_grows [OF log_grows.R_trans [OF g that]] \<open>\<forall>t. money_on_hold env _ w2\<close> b
      by (simp add: bid_of_new_def)
    let ?tail = "bindS (notify_outbid env a u prev n) (\<lambda>_.
      bindS (record_accepted_listing env i a n e (status_to_string st) t) (\<lambda>updated.
      bindS (db_err (run_stmt env (upsert_pending i (lr_end_time updated) t))) (\<lambda>_.
      bindS (resolve_proxy_auto_bid env i updated t) (\<lambda>_.
      bindS (db_err (publish_bid_placed_event env updated b)) (\<lambda>_.
      ret b)))))"
    have "wp ?tail (\<lambda>x w4. log_grows w3 w4 \<and> x = b) (\<lambda>_ w4. log_grows w3 w4 \<and> True) w3"
    proof (rule wp_conj)
      show "wp ?tail (\<lambda>_. log_grows w3) (\<lambda>_. log_grows w3) w3"
        by (rule log_grows.wp_keeps [OF _ log_grows.R_refl]) (intro keeps_intros)
    qed (simp add: wp_bindS wp_ret)
    then show "wp ?tail ?Q (\<lambda>_ _. True) w3"
      by (rule wp_mono) (use held in auto)
  qed simp
  show ?thesis
    unfolding accept_bid_def Let_def n_def [symmetric]
    apply (rule wp_bind_keeps [of _ w w], intro keeps_intros, rule log_grows.R_refl)
    apply (rule wp_bind_keeps, intro keeps_intros, assumption)
    apply (subst wp_bindS, rule wp_mono [OF wp_hold_for_bid])
     apply (erule main)
    apply simp
    done
qed

text \<open>What a standard bid must satisfy on the stored rows.\<close>

definition admissible_bid :: "listing_record \<Rightarrow> string \<Rightarrow> i64 \<Rightarrow> i64 \<Rightarrow> bid_record option \<Rightarrow> bool" where
  "admissible_bid a u n t winning \<longleftrightarrow> row_open a t \<and> u \<noteq> lr_seller_id a \<and> 0 < n
     \<and> (case winning of
          None \<Rightarrow> lr_starting_price_cents a \<le> n
        | Some b \<Rightarrow> br_bidder_id b \<noteq> u \<and> i64_add (br_bid_amount_cents b) (lr_minimum_increment_cents a) \<le> n)"

lemma admitted_standard:
  "bid_admitted s a u t (Standard n) previous \<longleftrightarrow> find_by_id (lr_id a) s = Some a
     \<and> previous = find_winning_bid (lr_id a) s \<and> admissible_bid a u n t previous"
  by (auto simp: bid_admitted_def precheck_standard admissible_bid_def identity_bid_policy_def
      amount_bid_policy_def wallet_bid_policy_def not_less not_le Let_def split: option.splits if_splits)

lemma domain_bid_standard:
  "domain_bid s u t (Standard n) = Inr r \<Longrightarrow> bid_amount (new_highest (fst r)) = Money (u64_of_i64 n)"
  by (auto simp: domain_bid_def new_bid_def dest!: place_bid_accepted(3) split: prod.splits sum.splits)

lemma place_new_standard_result:
  assumes "i64_range n"
  shows "wp (place_new_bid env i a u t (Standard n) prev)
    (\<lambda>b w1. br_auction_id b = i \<and> br_bidder_id b = u \<and> br_bid_amount_cents b = n \<and> br_bid_time b = t
       \<and> money_on_hold env b w1) (\<lambda>_ _. True) w"
proof -
  have accept: "wp (accept_bid env i a u t prev (fst r) st)
    (\<lambda>b w1. br_auction_id b = i \<and> br_bidder_id b = u \<and> br_bid_amount_cents b = n \<and> br_bid_time b = t
       \<and> money_on_hold env b w1) (\<lambda>_ _. True) w1"
    if "domain_bid s u t (Standard n) = Inr r" for s r st w1
    using accept_bid_result [of env i a u t prev "fst r" st w1] domain_bid_standard [OF that] assms
    by (simp add: i64_u64_roundtrip)
  show ?thesis
    unfolding place_new_bid_def
    apply (rule wp_bind_keeps [of _ w w], intro keeps_intros, rule log_grows.R_refl)
    apply (rule wp_bind_keeps, intro keeps_intros, assumption)
    apply (auto simp: wp_simps dest: accept split: sum.split)
    done
qed


lemma open_world_bid: "fst (place_bid_and_persist calm_env ''a1'' ''u1'' 3000 500 open_world) = Inr
    \<lparr>br_id = ''id-7'', br_auction_id = ''a1'', br_bidder_id = ''u1'', br_bid_amount_cents = 3000, br_bid_time = 500,
     br_wallet_hold_id = Some ''id-8''\<rparr>"
  by code_simp


text \<open>A standard bid sent again, with the same bidder, amount and time, is answered with a stored
  bid of exactly these values, without touching the tables or the wallet.\<close>

theorem repeated_bid_is_answered:
  assumes "find_by_id i (db w) = Some a" and "find_matching_bid (lr_id a) u n t (db w) = Some b"
    and "\<And>k. env_db_fault env k = None"
  shows "\<exists>w1. place_bid_and_persist env i u n t w = (Inr b, w1) \<and> db w1 = db w \<and> wallet_log w1 = wallet_log w
    \<and> br_auction_id b = lr_id a \<and> br_bidder_id b = u \<and> br_bid_amount_cents b = n \<and> br_bid_time b = t"
proof -
  have "wp (place_bid_internal env i u t (Standard n)) (\<lambda>x w1. x = b \<and> unchanged w w1) (\<lambda>_ _. False) w"
    using assms by (simp add: place_bid_internal_def resolve_record_def existing_standard_bid_def wp_simps unchanged_def)
  then obtain w1 where "place_bid_internal env i u t (Standard n) w = (Inr b, w1)" "unchanged w w1"
    by (auto simp: wp_def split: prod.splits sum.splits)
  with find_matching_bid_stored [OF assms(2)] show ?thesis by (simp add: bid_entry_defs unchanged_def)
qed

definition bid_world :: world where
  "bid_world = \<lparr>db = empty_store\<lparr>listings := [sample_listing], bids := [\<lparr>br_id = ''b1'', br_auction_id = ''a1'',
     br_bidder_id = ''u1'', br_bid_amount_cents = 3000, br_bid_time = 500, br_wallet_hold_id = Some ''h1''\<rparr>]\<rparr>,
     tick = 0, wallet_log = []\<rparr>"

theorem repeated_bid_is_answered_witness:
  "wallet_log (snd (place_bid_and_persist calm_env ''a1'' ''u1'' 3000 500 bid_world)) = []"
proof -
  have "find_by_id ''a1'' (db bid_world) = Some sample_listing"
    by (simp add: bid_world_def find_by_id_def sample_listing_def)
  moreover have "\<exists>b. find_matching_bid (lr_id sample_listing) ''u1'' 3000 500 (db bid_world) = Some b"
    by (simp add: bid_world_def find_matching_bid_def sample_listing_def first_row_def)
  ultimately obtain w1 b where "place_bid_and_persist calm_env ''a1'' ''u1'' 3000 500 bid_world = (Inr b, w1)"
      "wallet_log w1 = wallet_log bid_world"
    using repeated_bid_is_answered [of "''a1''" bid_world sample_listing "''u1''" 3000 500 _ calm_env]
    by (auto simp: calm_env_def)
  then show ?thesis by (simp add: bid_world_def)
qed

text \<open>If the row of an accepted bid cannot be stored, the hold the wallet granted for it is released
  before the error is returned, and no bid is stored.\<close>

theorem failed_insert_releases_the_hold:
  assumes "insert_bid_or_release env nb (Some h) w = (Inl e, w1)" and "env_wallet env = Some wallet"
  shows "(\<exists>r. wallet_log w1 = wallet_log w @ [ReleaseCall h r]) \<and> db w1 = db w"
proof -
  have "wp (insert_bid_or_release env nb (Some h)) (\<lambda>_ _. True)
      (\<lambda>e w1. (\<exists>r. wallet_log w1 = wallet_log w @ [ReleaseCall h r]) \<and> db w1 = db w) w"
    using assms(2)
    by (auto simp: insert_bid_or_release_def release_quietly_def wp_simps split: option.split sum.split prod.split)
  from wp_InlD [OF this assms(1)] show ?thesis .
qed

definition clashing_bid :: new_bid_record where
  "clashing_bid = \<lparr>nb_id = ''b1'', nb_auction_id = ''a1'', nb_bidder_id = ''u2'', nb_bid_amount_cents = 3200, nb_bid_time = 510\<rparr>"

lemma clashing_bid_fails: "isl (fst (insert_bid_or_release calm_env clashing_bid (Some ''h2'') bid_world))"
  by code_simp

theorem failed_insert_releases_the_hold_witness:
  "length (wallet_log (snd (insert_bid_or_release calm_env clashing_bid (Some ''h2'') bid_world))) = 1"
proof -
  obtain e w1 where r: "insert_bid_or_release calm_env clashing_bid (Some ''h2'') bid_world = (Inl e, w1)"
    using clashing_bid_fails by (metis old.prod.exhaust fst_conv isl_def)
  have "\<exists>wallet. env_wallet calm_env = Some wallet" by (simp add: calm_env_def)
  with failed_insert_releases_the_hold [OF r] r show ?thesis by (auto simp: bid_world_def)
qed

end
