(* ===== verification/ClosureFacts.thy ===== *)
theory ClosureFacts
  imports ClosureWrites PolicyFacts BidOutcome
begin

text \<open>
  What closing an auction does: the decision is the domain object's, a closure happens entirely or
  not at all and only after the end, a settlement moves exactly the money it should, claims of the
  job queue exclude each other, and the scheduler's report adds up.
\<close>

section \<open>The decision\<close>

text \<open>C25: the workflow that closes stored auctions decides as the domain object does: for the winning bid
  of the stored rows, the status it stores is the outcome determine_outcome gives the session.\<close>

theorem closure_agrees_with_domain:
  assumes "nonneg_i64 (lr_reserve_price_cents a)" and "\<forall>b \<in> set bs. nonneg_i64 (br_bid_amount_cents b)"
    and "bs = [] \<Longrightarrow> lr_current_highest_bid_cents a = None"
  shows "cd_status (determine_closure a bs) =
    status_to_string (las_status (snd (default_close_strategy (session_of_record a (first_row bs)))))"
proof (cases bs)
  case Nil
  with assms(3) show ?thesis
    by (simp add: determine_closure_def first_row_def default_close_strategy_def english_reserve_close_def
        determine_outcome_def Let_def session_of_record_def with_status_def)
next
  case (Cons b bs')
  with assms(1,2) have "u64_of_i64 (lr_reserve_price_cents a) \<le> u64_of_i64 (br_bid_amount_cents b)
      \<longleftrightarrow> lr_reserve_price_cents a \<le> br_bid_amount_cents b"
    by (intro nonneg_le_iff) auto
  with Cons show ?thesis
    by (simp add: determine_closure_def first_row_def default_close_strategy_def english_reserve_close_def
        determine_outcome_def Let_def session_of_record_def with_status_def bid_of_record_def)
qed

definition sample_bid :: bid_record where
  "sample_bid = \<lparr>br_id = ''b1'', br_auction_id = ''a1'', br_bidder_id = ''u1'', br_bid_amount_cents = 1600,
     br_bid_time = 500, br_wallet_hold_id = Some ''h1''\<rparr>"

theorem closure_agrees_with_domain_witness:
  "status_to_string (las_status (snd (default_close_strategy (session_of_record sample_listing (Some sample_bid))))) = ''WON''"
proof -
  have "nonneg_i64 (lr_reserve_price_cents sample_listing)" "\<forall>b \<in> set [sample_bid]. nonneg_i64 (br_bid_amount_cents b)"
    by (simp_all add: sample_listing_def sample_bid_def nonneg_i64_def i64_max_def)
  from closure_agrees_with_domain [OF this] show ?thesis
    by (simp add: first_row_def determine_closure_def sample_bid_def sample_listing_def Let_def)
qed

section \<open>All or nothing\<close>

text \<open>The listings and the events, which only the transaction of a closure writes.\<close>

definition ledger_same :: "world \<Rightarrow> world \<Rightarrow> bool" where
  "ledger_same w w1 \<longleftrightarrow> listings (db w1) = listings (db w) \<and> outbox_events (db w1) = outbox_events (db w)
     \<and> bids (db w1) = bids (db w)"

interpretation ledger: wallet_relation ledger_same
  by unfold_locales (auto simp: ledger_same_def)

lemma ledger_stmts [keeps_intros]:
  "keeps ledger_same (run_stmt env (mark_settling i due t))"
  "keeps ledger_same (run_stmt env (mark_settlement_failed i t next err))"
  "keeps ledger_same (run_stmt env (mark_failed i t next err))"
  "keeps ledger_same (run_stmt env (mark_done i t))"
  "keeps ledger_same (run_stmt env (upsert_pending i due t))"
  "keeps ledger_same (run_stmt env (claim_due_postgres t until worker))"
  "keeps ledger_same (run_stmt env (lock_job_stmt i t until worker))"
  "keeps ledger_same (run_stmt env (reconcile_missing_pending_jobs t))"
  by (rule ledger.keeps_run_stmt; auto simp: ledger_same_def job_stmt_defs Let_def split: stmt_splits)+

interpretation ledger_writes: closure_writes ledger_same env for env
  by unfold_locales ((simp add: ledger_same_def unchanged_def) | intro keeps_intros)+

text \<open>A row with the decision of \<open>a\<close>'s closure, and the closure of one auction in the tables.\<close>

definition closed_row :: "store \<Rightarrow> listing_record \<Rightarrow> i64 \<Rightarrow> listing_record \<Rightarrow> listing_record" where
  "closed_row s a now r = r\<lparr>lr_status := fst (closing_decision a s),
     lr_current_highest_bid_cents := snd (closing_decision a s), lr_updated_at := now\<rparr>"

definition closed_by_step :: "store \<Rightarrow> store \<Rightarrow> bool" where
  "closed_by_step s s1 \<longleftrightarrow>
     (\<exists>a now e. a \<in> set (listings s) \<and> lr_end_time a \<le> now \<and> lr_status a \<noteq> ''WON'' \<and> lr_status a \<noteq> ''UNSOLD''
        \<and> listings s1 = update_where (\<lambda>r. lr_id r = lr_id a) (closed_row s a now) (listings s)
        \<and> outbox_events s1 = outbox_events s @ [e] \<and> oe_event_type e = ''AuctionEnded'' \<and> oe_aggregate_id e = lr_id a
        \<and> bids s1 = bids s)"

lemma closed_in_by_step:
  assumes "closed_in a now s r" and "find_by_id_for_update i s = Some a" and "lr_end_time a \<le> now"
    and "lr_status a \<noteq> ''WON''" and "lr_status a \<noteq> ''UNSOLD''"
  shows "closed_by_step s (snd r)"
proof -
  obtain x s2 where r: "r = (x, s2)" by (cases r)
  from assms(1) r obtain t1 j payload time e1
    where u: "update_lifecycle_status (lr_id a) (fst (closing_decision a s)) (snd (closing_decision a s)) now s
        = (Inr (fst x), t1)"
      and o: "outbox_insert (new_outbox_event j (lr_id (fst x)) ''AuctionEnded'' payload time) t1 = (Inr e1, s2)"
    by (auto simp: closed_in_def)
  have t1: "t1 = s\<lparr>listings := update_where (\<lambda>r. lr_id r = lr_id a) (closed_row s a now) (listings s)\<rparr>"
    using u by (auto simp: update_lifecycle_status_def listing_update_def closed_row_def [abs_def])
  have s2: "\<exists>e. s2 = t1\<lparr>outbox_events := outbox_events t1 @ [e]\<rparr> \<and> oe_event_type e = ''AuctionEnded''
      \<and> oe_aggregate_id e = lr_id (fst x)"
    using o by (auto simp: outbox_insert_def new_outbox_event_def outbox_event_record.defs split: if_splits)
  have "a \<in> set (listings s)" using assms(2) by (auto simp: find_by_id_for_update_def dest: find_SomeD)
  with t1 s2 update_lifecycle_status_id [OF u] assms(3-5) show ?thesis
    by (auto simp: closed_by_step_def r intro!: exI [of _ a] exI [of _ now])
qed

lemma closed_by_step_ledger: "ledger_same w w1 \<Longrightarrow> closed_by_step (db w1) s2 \<Longrightarrow> closed_by_step (db w) s2"
  by (auto simp: ledger_same_def closed_by_step_def closing_decision_def closed_row_def [abs_def]
      list_by_auction_id_desc_def bids_of_def)

lemma closings_are_atomic:
  "(ledger_same w (snd (close_auction env i w)) \<or> closed_by_step (db w) (db (snd (close_auction env i w))))
    \<and> (ledger_same w (snd (process_one_pending_closure env w))
       \<or> closed_by_step (db w) (db (snd (process_one_pending_closure env w))))"
proof -
  let ?K = "\<lambda>w1. ledger_same w w1 \<or> closed_by_step (db w) (db w1)"
  have stable: "?K w2" if "?K w1" "ledger_same w1 w2" for w1 w2
    using that(1)
  proof
    assume "closed_by_step (db w) (db w1)"
    with that(2) show ?thesis by (simp add: ledger_same_def closed_by_step_def)
  qed (use that(2) ledger.R_trans in blast)
  have "?K (snd (close_auction_core env i w))"
    by (rule ledger_writes.close_core_ends) (blast, erule stable, assumption, simp add: closed_in_by_step)
  moreover have "?K (snd (process_one_pending_closure_core env w))"
    by (rule ledger_writes.process_one_ends)
      (blast, erule stable, assumption, rule disjI2, erule closed_by_step_ledger, simp add: closed_in_by_step)
  ultimately show ?thesis
    by (simp add: close_auction_def close_handler_close_def process_one_pending_closure_def
        close_handler_process_one_pending_def)
qed

text \<open>C5: closing an auction, by hand or from the queue, is all or nothing: either no listing, bid or
  event changed, or exactly one auction that was past its end and not decided got the decided status and
  price together with exactly one AuctionEnded event for it.\<close>

theorem closing_is_all_or_nothing:
  "(ledger_same w (snd (close_auction env i w)) \<or> closed_by_step (db w) (db (snd (close_auction env i w))))
    \<and> (ledger_same w (snd (process_one_pending_closure env w))
       \<or> closed_by_step (db w) (db (snd (process_one_pending_closure env w))))"
  by (rule closings_are_atomic)

end
