(* ===== verification/Lifecycle.thy ===== *)
theory Lifecycle
  imports ServiceRun BidFacts ClosureFacts
begin

text \<open>
  An abstract specification of the whole service: a book of auctions in which an auction is listed
  once, its price rises while it is undecided, and one decision, won when the price meets the reserve and
  unsold otherwise, ends it. The stored listings implement the book: every call of the service, with any
  faults, is a sequence of steps of it.
\<close>

section \<open>The book of auctions\<close>

record book_entry =
  be_reserve :: i64
  be_price :: "i64 option"
  be_outcome :: "session_outcome option"

type_synonym book = "string \<Rightarrow> book_entry option"

definition outcome_at :: "i64 \<Rightarrow> i64 option \<Rightarrow> session_outcome" where
  "outcome_at reserve price = (case price of Some p \<Rightarrow> if reserve \<le> p then OutcomeWon else OutcomeUnsold | None \<Rightarrow> OutcomeUnsold)"

inductive book_step :: "book \<Rightarrow> book \<Rightarrow> bool" where
  lists: "b i = None \<Longrightarrow> book_step b (b(i \<mapsto> \<lparr>be_reserve = r, be_price = None, be_outcome = None\<rparr>))"
| raises: "b i = Some e \<Longrightarrow> be_outcome e = None \<Longrightarrow> price_le (be_price e) p \<Longrightarrow> book_step b (b(i \<mapsto> e\<lparr>be_price := p\<rparr>))"
| decides: "b i = Some e \<Longrightarrow> be_outcome e = None
    \<Longrightarrow> book_step b (b(i \<mapsto> e\<lparr>be_price := p, be_outcome := Some (outcome_at (be_reserve e) p)\<rparr>))"

abbreviation book_steps :: "book \<Rightarrow> book \<Rightarrow> bool" where
  "book_steps \<equiv> book_step\<^sup>*\<^sup>*"

inductive_cases book_stepE: "book_step b b1"

text \<open>What the book promises: a decision is final, an entry is never lost, its reserve never changes, and
  every decision is the one its price calls for.\<close>

lemma book_step_decided: "book_step b b1 \<Longrightarrow> b i = Some e \<Longrightarrow> be_outcome e \<noteq> None \<Longrightarrow> b1 i = Some e"
  by (auto elim!: book_stepE)

lemma book_steps_decided: "book_steps b b1 \<Longrightarrow> b i = Some e \<Longrightarrow> be_outcome e \<noteq> None \<Longrightarrow> b1 i = Some e"
  by (induction rule: rtranclp_induct) (auto dest: book_step_decided)

lemma book_step_entry: "book_step b b1 \<Longrightarrow> b i = Some e \<Longrightarrow> \<exists>e1. b1 i = Some e1 \<and> be_reserve e1 = be_reserve e"
  by (auto elim!: book_stepE)

lemma book_steps_entry: "book_steps b b1 \<Longrightarrow> b i = Some e \<Longrightarrow> \<exists>e1. b1 i = Some e1 \<and> be_reserve e1 = be_reserve e"
  by (induction rule: rtranclp_induct) (auto dest: book_step_entry)

definition book_sound :: "book \<Rightarrow> bool" where
  "book_sound b \<longleftrightarrow> (\<forall>i e x. b i = Some e \<longrightarrow> be_outcome e = Some x \<longrightarrow> x = outcome_at (be_reserve e) (be_price e))"

lemma book_step_sound: "book_step b b1 \<Longrightarrow> book_sound b \<Longrightarrow> book_sound b1"
  unfolding book_sound_def by (auto elim!: book_stepE split: if_splits)

lemma book_steps_sound: "book_steps b b1 \<Longrightarrow> book_sound b \<Longrightarrow> book_sound b1"
  by (induction rule: rtranclp_induct) (auto intro: book_step_sound)

section \<open>The listings as a book\<close>

definition outcome_of_text :: "string \<Rightarrow> session_outcome option" where
  "outcome_of_text st = (if st = ''WON'' then Some OutcomeWon else if st = ''UNSOLD'' then Some OutcomeUnsold else None)"

definition entry_of :: "listing_record \<Rightarrow> book_entry" where
  "entry_of r = \<lparr>be_reserve = lr_reserve_price_cents r, be_price = lr_current_highest_bid_cents r,
     be_outcome = outcome_of_text (lr_status r)\<rparr>"

definition book_of :: "store \<Rightarrow> book" where
  "book_of s i = map_option entry_of (find_by_id i s)"

definition undecided :: "string \<Rightarrow> bool" where
  "undecided st \<longleftrightarrow> outcome_of_text st = None"

lemma undecided_iff: "undecided st \<longleftrightarrow> st \<noteq> ''WON'' \<and> st \<noteq> ''UNSOLD''"
  by (simp add: undecided_def outcome_of_text_def)

text \<open>The implementation of the book: where the tables have integrity they keep it and move by its steps.\<close>

definition keeps_book :: "world \<Rightarrow> world \<Rightarrow> bool" where
  "keeps_book w w1 \<longleftrightarrow> (store_ok (db w) \<longrightarrow> store_ok (db w1) \<and> book_steps (book_of (db w)) (book_of (db w1)))"

interpretation keeps_book: wallet_relation keeps_book
  by unfold_locales (auto simp: keeps_book_def)

lemma book_of_same: "listings s1 = listings s \<Longrightarrow> book_of s1 = book_of s"
  by (simp add: book_of_def fun_eq_iff find_by_id_def)

lemma keeps_book_same:
  "stepping w w1 \<Longrightarrow> listings (db w1) = listings (db w) \<Longrightarrow> keeps_book w w1"
  using book_of_same [of "db w1" "db w"] by (auto simp: keeps_book_def stepping_def steps_store_ok)

lemma find_by_id_unique:
  assumes "store_ok s" and "r \<in> set (listings s)"
  shows "find_by_id (lr_id r) s = Some r"
  using assms find_distinct_key [of lr_id "listings s" r] by (simp add: find_by_id_def store_ok_def keys_ok_def)

text \<open>An update of the one row of an auction, seen in the book.\<close>

lemma book_of_update:
  assumes "store_ok s" and "r \<in> set (listings s)" and "\<And>x. lr_id (f x) = lr_id x"
    and "listings s1 = update_where (\<lambda>x. lr_id x = lr_id r) f (listings s)"
  shows "book_of s1 = (book_of s)(lr_id r \<mapsto> entry_of (f r))"
proof
  fix i
  show "book_of s1 i = ((book_of s)(lr_id r \<mapsto> entry_of (f r))) i"
  proof (cases "i = lr_id r")
    case True
    then show ?thesis
      using find_by_id_unique [OF assms(1,2)] assms(3,4)
      by (simp add: book_of_def find_by_id_def find_update_where_same)
  next
    case False
    then show ?thesis
      using assms(3,4) by (simp add: book_of_def find_by_id_def find_update_where_other)
  qed
qed

section \<open>Opening\<close>

lemma keeps_book_insert [keeps_intros]: "keeps keeps_book (run_stmt env (listing_insert (new_listing_of_command c now)))"
proof (rule keeps_book.keeps_run_stmt)
  fix w :: world and r s
  let ?a = "new_listing_of_command c now"
  assume ins: "listing_insert ?a (db w) = (Inr r, s)"
  then have new: "listings s = listings (db w) @ [listing_of_new ?a]" and none: "find_by_id (nl_id ?a) (db w) = None"
    by (auto simp: listing_insert_def has_row_def find_by_id_def find_None_iff split: if_splits)
  have e: "entry_of (listing_of_new ?a) = \<lparr>be_reserve = cc_reserve_price_cents c, be_price = None, be_outcome = None\<rparr>"
    by (simp add: entry_of_def listing_of_new_def new_listing_of_command_def initial_status_def outcome_of_text_def)
  have "book_of s i = ((book_of (db w))(nl_id ?a \<mapsto> entry_of (listing_of_new ?a))) i" for i
    using none new by (auto simp: book_of_def find_by_id_def find_append split: option.split)
  then have "book_of s = (book_of (db w))(nl_id ?a \<mapsto> entry_of (listing_of_new ?a))" ..
  moreover have "book_of (db w) (nl_id ?a) = None" by (simp add: book_of_def none)
  ultimately have "book_step (book_of (db w)) (book_of s)" by (simp add: e lists)
  then show "keeps_book w (next_tick w\<lparr>db := s\<rparr>)"
    using step_store_ok [OF step_listing_insert [OF ins]] by (auto simp: keeps_book_def)
qed

definition same_listings :: "world \<Rightarrow> world \<Rightarrow> bool" where
  "same_listings w w1 \<longleftrightarrow> listings (db w1) = listings (db w)"

interpretation same_listings: wallet_relation same_listings
  by unfold_locales (auto simp: same_listings_def)

lemma same_listings_stmts [keeps_intros]:
  "keeps same_listings (run_stmt env (outbox_insert ev))"
  "keeps same_listings (run_stmt env (upsert_pending i due t))"
  "keeps same_listings (run_stmt env (claim_pending_postgres l t u worker))"
  "keeps same_listings (run_stmt env (lock_event_stmt i t u worker))"
  "keeps same_listings (run_stmt env (mark_published i t))"
  "keeps same_listings (run_stmt env (mark_publish_failed i t u err))"
  "keeps same_listings (run_stmt env (delete_for_bidder i p))"
  by (rule same_listings.keeps_run_stmt; auto simp: same_listings_def stmt_defs Let_def split: stmt_splits)+

lemma keeps_book_of_same: "keeps stepping m \<Longrightarrow> keeps same_listings m \<Longrightarrow> keeps keeps_book m"
  by (auto simp: keeps_def same_listings_def intro: keeps_book_same)

lemma keeps_book_created [keeps_intros]:
  "keeps keeps_book (run_stmt env (upsert_pending i due t))"
  "keeps keeps_book (publish_auction_created_event env a)"
  by (rule keeps_book_of_same; (unfold publish_auction_created_event_def)?; intro keeps_intros)+

lemma keeps_book_create: "keeps keeps_book (create_auction env c)"
  unfolding create_auction_def create_auction_handler_def create_auction_core_def validate_listing_for_auction_def
  by (intro keeps_intros)

section \<open>The outbox and proxy bids\<close>

interpretation same_relay: relay_statements same_listings env for env
  by unfold_locales (intro keeps_intros)+

lemma same_listings_publish: "keeps same_listings (publish_pending env l pub)"
  by (rule same_relay.relay_turn)

lemma keeps_book_publish: "keeps keeps_book (publish_pending env l pub)"
  by (rule keeps_book_of_same [OF stepping_publish_pending same_listings_publish])

lemma same_listings_delete_proxy: "keeps same_listings (delete_proxy_bid env i u)"
proof -
  have same: "unchanged w w1 \<Longrightarrow> same_listings w w1" for w w1 by (simp add: unchanged_def same_listings_def)
  have "keeps same_listings (canonical_auction_id env i)"
    using unchanged_queries(4) [of env i] same by (auto simp: keeps_def)
  then show ?thesis
    unfolding delete_proxy_bid_def list_bid_query_delete_proxy_bid_def delete_proxy_bid_core_def by (intro keeps_intros)
qed

lemma keeps_book_delete_proxy: "keeps keeps_book (delete_proxy_bid env i u)"
  using same_listings_delete_proxy unfolding delete_proxy_bid_def list_bid_query_delete_proxy_bid_def
  by (rule keeps_book_of_same [OF stepping_delete_proxy_bid_core])

section \<open>Closing\<close>

lemma closing_decision_outcome:
  "outcome_of_text (fst (closing_decision a s)) = Some (outcome_at (lr_reserve_price_cents a) (snd (closing_decision a s)))"
  by (auto simp: closing_decision_def outcome_of_text_def outcome_at_def Let_def split: option.split)

lemma closed_by_step_book:
  assumes "store_ok s" and "closed_by_step s s1"
  shows "book_step (book_of s) (book_of s1)"
proof -
  obtain a now where a: "a \<in> set (listings s)" "lr_status a \<noteq> ''WON''" "lr_status a \<noteq> ''UNSOLD''"
    and s1: "listings s1 = update_where (\<lambda>r. lr_id r = lr_id a) (closed_row s a now) (listings s)"
    using assms(2) by (auto simp: closed_by_step_def)
  have upd: "book_of s1 = (book_of s)(lr_id a \<mapsto> entry_of (closed_row s a now a))"
    by (rule book_of_update [OF assms(1) a(1) _ s1]) (simp add: closed_row_def)
  have e: "entry_of (closed_row s a now a) = (entry_of a)\<lparr>be_price := snd (closing_decision a s),
      be_outcome := Some (outcome_at (be_reserve (entry_of a)) (snd (closing_decision a s)))\<rparr>"
    by (simp add: entry_of_def closed_row_def closing_decision_outcome)
  have "book_of s (lr_id a) = Some (entry_of a)" "be_outcome (entry_of a) = None"
    using find_by_id_unique [OF assms(1) a(1)] a(2,3) by (simp_all add: book_of_def entry_of_def outcome_of_text_def)
  then show ?thesis unfolding upd e by (rule decides)
qed

lemma keeps_book_closed: "stepping w w1 \<Longrightarrow> ledger_same w w1 \<or> closed_by_step (db w) (db w1) \<Longrightarrow> keeps_book w w1"
  using closed_by_step_book [of "db w" "db w1"] book_of_same [of "db w1" "db w"]
  by (auto simp: keeps_book_def stepping_def ledger_same_def steps_store_ok)

lemma keeps_book_close: "keeps keeps_book (close_auction env i)"
  using closings_are_atomic stepping_close_auction_core
  by (auto simp: keeps_def close_auction_def close_handler_close_def intro!: keeps_book_closed)

lemma keeps_book_process: "keeps keeps_book (process_one_pending_closure env)"
  using closings_are_atomic stepping_process_one by (auto simp: keeps_def intro!: keeps_book_closed)

lemma keeps_book_close_rounds [keeps_intros]: "keeps keeps_book (close_rounds env n report)"
  by (induction n arbitrary: report) (auto intro!: keeps_intros keeps_book_process)

lemma keeps_book_close_pending: "keeps keeps_book (close_pending env)"
  unfolding close_pending_def by (intro keeps_intros)

section \<open>Bids\<close>

text \<open>A bid never decides: rows of an auction that are undecided stay so. The status a bid writes comes from
  the domain object or from the row it read.\<close>

definition open_at :: "string \<Rightarrow> store \<Rightarrow> bool" where
  "open_at i s \<longleftrightarrow> (\<forall>r \<in> set (listings s). lr_id r = i \<longrightarrow> undecided (lr_status r))"

definition stays_open :: "world \<Rightarrow> world \<Rightarrow> bool" where
  "stays_open w w1 \<longleftrightarrow> (\<forall>i. open_at i (db w) \<longrightarrow> open_at i (db w1))"

interpretation stays_open: wallet_relation stays_open
  by unfold_locales (auto simp: stays_open_def)

lemma stays_open_of_same: "keeps same_listings m \<Longrightarrow> keeps stays_open m"
  by (auto simp: keeps_def same_listings_def stays_open_def open_at_def)

lemma stays_open_stmts:
  "undecided st \<Longrightarrow> keeps stays_open (run_stmt env (record_highest_bid i n e st u))"
  "undecided st \<Longrightarrow> keeps stays_open (run_stmt env (record_auto_bid i n e st u))"
  by (rule stays_open.keeps_run_stmt;
      fastforce simp: stays_open_def open_at_def listing_stmt_defs dest!: set_update_whereD split: prod.splits)+

lemma same_listings_bid_stmts [keeps_intros]:
  "keeps same_listings (run_stmt env (insert_with_wallet_hold b h))"
  "keeps same_listings (run_stmt env (raise_own_bid i n t h))"
  "keeps same_listings (run_stmt env (delete_bid i))"
  "keeps same_listings (run_stmt env (upsert_max i p n t))"
  by (rule same_listings.keeps_run_stmt; auto simp: same_listings_def stmt_defs Let_def split: stmt_splits)+

text \<open>What a method answers when it succeeds, beside what it keeps.\<close>

definition yields :: "('e, 'a) svc \<Rightarrow> ('a \<Rightarrow> bool) \<Rightarrow> bool" where
  "yields m P \<longleftrightarrow> (\<forall>w. wp m (\<lambda>a _. P a) (\<lambda>_ _. True) w)"

lemma yieldsD: "yields m P \<Longrightarrow> m w = (Inr a, w1) \<Longrightarrow> P a"
  by (simp add: yields_def wp_def split: prod.splits sum.splits) (metis sum.simps(6) wp_def prod.case sum.case(2))

lemma stays_open_bind:
  assumes "keeps stays_open m" and "yields m P" and "\<And>a. P a \<Longrightarrow> keeps stays_open (f a)"
  shows "keeps stays_open (bindS m f)"
  unfolding keeps_def
proof
  fix w
  obtain r w1 where m: "m w = (r, w1)" by fastforce
  then have step: "stays_open w w1" using assms(1) by (metis keeps_def snd_conv)
  show "stays_open w (snd (bindS m f w))"
  proof (cases r)
    case (Inl e)
    with m step show ?thesis by (simp add: bindS_def)
  next
    case (Inr a)
    with m yieldsD [OF assms(2)] assms(3) have "stays_open w1 (snd (f a w1))" by (simp add: keeps_def)
    with step m Inr show ?thesis by (simp add: bindS_def stays_open.R_trans)
  qed
qed

lemma yields_intros:
  "P a \<Longrightarrow> yields (ret a) P"
  "yields m P \<Longrightarrow> yields (map_err g m) P"
  "(\<And>a. r = Inr a \<Longrightarrow> P a) \<Longrightarrow> yields (of_result r) P"
  by (auto simp: yields_def wp_simps intro: wp_True split: sum.split)

lemma yields_bind: "yields m Q \<Longrightarrow> (\<And>a. Q a \<Longrightarrow> yields (f a) P) \<Longrightarrow> yields (bindS m f) P"
  unfolding yields_def wp_bindS by (blast intro: wp_mono [of m "\<lambda>a _. Q a" "\<lambda>_ _. True"])

lemma yields_True: "yields m (\<lambda>_. True)"
  by (simp add: yields_def)

lemma accepting_undecided: "accepts_bids st \<Longrightarrow> undecided (status_to_string st)"
  by (cases st) (simp_all add: accepts_bids_def undecided_iff)

lemma domain_bid_accepts:
  assumes "domain_bid s u t mode = Inr (acc, st)"
  shows "undecided (status_to_string st)"
proof (cases mode)
  case (Standard n)
  with assms show ?thesis
    by (auto simp: domain_bid_def accepting_undecided place_bid_accepted(6) split: prod.splits sum.splits)
next
  case (Proxy m)
  then obtain s1 where p: "place_proxy_bid s (UserId u) (Money (u64_of_i64 m)) (UnixSeconds (u64_of_i64 t)) = (Inr acc, s1)"
    and st: "st = las_status s1" using assms by (auto simp: domain_bid_def split: prod.splits sum.splits)
  have "open_for_bids s (UnixSeconds (u64_of_i64 t))"
  proof (rule ccontr)
    assume "\<not> ?thesis"
    then obtain e s2 where "ensure_accepting_bids s (UnixSeconds (u64_of_i64 t)) = (Inl e, s2)" using closed_ensure by blast
    with p show False by (simp add: place_proxy_bid_def)
  qed
  then have accepts: "accepts_bids (las_status s)" by (simp add: open_for_bids_def)
  from p show ?thesis
    by (cases rule: place_proxy_bid_cases)
      (use st accepts accepting_undecided place_bid_accepted(6) in auto)
qed

interpretation same_side: bid_side_writes same_listings env auction "\<lambda>_. True" for env auction
  by unfold_locales (intro keeps_intros)+

interpretation open_side: bid_side_writes stays_open env auction "\<lambda>_. True" for env auction
  by unfold_locales (rule stays_open_of_same, intro keeps_intros)+

lemma auto_schedule_undecided:
  assumes "undecided (lr_status a)"
  shows "yields (auto_bid_schedule env a p cur n t) (\<lambda>s. undecided (fst s))"
proof -
  have own: "undecided (fst (own_raise_schedule a t))"
    using assms by (simp add: own_raise_schedule_def Let_def undecided_iff)
  have domain: "yields (map_err PlaceBidError (of_result (domain_bid s (pr_bidder_id p) t (Standard n))))
      (\<lambda>r. undecided (status_to_string (snd r)))" for s
    by (intro yields_intros) (metis domain_bid_accepts prod.collapse)
  show ?thesis
    unfolding auto_bid_schedule_def
    using own by (auto intro!: yields_intros(1) yields_bind [OF yields_True] yields_bind [OF domain])
qed

lemma open_auto_bid [keeps_intros]:
  assumes "undecided (lr_status a)"
  shows "keeps stays_open (place_auto_bid env i a p cur n t)"
  unfolding place_auto_bid_def
  by (rule stays_open_bind [OF _ auto_schedule_undecided [OF assms]])
    (intro keeps_intros stays_open_stmts(2); assumption)+

lemma open_resolved [keeps_intros]:
  "undecided (lr_status a) \<Longrightarrow> keeps stays_open (resolve_proxy_auto_bid env i a t)"
  unfolding resolve_proxy_auto_bid_def Let_def by (intro keeps_intros)

lemma wp_recorded_listing:
  assumes "undecided st" and "stays_open w0 w" and "open_at i (db w)"
  shows "wp (record_accepted_listing env i a n e st t) (\<lambda>r w1. stays_open w0 w1 \<and> undecided (lr_status r)) (\<lambda>_. stays_open w0) w"
proof -
  have tick: "stays_open w0 (next_tick w1) = stays_open w0 w1" for w1 by (simp add: stays_open_def)
  obtain r s1 where q: "record_highest_bid i n e st t (db w) = (Inr r, s1)"
    by (cases "record_highest_bid i n e st t (db w)") (auto simp: record_highest_bid_def split: prod.splits)
  have found: "undecided (lr_status x)" if "r = Some x" for x
    using q that assms(1) by (auto simp: record_highest_bid_def listing_update_def)
  have step: "stays_open w (w\<lparr>db := s1\<rparr>)"
    using q assms(1) by (fastforce simp: stays_open_def open_at_def listing_stmt_defs dest!: set_update_whereD split: prod.splits)
  then have s1: "stays_open w0 (w\<lparr>db := s1\<rparr>)" "open_at i s1"
    using assms(2,3) stays_open.R_trans by (auto simp: stays_open_def)
  then have read: "undecided (lr_status x)" if "find_by_id i s1 = Some x" for x
    using that find_by_id_member by (fastforce simp: open_at_def)
  have w1: "stays_open w0 (next_tick w\<lparr>db := s1\<rparr>)" using s1(1) by (simp add: stays_open_def)
  show ?thesis
    using assms(1,2) q found read w1
    by (auto simp: record_accepted_listing_def Let_def wp_simps tick split: option.split)
qed

lemma wp_open_bind:
  assumes "keeps stays_open m" and "stays_open w0 w" and "\<And>a w1. stays_open w0 w1 \<Longrightarrow> wp (f a) Q (\<lambda>_. stays_open w0) w1"
  shows "wp (bindS m f) Q (\<lambda>_. stays_open w0) w"
  unfolding wp_bindS by (rule wp_mono [OF stays_open.wp_keeps [OF assms(1,2)]]) (use assms(3) in auto)

lemma open_accepted:
  assumes "undecided (status_to_string st)" and "open_at i (db w0)" and "stays_open w0 w"
  shows "wp (accept_bid env i a u t prev res st) (\<lambda>_. stays_open w0) (\<lambda>_. stays_open w0) w"
proof -
  have open_w: "stays_open w0 w1 \<Longrightarrow> open_at i (db w1)" for w1 using assms(2) by (simp add: stays_open_def)
  have rest: "wp (bindS (record_accepted_listing env i a n e (status_to_string st) t) (\<lambda>updated.
         bindS (db_err (run_stmt env (upsert_pending i (lr_end_time updated) t))) (\<lambda>_.
         bindS (resolve_proxy_auto_bid env i updated t) (\<lambda>_.
         bindS (db_err (publish_bid_placed_event env updated inserted)) (\<lambda>_.
         ret inserted))))) (\<lambda>_. stays_open w0) (\<lambda>_. stays_open w0) w1"
    if "stays_open w0 w1" for n e inserted w1
    unfolding wp_bindS [of "record_accepted_listing env i a n e (status_to_string st) t"]
    by (rule wp_mono [OF wp_recorded_listing [OF assms(1) that open_w [OF that]]])
      (auto intro!: stays_open.wp_keeps keeps_intros)
  show ?thesis
    unfolding accept_bid_def Let_def
    by (intro wp_open_bind rest keeps_intros open_side.insert_or_release assms(3); (assumption | simp))
qed

lemma wp_open_result_bind:
  assumes "stays_open w0 w" and "\<And>a. r = Inr a \<Longrightarrow> wp (f a) Q (\<lambda>_. stays_open w0) w"
  shows "wp (bindS (map_err g (of_result r)) f) Q (\<lambda>_. stays_open w0) w"
  using assms by (simp add: wp_simps split: sum.split)

lemma open_new_bid:
  assumes "open_at i (db w0)" and "stays_open w0 w"
  shows "wp (place_new_bid env i a u t mode prev) (\<lambda>_. stays_open w0) (\<lambda>_. stays_open w0) w"
proof -
  have accepted: "wp (accept_bid env i a u t prev (fst r) (snd r)) (\<lambda>_. stays_open w0) (\<lambda>_. stays_open w0) w1"
    if "domain_bid s u t mode = Inr r" "stays_open w0 w1" for s r w1
    by (rule open_accepted [OF _ assms(1) that(2)]) (metis that(1) domain_bid_accepts prod.collapse)
  show ?thesis
    unfolding place_new_bid_def
    apply (rule wp_open_bind [OF _ assms(2)], intro keeps_intros)
    apply (rule wp_open_bind, intro keeps_intros, assumption)
    apply (rule wp_open_result_bind, assumption)
    apply (rule wp_open_result_bind, assumption)
    apply (rule wp_open_bind, intro keeps_intros, assumption)
    apply (erule accepted, assumption)
    done
qed

lemma unchanged_stays_open: "unchanged w w1 \<Longrightarrow> stays_open w w1"
  by (simp add: unchanged_def stays_open_def)

lemma decided_not_open: "\<not> undecided (lr_status r) \<Longrightarrow> \<not> row_open r t"
  by (auto simp: undecided_iff row_open_def map_status.simps)

lemma bid_stays_open:
  assumes "store_ok (db w)"
  shows "stays_open w (snd (place_bid_internal env i u t mode w))"
proof -
  have admitted: "open_at (lr_id a) (db w)" if "bid_admitted (db w) a u t mode prev" for a prev
  proof -
    have "find_by_id (lr_id a) (db w) = Some a" using that by (simp add: bid_admitted_def)
    moreover have "undecided (lr_status a)" by (rule ccontr) (use decided_not_open [of a t] admitted_open [OF that] in simp)
    ultimately show ?thesis unfolding open_at_def using find_by_id_unique [OF assms] by (metis option.inject)
  qed
  have "wp (place_bid_internal env i u t mode) (\<lambda>_. stays_open w) (\<lambda>_. stays_open w) w"
  proof (rule wp_place_bid_internal)
    fix a w1 prev
    assume "unchanged w w1" "bid_admitted (db w) a u t mode prev"
    then show "wp (place_new_bid env (lr_id a) a u t mode prev) (\<lambda>_. stays_open w) (\<lambda>_. stays_open w) w1"
      by (intro open_new_bid admitted unchanged_stays_open)
  next
    fix a w1 m b
    assume "unchanged w w1"
    then show "wp (raise_own_maximum env (lr_id a) a u m t b) (\<lambda>_. stays_open w) (\<lambda>_. stays_open w) w1"
      by (intro stays_open.wp_keeps keeps_intros unchanged_stays_open)
  qed (simp_all add: unchanged_stays_open)
  then show ?thesis by (simp add: wp_final)
qed

lemma bid_framed: "\<exists>j. frame j w (snd (place_bid_internal env i u t mode w))"
proof -
  let ?K = "\<lambda>w1. \<exists>j. frame j w w1"
  have framed: "wp m (\<lambda>_. ?K) (\<lambda>_. ?K) w1" if "unchanged w w1" "keeps (frame j) m"
    for m :: "(place_bid_error, bid_record) svc" and w1 j
    by (rule keeps_wp [OF that(2)]) (use that(1) in \<open>auto simp: frame_def unchanged_def\<close>)
  have same: "unchanged w w1 \<Longrightarrow> ?K w1" for w1 by (simp add: unchanged_def frame_def)
  have "wp (place_bid_internal env i u t mode) (\<lambda>_. ?K) (\<lambda>_. ?K) w"
    by (rule wp_place_bid_internal)
      (simp_all add: same framed [OF _ frame_writes.placed_new_bid] framed [OF _ frame_writes.raised_maximum [OF TrueI]])
  then show ?thesis by (simp add: wp_final)
qed

lemma framed_book: "others i s1 = others i s \<Longrightarrow> j \<noteq> i \<Longrightarrow> book_of s1 j = book_of s j"
proof -
  have "find (\<lambda>r. lr_id r = j) rows = find (\<lambda>r. lr_id r = j) (filter (\<lambda>r. lr_id r \<noteq> i) rows)" if "j \<noteq> i" for rows
    using that by (induction rows) auto
  then show "others i s1 = others i s \<Longrightarrow> j \<noteq> i \<Longrightarrow> ?thesis"
    unfolding book_of_def find_by_id_def others_def by (metis prod.inject)
qed

lemma risen_found:
  "list_all2 risen rows rows1 \<Longrightarrow> rel_option risen (find (\<lambda>r. lr_id r = i) rows) (find (\<lambda>r. lr_id r = i) rows1)"
  by (induction rule: list_all2_induct) (auto simp: risen_def listing_terms_def)

lemma keeps_book_bid: "keeps keeps_book (place_bid_internal env i u t mode)"
  unfolding keeps_def keeps_book_def
proof (intro allI impI conjI)
  fix w
  let ?w1 = "snd (place_bid_internal env i u t mode w)"
  assume ok: "store_ok (db w)"
  have "stepping w ?w1" using step_service.placed_bid by (simp add: keeps_def)
  then show ok1: "store_ok (db ?w1)" using ok steps_store_ok unfolding stepping_def by blast
  obtain j where "others j (db ?w1) = others j (db w)" using bid_framed unfolding frame_def by blast
  then have others: "book_of (db ?w1) k = book_of (db w) k" if "k \<noteq> j" for k using that framed_book by blast
  have rise: "rel_option risen (find_by_id j (db w)) (find_by_id j (db ?w1))"
    using prices_service.placed_bid [of env i u t mode] risen_found
    by (auto simp: keeps_def prices_rise_def find_by_id_def)
  show "book_steps (book_of (db w)) (book_of (db ?w1))"
  proof (cases "find_by_id j (db w)")
    case None
    with rise have "book_of (db ?w1) k = book_of (db w) k" for k using others by (cases "k = j") (auto simp: book_of_def)
    then have "book_of (db ?w1) = book_of (db w)" ..
    then show ?thesis by simp
  next
    case (Some r)
    then obtain r1 where r1: "find_by_id j (db ?w1) = Some r1" and up: "risen r r1"
      using rise by (auto elim: option.rel_cases)
    have r: "r \<in> set (listings (db w))" "lr_id r = j" using Some find_by_id_member by blast+
    have upd: "book_of (db ?w1) = (book_of (db w))(j \<mapsto> entry_of r1)"
      using others r1 by (auto simp: fun_eq_iff book_of_def)
    show ?thesis
    proof (cases "undecided (lr_status r)")
      case False
      then have "r \<in> set (listings (db ?w1))" using closed_listing_kept [OF ok r(1)] decided_not_open by blast
      with find_by_id_unique [OF ok1] r(2) r1 have "r1 = r" by auto
      with upd Some have "book_of (db ?w1) = book_of (db w)" by (auto simp: fun_eq_iff book_of_def)
      then show ?thesis by simp
    next
      case True
      have "open_at j (db w)" using True Some find_by_id_unique [OF ok] by (fastforce simp: open_at_def)
      then have "open_at j (db ?w1)" using bid_stays_open [OF ok] by (simp add: stays_open_def)
      then have "undecided (lr_status r1)" using find_by_id_member [OF r1] by (simp add: open_at_def)
      with True up have e: "entry_of r1 = (entry_of r)\<lparr>be_price := lr_current_highest_bid_cents r1\<rparr>"
        by (simp add: entry_of_def undecided_def risen_def listing_terms_def)
      have "book_of (db w) j = Some (entry_of r)" "be_outcome (entry_of r) = None"
          "price_le (be_price (entry_of r)) (lr_current_highest_bid_cents r1)"
        using Some True up by (simp_all add: book_of_def entry_of_def undecided_def risen_def)
      then have "book_step (book_of (db w)) (book_of (db ?w1))" unfolding upd e by (rule raises)
      then show ?thesis by simp
    qed
  qed
qed

section \<open>The service refines the book\<close>

lemma keeps_book_exec: "keeps_book w (service_exec env op w)"
proof (cases op)
  case (PlaceBid i u n t)
  then show ?thesis using keeps_book_bid by (simp add: bid_entry_defs keeps_def)
next
  case (PlaceProxyBid i u n t)
  then show ?thesis using keeps_book_bid by (simp add: bid_entry_defs keeps_def)
next
  case ClosePending
  then show ?thesis by (simp add: keeps_book_close_pending [unfolded keeps_def])
qed (use keeps_book_create keeps_book_delete_proxy keeps_book_close keeps_book_publish in \<open>simp_all add: keeps_def\<close>)

lemma keeps_book_run: "keeps_book w (service_run calls w)"
proof (induction calls arbitrary: w)
  case Nil
  then show ?case by (simp add: service_run_def keeps_book.R_refl)
next
  case (Cons c calls)
  obtain env op where c: "c = (env, op)" by force
  have "keeps_book (service_exec env op w) (service_run (c # calls) w)"
    using Cons.IH [of "service_exec env op w"] c by (simp add: service_run_def)
  then show ?case using keeps_book_exec keeps_book.R_trans by blast
qed


text \<open>So a decision is final.\<close>

lemma decisions_are_final:
  assumes "book_of (db (service_run calls start_world)) i = Some e" and "be_outcome e \<noteq> None"
  shows "book_of (db (service_run (calls @ later) start_world)) i = Some e"
proof -
  have "store_ok (db (service_run calls start_world))"
    using run_steps [of start_world calls] steps_store_ok [of empty_store] empty_store_ok
    by (simp add: stepping_def start_world_def)
  then have "book_steps (book_of (db (service_run calls start_world)))
      (book_of (db (service_run later (service_run calls start_world))))"
    using keeps_book_run by (simp add: keeps_book_def)
  then show ?thesis using assms book_steps_decided by (simp add: service_run_def)
qed

end
