(* ===== verification/ProxyFacts.thy ===== *)
theory ProxyFacts
  imports BidOutcome
begin

text \<open>
  Automatic bids for proxies: what \<^verbatim>\<open>resolve_proxy_auto_bid\<close> may put into the bids of an auction.
\<close>

text \<open>Bids appear only at the amount \<open>n\<close>.\<close>

definition bids_at :: "i64 \<Rightarrow> world \<Rightarrow> world \<Rightarrow> bool" where
  "bids_at n w w1 \<longleftrightarrow> (\<forall>b \<in> set (bids (db w1)). b \<in> set (bids (db w)) \<or> br_bid_amount_cents b = n)"

interpretation bids_at: wallet_relation "bids_at n" for n
  by unfold_locales (auto simp: bids_at_def)

lemma bids_at_bid_stmts [keeps_intros]:
  "keeps (bids_at n) (run_stmt env (raise_own_bid i n t h))"
  "keeps (bids_at n) (run_stmt env (delete_bid i))"
  by (rule bids_at.keeps_run_stmt; auto simp: bids_at_def raise_own_bid_def delete_bid_def Let_def
      dest!: set_update_whereD)+

lemma bids_at_insert: "nb_bid_amount_cents b = n \<Longrightarrow> keeps (bids_at n) (run_stmt env (insert_with_wallet_hold b h))"
  by (rule bids_at.keeps_run_stmt) (auto simp: bids_at_def insert_with_wallet_hold_def bid_of_new_def split: if_splits)

lemma bids_at_other_stmts [keeps_intros]:
  "keeps (bids_at n) (run_stmt env (record_auto_bid i k e st u))"
  "keeps (bids_at n) (run_stmt env (outbox_insert ev))"
  "keeps (bids_at n) (run_stmt env (upsert_pending i due t))"
  by (rule bids_at.keeps_run_stmt; auto simp: bids_at_def stmt_defs Let_def split: stmt_splits)+

lemma bids_at_stages [keeps_intros]:
  "keeps (bids_at n) (publish_outbid_event env a b k)"
  "keeps (bids_at n) (publish_bid_placed_event env a b)"
  "keeps (bids_at n) (hold_for_bid env u i j k t)"
  "keeps (bids_at n) (release_quietly env h)"
  "keeps (bids_at n) (release_current_hold env cur)"
  "keeps (bids_at n) (auto_bid_schedule env a p cur k t)"
  unfolding publish_outbid_event_def publish_bid_placed_event_def hold_for_bid_def release_quietly_def
    release_current_hold_def auto_bid_schedule_def
  by (intro keeps_intros)+

lemma bids_at_undo [keeps_intros]: "keeps (bids_at n) (undo_auto_bid env b cur h)"
  unfolding undo_auto_bid_def by (intro keeps_intros)

lemma bids_at_store [keeps_intros]: "keeps (bids_at n) (store_auto_bid env i j p cur n t h)"
  unfolding store_auto_bid_def insert_bid_or_release_def
  by (intro keeps_intros bids_at_insert) simp

lemma bids_at_place [keeps_intros]: "keeps (bids_at n) (place_auto_bid env i a p cur n t)"
  unfolding place_auto_bid_def by (intro keeps_intros)

lemma top_proxy:
  assumes "list_by_auction i s = p # ps"
  shows "p \<in> set (proxy_bids s) \<and> pr_auction_id p = i
    \<and> (\<forall>q \<in> set (proxy_bids s). pr_auction_id q = i \<longrightarrow> pr_max_bid_amount_cents q \<le> pr_max_bid_amount_cents p)"
  using sort_key_hd_least [OF assms [unfolded list_by_auction_def]]
  by (auto simp: proxy_rank_def dest!: bspec)

text \<open>C30: the automatic bids placed for proxies are bounded: every bid of the tables afterwards was there
  before, or its amount is above the winning bid's and at most the maximum of the auction's highest proxy.\<close>

theorem automatic_bids_within_maximum:
  assumes "b \<in> set (bids (db (snd (resolve_proxy_auto_bid env i a t w))))"
  shows "b \<in> set (bids (db w))
    \<or> (\<exists>p cur. p \<in> set (proxy_bids (db w)) \<and> pr_auction_id p = i
        \<and> (\<forall>q \<in> set (proxy_bids (db w)). pr_auction_id q = i \<longrightarrow> pr_max_bid_amount_cents q \<le> pr_max_bid_amount_cents p)
        \<and> find_winning_bid i (db w) = Some cur \<and> br_bid_amount_cents cur < br_bid_amount_cents b
        \<and> br_bid_amount_cents b \<le> pr_max_bid_amount_cents p)"
    (is "b \<in> _ \<or> ?auto b")
proof -
  let ?K = "\<lambda>w1. \<forall>b \<in> set (bids (db w1)). b \<in> set (bids (db w)) \<or> ?auto b"
  have K0: "?K w1" if "unchanged w w1" for w1 using that by (simp add: unchanged_def)
  have place: "wp (place_auto_bid env i a p cur n t1) (\<lambda>_. ?K) (\<lambda>_. ?K) w1"
    if "unchanged w w1" "list_by_auction i (db w) = p # ps" "find_winning_bid i (db w) = Some cur"
      "br_bid_amount_cents cur < n" "n \<le> pr_max_bid_amount_cents p" for p ps cur n t1 w1
    by (rule keeps_wp [OF bids_at_place]) (use that top_proxy [OF that(2)] in \<open>auto simp: bids_at_def unchanged_def\<close>)
  have "wp (resolve_proxy_auto_bid env i a t) (\<lambda>_. ?K) (\<lambda>_. ?K) w"
    unfolding resolve_proxy_auto_bid_def Let_def
    apply (rule wp_query_bind [of w w], simp add: unchanged_def, erule K0)
    apply (split list.split, intro conjI impI allI)
     apply (subst wp_ret, erule K0)
    apply (rule wp_query_bind, assumption, erule K0)
    apply (split option.split, intro conjI impI allI)
     apply (subst wp_ret, erule K0)
    apply (split if_split, intro conjI impI)
     apply (subst wp_ret, erule K0)
    apply (split if_split, intro conjI impI)
     apply (subst wp_ret, erule K0)
    apply (rule place)
        apply (assumption, assumption, assumption)
     apply (simp_all add: auto_bid_target_def not_le)
    done
  with assms show ?thesis by (simp add: wp_final)
qed

definition proxy_run_world :: world where
  "proxy_run_world = start_world\<lparr>db := empty_store\<lparr>listings := [sample_listing],
     bids := [\<lparr>br_id = ''b1'', br_auction_id = ''a1'', br_bidder_id = ''u2'', br_bid_amount_cents = 2000,
       br_bid_time = 300, br_wallet_hold_id = None\<rparr>],
     proxy_bids := [\<lparr>pr_auction_id = ''a1'', pr_bidder_id = ''u1'', pr_max_bid_amount_cents = 5000,
       pr_created_at = 200, pr_updated_at = 200\<rparr>]\<rparr>\<rparr>"

definition auto_bid :: bid_record where
  "auto_bid = \<lparr>br_id = ''id-3'', br_auction_id = ''a1'', br_bidder_id = ''u1'', br_bid_amount_cents = 2100,
     br_bid_time = 401, br_wallet_hold_id = Some ''id-4''\<rparr>"

lemma auto_bid_placed: "auto_bid \<in> set (bids (db (snd (resolve_proxy_auto_bid calm_env ''a1'' sample_listing 400 proxy_run_world))))"
  by code_simp

theorem automatic_bids_within_maximum_witness:
  "\<exists>cur. find_winning_bid ''a1'' (db proxy_run_world) = Some cur \<and> br_bid_amount_cents cur < 2100"
  using automatic_bids_within_maximum [OF auto_bid_placed]
  by (auto simp: auto_bid_def proxy_run_world_def)

end
