(* ===== verification/Settlement.thy ===== *)
theory Settlement
  imports ClosureFacts
begin

text \<open>
  The money and the jobs of a closure: the wallet calls of a settlement, the result of closing an
  auction by hand, retries, claims of jobs and the report of the scheduler.
\<close>

section \<open>Wallet calls of a settlement\<close>

definition held_by :: "bid_record list \<Rightarrow> string list" where
  "held_by bs = List.map_filter br_wallet_hold_id bs"

definition settlement_calls :: "env \<Rightarrow> listing_record \<Rightarrow> bid_record list \<Rightarrow> wallet_call list" where
  "settlement_calls env a bs =
     (if env_wallet env = None then []
      else if lr_status a = ''WON'' then map (\<lambda>h. ConvertCall h (Inr ())) (held_by (take 1 bs))
      else map (\<lambda>h. ReleaseCall h (Inr ())) (held_by bs))"

lemma held_by_simps [simp]: "held_by [] = []"
  "held_by (b # bs) = (case br_wallet_hold_id b of None \<Rightarrow> held_by bs | Some h \<Rightarrow> h # held_by bs)"
  by (simp_all add: held_by_def List.map_filter_simps split: option.split)

lemma wp_release_holds:
  assumes "log = wallet_log w" and "s = db w"
  shows "wp (release_holds wallet bs)
    (\<lambda>_ w1. wallet_log w1 = log @ map (\<lambda>h. ReleaseCall h (Inr ())) (held_by bs) \<and> db w1 = s) (\<lambda>e w1. db w1 = s \<and> (\<exists>m. e = CloseWalletError m)) w"
  using assms
proof (induction bs arbitrary: w log)
  case Nil
  then show ?case by (simp add: wp_simps)
next
  case (Cons b bs)
  show ?case
  proof (cases "br_wallet_hold_id b")
    case None
    with Cons show ?thesis by (simp add: wp_simps)
  next
    case (Some h)
    then show ?thesis
      using Cons.IH [of "log @ [ReleaseCall h (Inr ())]" "log_wallet (ReleaseCall h (Inr ())) w"] Cons.prems
      by (auto simp: wp_simps unit_eq split: sum.split)
  qed
qed

lemma wp_side_effects:
  "wp (execute_post_closure_side_effects env a bs)
    (\<lambda>_ w1. wallet_log w1 = wallet_log w @ settlement_calls env a bs \<and> db w1 = db w)
    (\<lambda>e w1. db w1 = db w \<and> (\<exists>m. e = CloseWalletError m)) w"
proof (cases "env_wallet env")
  case None
  then show ?thesis by (simp add: execute_post_closure_side_effects_def settlement_calls_def wp_simps)
next
  case (Some wallet)
  show ?thesis
  proof (cases "lr_status a = ''WON''")
    case True
    with Some show ?thesis
      by (cases bs) (auto simp: execute_post_closure_side_effects_def settlement_calls_def first_row_def wp_simps
          unit_eq split: option.split sum.split)
  next
    case False
    with Some show ?thesis
      using wp_release_holds [OF refl refl, of wallet bs w]
      by (simp add: execute_post_closure_side_effects_def settlement_calls_def)
  qed
qed

lemma wp_settle:
  "wp (settle env a bs now) (\<lambda>_ w1. wallet_log w1 = wallet_log w @ settlement_calls env a bs) (\<lambda>_ _. True) w"
  unfolding settle_def wp_bindS wp_attempt
  by (rule wp_mono [OF wp_side_effects]) (auto simp: wp_simps mark_done_def job_update_def split: option.split)

text \<open>A settlement that succeeds made exactly the wallet calls it should, in order and all granted:
  for a won auction the winning bid's hold is converted to a payment and nothing else; for an unsold one
  every hold of its bids is released and none converted.\<close>

theorem settlement_moves_the_right_money:
  assumes "settle env a bs now w = (Inr x, w1)"
  shows "wallet_log w1 = wallet_log w @ settlement_calls env a bs"
  by (rule wp_InrD [OF wp_settle assms])

definition won_row :: listing_record where
  "won_row = sample_listing\<lparr>lr_status := ''WON''\<rparr>"

lemma won_row_settles: "fst (settle calm_env won_row [sample_bid] 1000 start_world) = Inr ()"
  by code_simp

theorem settlement_moves_the_right_money_witness:
  "wallet_log (snd (settle calm_env won_row [sample_bid] 1000 start_world)) = [ConvertCall ''h1'' (Inr ())]"
proof -
  obtain w1 where r: "settle calm_env won_row [sample_bid] 1000 start_world = (Inr (), w1)"
    using won_row_settles by (metis prod.collapse)
  from settlement_moves_the_right_money [OF r] r show ?thesis
    by (simp add: start_world_def settlement_calls_def calm_env_def won_row_def sample_bid_def)
qed

text \<open>When the wallet fails during a settlement, the error is returned and the auction's job is put
  back to be settled again 30 seconds later, with the failure counted; no listing, bid or event changes.\<close>

theorem failed_settlement_is_retried:
  assumes "settle env a bs now w = (Inl (CloseWalletError m), w1)" and "j \<in> set (closure_jobs (db w1))"
    and "job_auction_id j = lr_id a"
  shows "job_status j = ''SETTLING'' \<and> job_due_at j = i64_add now 30 \<and> job_locked_until j = None
    \<and> (\<exists>j0 \<in> set (closure_jobs (db w)). job_auction_id j0 = lr_id a \<and> job_attempts j = job_attempts j0 + 1)"
proof -
  let ?s = "\<lambda>err. snd (mark_settlement_failed (lr_id a) now (i64_add now 30) err (db w))"
  have "wp (settle env a bs now) (\<lambda>_ _. True) (\<lambda>e w1. \<forall>m. e = CloseWalletError m \<longrightarrow> (\<exists>err. db w1 = ?s err)) w"
    unfolding settle_def wp_bindS wp_attempt
    by (rule wp_mono [OF wp_side_effects])
      (auto simp: wp_simps mark_settlement_failed_def job_update_def mark_done_def split: option.split)
  from wp_InlD [OF this assms(1)] obtain err where "db w1 = ?s err" by auto
  with assms(2,3) show ?thesis
    by (auto simp: mark_settlement_failed_def job_update_def fail_job_def dest!: set_update_whereD)
qed

text \<open>An environment whose wallet refuses every call.\<close>

definition broke_env :: env where
  "broke_env = calm_env\<lparr>env_wallet := Some \<lparr>wc_hold_funds = (\<lambda>_ _. Inl (InsufficientBalance ''no'')),
     wc_release_hold = (\<lambda>_ _. Inl (WalletNetworkError ''down'')),
     wc_convert_hold = (\<lambda>_ _. Inl (WalletNetworkError ''down'')),
     wc_credit_seller_escrow = (\<lambda>_ _ _ _. Inl (WalletNetworkError ''down''))\<rparr>\<rparr>"

definition settling_world :: world where
  "settling_world = \<lparr>db = empty_store\<lparr>listings := [won_row], bids := [sample_bid],
     closure_jobs := [job_row ''a1'' 1000 ''SETTLING'' 1000]\<rparr>, tick = 0, wallet_log = []\<rparr>"

lemma broke_settlement:
  "fst (settle broke_env won_row [sample_bid] 1000 settling_world) = Inl (CloseWalletError ''Network error: down'')
    \<and> (job_row ''a1'' 1000 ''SETTLING'' 1000)\<lparr>job_attempts := 1, job_due_at := 1030,
         job_last_error := Some ''Wallet error: Network error: down''\<rparr>
      \<in> set (closure_jobs (db (snd (settle broke_env won_row [sample_bid] 1000 settling_world))))"
  by code_simp

theorem failed_settlement_is_retried_witness:
  "\<exists>w1 j. settle broke_env won_row [sample_bid] 1000 settling_world
        = (Inl (CloseWalletError ''Network error: down''), w1)
    \<and> j \<in> set (closure_jobs (db w1)) \<and> job_auction_id j = ''a1'' \<and> job_attempts j = 1
    \<and> job_status j = ''SETTLING'' \<and> job_due_at j = i64_add 1000 30 \<and> job_locked_until j = None"
proof -
  let ?j = "(job_row ''a1'' 1000 ''SETTLING'' 1000)\<lparr>job_attempts := 1, job_due_at := 1030,
         job_last_error := Some ''Wallet error: Network error: down''\<rparr>"
  obtain w1 where r: "settle broke_env won_row [sample_bid] 1000 settling_world
      = (Inl (CloseWalletError ''Network error: down''), w1)"
    using broke_settlement by (metis prod.collapse)
  have j: "?j \<in> set (closure_jobs (db w1))" using broke_settlement r by simp
  have a: "job_auction_id ?j = ''a1''" "job_attempts ?j = 1" "lr_id won_row = ''a1''"
    by (simp_all add: job_row_def won_row_def sample_listing_def)
  from failed_settlement_is_retried [OF r j] r j a show ?thesis by (metis (no_types, lifting))
qed

section \<open>Closing by hand\<close>

lemma update_lifecycle_status_hit: "update_lifecycle_status i st h now s = (Inr r, s1) \<Longrightarrow>
    r \<in> set (listings s1) \<and> lr_id r = i \<and> lr_status r = st \<and> lr_current_highest_bid_cents r = h"
  by (auto dest: update_lifecycle_status_row update_lifecycle_status_id)

text \<open>C7: closing an auction by hand, when it succeeds, was past the auction's end; an auction decided
  before is returned as it is, with nothing changed; otherwise the returned row has the decision made
  from the stored bids, and the wallet received exactly the settlement of these bids.\<close>

theorem closing_decides_and_settles:
  assumes "close_auction env i w = (Inr r, w1)"
  shows "\<exists>a. find_by_id_for_update i (db w) = Some a \<and> lr_end_time a \<le> env_clock env (tick w)
    \<and> (if lr_status a = ''WON'' \<or> lr_status a = ''UNSOLD'' then r = a \<and> db w1 = db w \<and> wallet_log w1 = wallet_log w
       else lr_id r = lr_id a \<and> lr_status r = fst (closing_decision a (db w))
         \<and> lr_current_highest_bid_cents r = snd (closing_decision a (db w))
         \<and> wallet_log w1 = wallet_log w @ settlement_calls env r (list_by_auction_id_desc (lr_id a) (db w)))"
    (is "?Q r w1")
proof -
  have settles: "wp (bindS (close_db_err (run_stmt env (mark_settling (lr_id u) now now))) (\<lambda>_.
      bindS (settle env u bs now) (\<lambda>_. ret u)))
      (\<lambda>r w3. r = u \<and> wallet_log w3 = wallet_log w2 @ settlement_calls env u bs) (\<lambda>_ _. True) w2" for u bs now w2
    using wp_settle [of env u bs now "(next_tick w2)\<lparr>db := s\<rparr>" for s]
    by (auto simp: wp_simps split: option.split sum.split prod.split)
  have "wp (close_auction_core env i) ?Q (\<lambda>_ _. True) w"
    unfolding close_auction_core_def Let_def wp_bindS [of "utc_now env"] wp_utc_now
    apply (rule wp_begin_tx_bind [of w], simp add: unchanged_def, simp)
    apply (rule wp_run_tx_bind, assumption, simp)
    apply (simp only: fst_conv)
    apply (rule wp_ok_or_bind, assumption, simp)
    apply (split if_split, intro conjI impI)
     apply (simp add: wp_simps)
    apply (split if_split, intro conjI impI)
     apply (auto simp: wp_simps unchanged_def split: option.split)[1]
    apply (rule wp_execute_bind, assumption, simp)
    apply (rule wp_commit_bind, assumption, simp)
    apply (rule wp_mono [OF settles])
     apply (auto simp: closed_in_def dest!: update_lifecycle_status_hit)
    done
  from wp_InrD [OF this] assms show ?thesis
    by (simp add: close_auction_def close_handler_close_def)
qed

definition ended_world :: world where
  "ended_world = \<lparr>db = empty_store\<lparr>listings := [sample_listing], bids := [sample_bid]\<rparr>, tick = 0, wallet_log = []\<rparr>"

definition closed_sample :: listing_record where
  "closed_sample = sample_listing\<lparr>lr_status := ''WON'', lr_current_highest_bid_cents := Some 1600, lr_updated_at := 1000\<rparr>"

lemma ended_world_closes: "fst (close_auction calm_env ''a1'' ended_world) = Inr closed_sample"
  by code_simp

theorem closing_decides_and_settles_witness:
  "wallet_log (snd (close_auction calm_env ''a1'' ended_world)) = [ConvertCall ''h1'' (Inr ())]"
proof -
  obtain w1 where r: "close_auction calm_env ''a1'' ended_world = (Inr closed_sample, w1)"
    using ended_world_closes by (metis prod.collapse)
  have found: "find_by_id_for_update ''a1'' (db ended_world) = Some sample_listing"
    by (simp add: find_by_id_for_update_def ended_world_def sample_listing_def)
  have bs: "list_by_auction_id_desc (lr_id sample_listing) (db ended_world) = [sample_bid]"
    by (simp add: list_by_auction_id_desc_def bids_of_def ended_world_def sample_bid_def sample_listing_def)
  from closing_decides_and_settles [OF r] found
  have "wallet_log w1 = wallet_log ended_world @ settlement_calls calm_env closed_sample [sample_bid]"
    using bs by (auto simp: sample_listing_def)
  with r show ?thesis
    by (simp add: ended_world_def settlement_calls_def calm_env_def closed_sample_def sample_bid_def)
qed

text \<open>Before its end an auction is not closed by hand: the call is answered with the NotEnded error and
  changes nothing.\<close>

theorem closing_before_the_end_is_refused:
  assumes "find_by_id_for_update i (db w) = Some a" and "env_clock env (tick w) < lr_end_time a"
    and "\<And>k. env_db_fault env k = None"
  shows "\<exists>w1. close_auction env i w = (Inl CloseAuctionNotEnded, w1) \<and> db w1 = db w \<and> wallet_log w1 = wallet_log w"
proof -
  have "wp (close_auction_core env i) (\<lambda>_ _. False) (\<lambda>e w1. e = CloseAuctionNotEnded \<and> unchanged w w1) w"
    using assms by (simp add: close_auction_core_def wp_simps sql_query_def unchanged_def)
  then show ?thesis
    by (auto simp: close_auction_def close_handler_close_def unchanged_def wp_def split: prod.splits sum.splits)
qed

definition running_world :: world where
  "running_world = start_world\<lparr>db := empty_store\<lparr>listings := [sample_listing\<lparr>lr_end_time := 9000\<rparr>]\<rparr>\<rparr>"

theorem closing_before_the_end_is_refused_witness:
  "fst (close_auction calm_env ''a1'' running_world) = Inl CloseAuctionNotEnded"
proof -
  have "find_by_id_for_update ''a1'' (db running_world) = Some (sample_listing\<lparr>lr_end_time := 9000\<rparr>)"
    by (simp add: find_by_id_for_update_def running_world_def sample_listing_def)
  from closing_before_the_end_is_refused [OF this, of calm_env] show ?thesis
    by (auto simp: calm_env_def running_world_def start_world_def)
qed

section \<open>Claiming jobs\<close>

lemma due_jobD: "due_job now s = Some j \<Longrightarrow> j \<in> set (closure_jobs s) \<and> claimable_job now j"
  by (auto simp: due_job_def dest!: first_row_sort_keyD)

lemma claim_due_postgresD:
  assumes "claim_due_postgres now until worker s = (Inr (Some j), s1)" and "distinct (map job_auction_id (closure_jobs s))"
  obtains d where "due_job now s = Some d" and "j = lock_job until worker now d"
    and "s1 = s\<lparr>closure_jobs := update_where (\<lambda>r. job_auction_id r = job_auction_id d) (lock_job until worker now) (closure_jobs s)\<rparr>"
  using assms find_distinct_key [of job_auction_id "closure_jobs s"]
  by (auto simp: claim_due_postgres_def Let_def dest: due_jobD split: option.splits)

text \<open>C27: a claim takes a job that is due and not taken, locks it for the worker, and from then on no
  claim at any time can take this job again while its row stays as it is: two workers never process the
  same job.\<close>

theorem claims_exclude_each_other:
  assumes "claim_due_postgres now until worker s = (Inr (Some j), s1)" and "keys_ok s"
  shows "job_due_at j \<le> now \<and> job_status j = ''PROCESSING'' \<and> job_locked_by j = Some worker
    \<and> job_locked_until j = Some until \<and> j \<in> set (closure_jobs s1)
    \<and> (\<forall>later j2. due_job later s1 = Some j2 \<longrightarrow> job_auction_id j2 \<noteq> job_auction_id j)"
proof -
  have "distinct (map job_auction_id (closure_jobs s))" using assms(2) by (simp add: keys_ok_def)
  from claim_due_postgresD [OF assms(1) this] obtain d where d: "due_job now s = Some d"
    and j: "j = lock_job until worker now d"
    and s1: "closure_jobs s1 = update_where (\<lambda>r. job_auction_id r = job_auction_id d) (lock_job until worker now) (closure_jobs s)"
    by (metis store.ext_inject store.surjective store.update_convs(5))
  have taken: "\<not> claimable_job later r" if "r \<in> set (closure_jobs s1)" "job_auction_id r = job_auction_id d" for later r
    using that by (auto simp: s1 lock_job_def claimable_job_def dest!: set_update_whereD)
  have "j \<in> set (closure_jobs s1)"
    using due_jobD [OF d] by (auto simp: s1 j set_update_where)
  with due_jobD [OF d] show ?thesis
    by (auto simp: j lock_job_def claimable_job_def dest!: due_jobD taken)
qed

definition due_store :: store where
  "due_store = empty_store\<lparr>listings := [sample_listing], closure_jobs := [job_row ''a1'' 900 ''PENDING'' 500]\<rparr>"

theorem claims_exclude_each_other_witness:
  "due_job 99999 (snd (claim_due_postgres 1000 1060 ''w1'' due_store)) = None"
proof -
  let ?j = "lock_job 1060 ''w1'' 1000 (job_row ''a1'' 900 ''PENDING'' 500)"
  obtain s1 where r: "claim_due_postgres 1000 1060 ''w1'' due_store = (Inr (Some ?j), s1)" and
    jobs: "closure_jobs s1 = [?j]"
    by (simp add: claim_due_postgres_def due_job_def due_store_def claimable_job_def job_row_def lock_free_def
        first_row_def lock_job_def)
  have "keys_ok due_store" by (simp add: keys_ok_def due_store_def empty_store_def)
  from claims_exclude_each_other [OF r this]
  have "due_job 99999 s1 = Some j2 \<Longrightarrow> job_auction_id j2 \<noteq> ''a1''" for j2 by (simp add: job_row_def lock_job_def)
  moreover have "due_job 99999 s1 = Some j2 \<Longrightarrow> job_auction_id j2 = ''a1''" for j2
    using jobs by (auto dest!: due_jobD simp: job_row_def lock_job_def)
  ultimately show ?thesis using r by (metis not_Some_eq snd_conv)
qed

section \<open>The queue's batches\<close>

lemma close_rounds_report:
  assumes "acr_attempted r0 = acr_closed r0 + acr_failed r0"
  shows "\<exists>r. fst (close_rounds env n r0 w) = Inr r \<and> acr_attempted r = acr_closed r + acr_failed r
    \<and> acr_attempted r \<le> acr_attempted r0 + n"
  using assms
proof (induction n arbitrary: r0 w)
  case 0
  then show ?case by (simp add: ret_def)
next
  case (Suc n)
  obtain x w1 where x: "process_one_pending_closure env w = (x, w1)" by force
  consider (closed) a where "x = Inr (Some a)" | (none) "x = Inr None" | (failed) e where "x = Inl e"
    by (metis not_Some_eq sum.exhaust)
  then show ?case
  proof cases
    case closed
    with x Suc.prems Suc.IH [of "r0\<lparr>acr_attempted := acr_attempted r0 + 1, acr_closed := acr_closed r0 + 1\<rparr>" w1]
    show ?thesis by (auto simp: bindS_def attempt_def)
  next
    case none
    with x Suc.prems show ?thesis by (simp add: bindS_def attempt_def ret_def)
  next
    case failed
    with x Suc.prems Suc.IH [of "r0\<lparr>acr_attempted := acr_attempted r0 + 1, acr_failed := acr_failed r0 + 1\<rparr>" w1]
    show ?thesis by (auto simp: bindS_def attempt_def)
  qed
qed

text \<open>C32: a run of the closure scheduler always ends with a report, whatever fails on the way: the
  attempts are the closed auctions and the failures together, and no more than the batch size.\<close>

theorem scheduler_report_adds_up:
  "\<exists>r. fst (close_pending env w :: (unit + auction_closure_report) \<times> world) = Inr r
    \<and> acr_attempted r = acr_closed r + acr_failed r
    \<and> int (acr_attempted r) \<le> resolve_auction_closure_batch_size env"
proof -
  let ?r0 = "\<lparr>acr_attempted = 0, acr_closed = 0, acr_failed = 0\<rparr>"
  obtain r :: auction_closure_report where
    "fst (close_pending env w :: (unit + auction_closure_report) \<times> world) = Inr r"
    "acr_attempted r = acr_closed r + acr_failed r" "acr_attempted r \<le> nat (resolve_auction_closure_batch_size env)"
    using close_rounds_report [of ?r0 env "nat (resolve_auction_closure_batch_size env)" w]
    by (auto simp: close_pending_def)
  then show ?thesis using batch_size_positive(1) [of env] by (intro exI [of _ r]) simp
qed

section \<open>What is lost\<close>

text \<open>On Postgres the claim returns the row after its update, so a job waiting to be settled again is
  returned as \<open>PROCESSING\<close>, and \<^verbatim>\<open>process_claimed_job\<close> takes the branch of a decided auction: the
  job is done and the wallet is never called. On SQLite the row is the one read before the update.\<close>

lemma postgres_settlement_retry_is_lost:
  "fst (process_one_pending_closure calm_env settling_world) = Inr None
    \<and> wallet_log (snd (process_one_pending_closure calm_env settling_world)) = []
    \<and> map job_status (closure_jobs (db (snd (process_one_pending_closure calm_env settling_world)))) = [''DONE'']"
  by code_simp

lemma sqlite_settlement_retry_is_made:
  "wallet_log (snd (process_one_pending_closure (calm_env\<lparr>env_sqlite := True\<rparr>) settling_world)) = [ConvertCall ''h1'' (Inr ())]"
  by code_simp

end
