(* ===== verification/Findings.thy ===== *)
theory Findings
  imports ProxyFacts Settlement
begin

text \<open>
  Concrete runs of the model, evaluated in the kernel, of behaviour that differs from what the design
  documents or the surrounding code intend.
\<close>

definition some_bid :: "string \<Rightarrow> string \<Rightarrow> i64 \<Rightarrow> string \<Rightarrow> bid_record" where
  "some_bid i u n h = \<lparr>br_id = i, br_auction_id = ''a1'', br_bidder_id = u, br_bid_amount_cents = n,
     br_bid_time = 300, br_wallet_hold_id = Some h\<rparr>"

definition some_proxy :: "string \<Rightarrow> i64 \<Rightarrow> proxy_bid_record" where
  "some_proxy u m = \<lparr>pr_auction_id = ''a1'', pr_bidder_id = u, pr_max_bid_amount_cents = m,
     pr_created_at = 200, pr_updated_at = 200\<rparr>"

definition proxy_world :: "proxy_bid_record list \<Rightarrow> bid_record list \<Rightarrow> world" where
  "proxy_world ps bs = start_world\<lparr>db := empty_store\<lparr>listings := [sample_listing], bids := bs, proxy_bids := ps\<rparr>\<rparr>"

text \<open>An environment whose wallet releases holds but grants no new one.\<close>

definition no_hold_env :: env where
  "no_hold_env = calm_env\<lparr>env_wallet := Some (calm_wallet\<lparr>wc_hold_funds := \<lambda>_ _. Inl (InsufficientBalance ''no'')\<rparr>)\<rparr>"

text \<open>
  A bidder without the money outbids: the leader's hold is released first, then the new hold fails. The
  leader still leads, with a row that names a hold the wallet has released.
\<close>

lemma failed_hold_leaves_the_leader_without_money:
  "fst (place_bid_and_persist no_hold_env ''a1'' ''u2'' 3100 500 (proxy_world [] [some_bid ''b1'' ''u1'' 2000 ''h1'']))
      = Inl (PlaceWalletError ''Insufficient balance: no'')
    \<and> find_winning_bid ''a1'' (db (snd (place_bid_and_persist no_hold_env ''a1'' ''u2'' 3100 500
        (proxy_world [] [some_bid ''b1'' ''u1'' 2000 ''h1''])))) = Some (some_bid ''b1'' ''u1'' 2000 ''h1'')
    \<and> ReleaseCall ''h1'' (Inr ()) \<in> set (wallet_log (snd (place_bid_and_persist no_hold_env ''a1'' ''u2'' 3100 500
        (proxy_world [] [some_bid ''b1'' ''u1'' 2000 ''h1'']))))"
  by code_simp

text \<open>
  A proxy with a maximum of 5000 leads at 3000, one increment above the only other proxy. A standard
  bid of 3100 takes the lead and the proxy does not answer: its target is computed from the other
  proxies alone.
\<close>

lemma proxy_does_not_defend_against_a_standard_bid:
  "map_option br_bidder_id (find_winning_bid ''a1'' (db (snd (place_bid_and_persist calm_env ''a1'' ''u3'' 3100 500
      (proxy_world [some_proxy ''u1'' 5000, some_proxy ''u2'' 2900] [some_bid ''b1'' ''u1'' 3000 ''h1''])))))
    = Some ''u3''"
  by code_simp

text \<open>The only bidder of an auction places a proxy bid and is at once raised against itself.\<close>

lemma lone_proxy_raises_itself:
  "map br_bid_amount_cents (bids (db (snd (place_proxy_bid_and_persist calm_env ''a1'' ''u1'' 5000 500 (proxy_world [] [])))))
    = [1100] \<and> lr_starting_price_cents sample_listing = 1000"
  by code_simp

text \<open>
  An auction created before its start is stored as \<open>DRAFT\<close>; nothing activates it, so a bid after its
  start is refused.
\<close>

lemma draft_auction_never_takes_bids:
  "fst (place_bid_and_persist calm_env ''a1'' ''u1'' 3000 500
      (start_world\<lparr>db := empty_store\<lparr>listings := [sample_listing\<lparr>lr_status := initial_status 100 50\<rparr>]\<rparr>\<rparr>))
    = Inl (PlaceBidError (AuctionNotActive Draft))"
  by code_simp

text \<open>
  The UPDATE after a bid was stored does not look at the row's status, and a bid runs in no
  transaction: if a closure commits between the checks of a bid and this statement, the auction that
  was won is active again.
\<close>

lemma late_update_reopens_a_won_auction:
  "map lr_status (listings (snd (record_highest_bid ''a1'' 3000 1000 ''ACTIVE'' 999 (db won_world)))) = [''ACTIVE'']"
  by code_simp

section \<open>The two that lose money, in general\<close>

definition all_decided :: "store \<Rightarrow> bool" where
  "all_decided s \<longleftrightarrow> (\<forall>a \<in> set (listings s). lr_status a \<in> {''WON'', ''UNSOLD'', ''CANCELLED''})"

lemma decided_job_is_dropped:
  assumes "job_status job \<noteq> ''SETTLING''" and "all_decided (db w)"
  shows "wp (process_claimed_job env job now) (\<lambda>_ w1. wallet_log w1 = wallet_log w) (\<lambda>_ w1. wallet_log w1 = wallet_log w) w"
proof -
  have "lr_status a \<in> {''WON'', ''UNSOLD'', ''CANCELLED''}" if "find_by_id_for_update i (db w) = Some a" for i a
    using that assms(2) by (auto simp: all_decided_def find_by_id_for_update_def dest: find_SomeD)
  then show ?thesis
    using assms(1)
    by (auto simp: process_claimed_job_def wp_simps sql_query_def mark_done_def job_update_def split: option.split)
qed

lemma postgres_claim:
  assumes "\<not> env_sqlite env"
  shows "wp (claim_due env now until worker)
    (\<lambda>j w1. listings (db w1) = listings (db w) \<and> wallet_log w1 = wallet_log w
       \<and> (\<forall>x. j = Some x \<longrightarrow> job_status x = ''PROCESSING''))
    (\<lambda>_ w1. wallet_log w1 = wallet_log w) w"
  using assms
  by (auto simp: claim_due_def wp_simps claim_due_postgres_def lock_job_def Let_def split: option.split)

text \<open>C31: on Postgres a settlement is never resumed: when every auction is decided, a run of the job queue
  makes no wallet call at all, whatever jobs wait to be settled again; the hold of a winner whose payment
  failed once stays, and the holds of an unsold auction stay.\<close>

theorem postgres_never_resumes_a_settlement:
  assumes "\<not> env_sqlite env" and "all_decided (db w)"
  shows "wallet_log (snd (process_one_pending_closure env w)) = wallet_log w"
proof -
  let ?K = "\<lambda>w1. wallet_log w1 = wallet_log w"
  let ?S = "\<lambda>w1. ?K w1 \<and> listings (db w1) = listings (db w)"
  have job: "wp (process_claimed_job env j now) (\<lambda>_. ?K) (\<lambda>_. ?K) w1"
    if "?S w1" "job_status j = ''PROCESSING''" for j now w1
    using decided_job_is_dropped [of j w1 env now] that assms(2) by (simp add: all_decided_def)
  have claim: "wp (bindS (close_db_err (claim_due env now until worker)) (\<lambda>job. case job of None \<Rightarrow> ret None
      | Some j \<Rightarrow> process_claimed_job env j now)) (\<lambda>_. ?K) (\<lambda>_. ?K) w1" if "?S w1" for now until worker w1
    unfolding wp_bindS wp_map_err
  proof (rule wp_mono [OF postgres_claim [OF assms(1)]])
    fix j :: "closure_job_record option" and w2 :: world
    assume "listings (db w2) = listings (db w1) \<and> wallet_log w2 = wallet_log w1
      \<and> (\<forall>x. j = Some x \<longrightarrow> job_status x = ''PROCESSING'')"
    with that have "?S w2" "\<And>x. j = Some x \<Longrightarrow> job_status x = ''PROCESSING''" by simp_all
    then show "wp (case j of None \<Rightarrow> ret None | Some j \<Rightarrow> process_claimed_job env j now) (\<lambda>_. ?K) (\<lambda>_. ?K) w2"
      using job by (cases j) (simp_all add: wp_ret)
  qed (use that in simp)
  have "wp (process_one_pending_closure_core env) (\<lambda>_. ?K) (\<lambda>_. ?K) w"
    unfolding process_one_pending_closure_core_def wp_bindS [of "utc_now env"] wp_utc_now
      wp_bindS [of "map_err g (run_stmt env q)" for g q] wp_map_err wp_run_stmt
    by (auto simp: reconcile_missing_pending_jobs_def Let_def intro!: claim split: option.split)
  then show ?thesis
    by (simp add: wp_final process_one_pending_closure_def close_handler_process_one_pending_def)
qed

theorem postgres_never_resumes_a_settlement_witness:
  "wallet_log (snd (process_one_pending_closure calm_env settling_world)) = []"
  using postgres_never_resumes_a_settlement [of calm_env settling_world]
  by (simp add: calm_env_def all_decided_def settling_world_def won_row_def)

text \<open>A bid its bidder cannot pay costs the leader its hold: when the wallet releases holds but refuses
  the new one, the bid fails, every bid stays as it was, and the hold of the bid that still leads has been
  released.\<close>

theorem unpaid_bid_costs_the_leader_its_hold:
  assumes "env_wallet env = Some wallet" and "\<And>k h. wc_release_hold wallet k h = Inr ()"
    and "\<And>k q. isl (wc_hold_funds wallet k q)"
    and "br_bidder_id b \<noteq> u" and "br_wallet_hold_id b = Some h"
  shows "\<exists>e w1. accept_bid env i a u t (Some b) res st w = (Inl (PlaceWalletError e), w1)
    \<and> bids (db w1) = bids (db w) \<and> ReleaseCall h (Inr ()) \<in> set (wallet_log w1)"
proof -
  have refused: "wc_hold_funds wallet k q \<noteq> Inr x" for k q x
    using assms(3) [of k q] by auto
  have "wp (accept_bid env i a u t (Some b) res st) (\<lambda>_ _. False)
      (\<lambda>e w1. (\<exists>m. e = PlaceWalletError m) \<and> bids (db w1) = bids (db w) \<and> ReleaseCall h (Inr ()) \<in> set (wallet_log w1)) w"
    using assms(1,2,4,5) refused
    by (simp add: accept_bid_def release_previous_hold_def hold_for_bid_def Let_def wp_simps split: sum.split)
  then show ?thesis by (auto simp: wp_def split: prod.splits sum.splits)
qed

theorem unpaid_bid_costs_the_leader_its_hold_witness:
  "\<exists>e w1. accept_bid no_hold_env ''a1'' sample_listing ''u2'' 500 (Some (some_bid ''b1'' ''u1'' 2000 ''h1''))
       \<lparr>new_highest = \<lparr>bid_bidder = UserId ''u2'', bid_amount = Money 3100, bid_placed_at = UnixSeconds 500\<rparr>,
        previous_highest = None, extended = False, new_end_at = UnixSeconds 1000\<rparr> Active start_world
     = (Inl (PlaceWalletError e), w1) \<and> bids (db w1) = []"
proof -
  let ?w = "calm_wallet\<lparr>wc_hold_funds := \<lambda>_ _. Inl (InsufficientBalance ''no'')\<rparr>"
  have "env_wallet no_hold_env = Some ?w" by (simp add: no_hold_env_def)
  from unpaid_bid_costs_the_leader_its_hold [OF this, of "some_bid ''b1'' ''u1'' 2000 ''h1''" "''u2''" "''h1''"
      "''a1''" sample_listing 500 "\<lparr>new_highest = \<lparr>bid_bidder = UserId ''u2'', bid_amount = Money 3100,
        bid_placed_at = UnixSeconds 500\<rparr>, previous_highest = None, extended = False, new_end_at = UnixSeconds 1000\<rparr>"
      Active start_world]
  show ?thesis by (auto simp: calm_wallet_def some_bid_def start_world_def empty_store_def)
qed

end
