(* ===== verification/QueryFacts.thy ===== *)
theory QueryFacts
  imports Queries PolicyFacts BidWrites
begin

text \<open>
  The cursor pages over an auction's bids: following the cursors from the first page visits every bid
  of the auction exactly once, in the order of the plain listing.
\<close>

section \<open>The order of bids\<close>

lemma after_cursor_rank: "after_cursor (br_bid_amount_cents c) (br_bid_time c) (br_id c) = (\<lambda>b. bid_rank c < bid_rank b)"
  by (auto simp: fun_eq_iff after_cursor_def bid_rank_def)

lemma bids_listing_sorted: "sorted (map bid_rank (list_by_auction_id_desc i s))"
  by (simp add: list_by_auction_id_desc_def)

lemma bids_listing_distinct:
  assumes "distinct (map br_id (bids s))"
  shows "distinct (map bid_rank (list_by_auction_id_desc i s))"
proof -
  have ids: "distinct (map br_id (bids_of i s))"
    using assms by (simp add: bids_of_def distinct_map_filter)
  have "inj_on bid_rank (set (bids_of i s))"
    using ids by (auto simp: inj_on_def bid_rank_def distinct_map)
  then show ?thesis using ids by (simp add: list_by_auction_id_desc_def distinct_map distinct_sort)
qed

text \<open>The rows behind a cursor are the rest of the listing.\<close>

lemma rows_after_cursor:
  fixes s i defines "xs \<equiv> list_by_auction_id_desc i s"
  assumes "distinct (map br_id (bids s))" and "k < length xs"
  shows "list_by_auction_cursor i (Some (br_bid_amount_cents (xs ! k), br_bid_time (xs ! k), br_id (xs ! k))) lim s
    = take (nat lim) (drop (Suc k) xs)"
proof -
  have "list_by_auction_cursor i (Some (br_bid_amount_cents (xs ! k), br_bid_time (xs ! k), br_id (xs ! k))) lim s
      = take (nat lim) (filter (\<lambda>b. bid_rank (xs ! k) < bid_rank b) xs)"
    by (simp add: list_by_auction_cursor_def sql_limit_def after_cursor_rank xs_def list_by_auction_id_desc_def filter_sort)
  also have "filter (\<lambda>b. bid_rank (xs ! k) < bid_rank b) xs = drop (Suc k) xs"
    using sorted_key_filter_above [of bid_rank xs k] bids_listing_sorted [of i s]
      bids_listing_distinct [OF assms(2), of i] assms(3) by (simp add: xs_def)
  finally show ?thesis .
qed

lemma first_rows: "list_by_auction_cursor i None lim s = take (nat lim) (list_by_auction_id_desc i s)"
  by (simp add: list_by_auction_cursor_def sql_limit_def list_by_auction_id_desc_def)

section \<open>Pages\<close>

lemma sanitized_limit_bounds: "1 \<le> sanitized_limit l" "sanitized_limit l \<le> 100"
  by (auto simp: sanitized_limit_def clamp_def split: option.split)

lemma cut_page_of_rest:
  assumes "1 \<le> lim"
  shows "cut_page lim (take (nat (lim + 1)) ys) = \<lparr>page_items = take (nat lim) ys,
    page_next_cursor = (if nat lim < length ys
      then Some (bid_cursor_to_string (bid_cursor_from_bid (ys ! (nat lim - 1)))) else None), page_size = lim\<rparr>"
proof -
  have n: "nat (lim + 1) = Suc (nat lim)" "0 < nat lim" "int (nat lim) = lim" using assms by auto
  have more: "lim < int (length (take (nat (lim + 1)) ys)) \<longleftrightarrow> nat lim < length ys" using n by auto
  have "last (take (nat lim) ys) = ys ! (nat lim - 1)" if "nat lim < length ys"
    using that n(2) by (subst last_conv_nth) (auto simp: min_def)
  then show ?thesis
    using n more by (auto simp: cut_page_def Let_def min_def)
qed

text \<open>The client that follows the cursors: the bids of all pages, or nothing if a page fails.\<close>

fun follow_pages :: "env \<Rightarrow> string \<Rightarrow> i64 option \<Rightarrow> nat \<Rightarrow> string option \<Rightarrow> world \<Rightarrow> bid_record list option" where
  "follow_pages env i limit 0 cursor w = None"
| "follow_pages env i limit (Suc n) cursor w =
     (case list_bids_with_cursor env i cursor limit w of
        (Inl e, w1) \<Rightarrow> None
      | (Inr p, w1) \<Rightarrow>
          (case page_next_cursor p of
             None \<Rightarrow> Some (page_items p)
           | Some c \<Rightarrow> map_option (\<lambda>more. page_items p @ more) (follow_pages env i limit n (Some c) w1)))"

definition cursor_after :: "bid_record list \<Rightarrow> nat \<Rightarrow> string option" where
  "cursor_after xs k = (if k = 0 then None else Some (bid_cursor_to_string (bid_cursor_from_bid (xs ! (k - 1)))))"

text \<open>A bid whose values fit their columns and whose id is not blank, so that its cursor reads back.\<close>

definition pageable :: "bid_record \<Rightarrow> bool" where
  "pageable b \<longleftrightarrow> i64_range (br_bid_amount_cents b) \<and> i64_range (br_bid_time b) \<and> \<not> is_blank (br_id b)"

lemma parse_cursor_after:
  assumes "\<forall>b \<in> set xs. pageable b" and "0 < k" and "k \<le> length xs"
  shows "parse_bid_cursor (bid_cursor_to_string (bid_cursor_from_bid (xs ! (k - 1)))) = Inr (bid_cursor_from_bid (xs ! (k - 1)))"
proof -
  have "pageable (xs ! (k - 1))" using assms by (intro bspec [OF assms(1)] nth_mem) simp
  then show ?thesis by (intro cursor_parses_back) (simp_all add: pageable_def bid_cursor_from_bid_def)
qed

lemma page_at:
  fixes env i w a k limit
  assumes nofault: "\<And>k. env_db_fault env k = None" and a: "find_by_id i (db w) = Some a"
    and ids: "distinct (map br_id (bids (db w)))"
  defines "xs \<equiv> list_by_auction_id_desc (lr_id a) (db w)" and "lim \<equiv> sanitized_limit limit"
  assumes ok: "\<forall>b \<in> set xs. pageable b" and k: "k \<le> length xs"
  shows "\<exists>w1. list_bids_with_cursor env i (cursor_after xs k) limit w = (Inr \<lparr>page_items = take (nat lim) (drop k xs),
      page_next_cursor = (if nat lim < length xs - k then cursor_after xs (k + nat lim) else None),
      page_size = lim\<rparr>, w1) \<and> db w1 = db w"
proof -
  have lim: "1 \<le> lim" using sanitized_limit_bounds by (simp add: lim_def)
  let ?page = "\<lparr>page_items = take (nat lim) (drop k xs),
      page_next_cursor = (if nat lim < length xs - k then cursor_after xs (k + nat lim) else None), page_size = lim\<rparr>"
  have page: "cut_page lim (take (nat (lim + 1)) (drop k xs)) = ?page"
  proof (cases "nat lim < length xs - k")
    case True
    then have "drop k xs ! (nat lim - 1) = xs ! (k + nat lim - 1)" using lim by simp
    then show ?thesis using lim by (auto simp: cut_page_of_rest cursor_after_def)
  next
    case False
    then show ?thesis using cut_page_of_rest [OF lim, of "drop k xs"] by simp
  qed
  have "wp (list_bids_with_cursor_core env i (cursor_after xs k) limit) (\<lambda>p w1. p = ?page \<and> db w1 = db w) (\<lambda>_ _. False) w"
  proof (cases k)
    case 0
    then show ?thesis
      using page by (simp add: list_bids_with_cursor_core_def canonical_auction_id_def parse_optional_cursor_def
        cursor_after_def wp_simps nofault a first_rows lim_def [symmetric] xs_def [symmetric])
  next
    case (Suc j)
    with k have j: "j < length xs" by simp
    have "parse_optional_cursor (cursor_after xs k) = Inr (Some (bid_cursor_from_bid (xs ! j)))"
      using parse_cursor_after [OF ok, of k] k Suc by (simp add: parse_optional_cursor_def cursor_after_def)
    then show ?thesis
      using page rows_after_cursor [OF ids j [unfolded xs_def]] Suc
      by (simp add: list_bids_with_cursor_core_def canonical_auction_id_def wp_simps nofault a
        lim_def [symmetric] xs_def [symmetric] bid_cursor_from_bid_def)
  qed
  then show ?thesis
    by (auto simp: list_bids_with_cursor_def list_bid_query_list_cursor_def wp_def split: prod.splits sum.splits)
qed

lemma follow_pages_from:
  fixes env i s a
  assumes nofault: "\<And>k. env_db_fault env k = None" and a: "find_by_id i s = Some a"
    and ids: "distinct (map br_id (bids s))"
  defines "xs \<equiv> list_by_auction_id_desc (lr_id a) s"
  assumes ok: "\<forall>b \<in> set xs. pageable b"
  shows "db w = s \<Longrightarrow> k \<le> length xs \<Longrightarrow> length xs - k < n \<Longrightarrow>
    follow_pages env i limit n (cursor_after xs k) w = Some (drop k xs)"
proof (induction n arbitrary: k w)
  case 0
  then show ?case by simp
next
  case (Suc n)
  let ?m = "nat (sanitized_limit limit)"
  have m: "0 < ?m" using sanitized_limit_bounds(1) [of limit] by simp
  obtain w1 where p: "list_bids_with_cursor env i (cursor_after xs k) limit w = (Inr \<lparr>page_items = take ?m (drop k xs),
      page_next_cursor = (if ?m < length xs - k then cursor_after xs (k + ?m) else None),
      page_size = sanitized_limit limit\<rparr>, w1)" and w1: "db w1 = s"
    using page_at [of env i w a k limit] nofault a ids ok Suc.prems by (auto simp: xs_def)
  show ?case
  proof (cases "?m < length xs - k")
    case True
    then have c: "cursor_after xs (k + ?m) = Some (bid_cursor_to_string (bid_cursor_from_bid (xs ! (k + ?m - 1))))"
      using m by (simp add: cursor_after_def)
    have "follow_pages env i limit n (cursor_after xs (k + ?m)) w1 = Some (drop (k + ?m) xs)"
      using True m Suc.prems by (intro Suc.IH w1) auto
    moreover have "take ?m (drop k xs) @ drop (k + ?m) xs = drop k xs"
      by (metis append_take_drop_id drop_drop add.commute)
    ultimately show ?thesis using True c p by simp
  qed (use p in simp)
qed

text \<open>C20: a client that asks for an auction's bids page by page, following the cursors with any page
  limit, gets every bid of the auction exactly once and in the order of the full listing, and needs at
  most one page more than there are bids.\<close>

theorem pages_enumerate_the_bids:
  assumes "\<And>k. env_db_fault env k = None" and "find_by_id i (db w) = Some a"
    and "distinct (map br_id (bids (db w)))" and "\<forall>b \<in> set (bids (db w)). pageable b"
    and "length (bids (db w)) < n"
  shows "follow_pages env i limit n None w = Some (list_by_auction_id_desc (lr_id a) (db w))"
proof -
  let ?xs = "list_by_auction_id_desc (lr_id a) (db w)"
  have "length ?xs \<le> length (bids (db w))"
    by (simp add: list_by_auction_id_desc_def bids_of_def)
  with assms(5) have "length ?xs < n" by linarith
  moreover have "\<forall>b \<in> set ?xs. pageable b"
    using assms(4) by (simp add: list_by_auction_id_desc_def bids_of_def)
  ultimately show ?thesis
    using follow_pages_from [of env i "db w" a w 0 n limit] assms(1-3)
    by (simp add: cursor_after_def)
qed

definition three_bids :: "bid_record list" where
  "three_bids = map (\<lambda>(i, n). \<lparr>br_id = i, br_auction_id = ''a1'', br_bidder_id = ''u1'', br_bid_amount_cents = n,
     br_bid_time = 500, br_wallet_hold_id = None\<rparr>) [(''b1'', 1000), (''b2'', 1200), (''b3'', 1100)]"

definition paging_world :: world where
  "paging_world = start_world\<lparr>db := empty_store\<lparr>listings := [sample_listing], bids := three_bids\<rparr>\<rparr>"

lemma three_bids_pageable: "\<forall>b \<in> set three_bids. pageable b"
  by code_simp

theorem pages_enumerate_the_bids_witness:
  "map_option (map br_id) (follow_pages calm_env ''a1'' (Some 1) 4 None paging_world) = Some [''b2'', ''b3'', ''b1'']"
proof -
  have "find_by_id ''a1'' (db paging_world) = Some sample_listing"
    by (simp add: find_by_id_def paging_world_def sample_listing_def)
  moreover have "map br_id (list_by_auction_id_desc (lr_id sample_listing) (db paging_world)) = [''b2'', ''b3'', ''b1'']"
    by code_simp
  ultimately show ?thesis
    using pages_enumerate_the_bids [of calm_env "''a1''" paging_world sample_listing 4 "Some 1"] three_bids_pageable
    by (simp add: calm_env_def paging_world_def three_bids_def)
qed

text \<open>The winning bid of an auction is one of its bids, no bid of the auction is higher, and of the
  bids as high as it none was placed earlier.\<close>

theorem winning_bid_is_best:
  assumes "find_winning_bid i s = Some b"
  shows "b \<in> set (bids s) \<and> br_auction_id b = i
    \<and> (\<forall>c \<in> set (bids s). br_auction_id c = i \<longrightarrow> br_bid_amount_cents c \<le> br_bid_amount_cents b
        \<and> (br_bid_amount_cents c = br_bid_amount_cents b \<longrightarrow> br_bid_time b \<le> br_bid_time c))"
  using first_row_sort_keyD [OF assms [unfolded find_winning_bid_def]]
  by (fastforce simp: bids_of_def bid_rank_def)

lemma paging_world_has_winner: "find_winning_bid ''a1'' (db paging_world) \<noteq> None"
  by code_simp

theorem winning_bid_is_best_witness:
  "\<exists>b. find_winning_bid ''a1'' (db paging_world) = Some b \<and> 1200 \<le> br_bid_amount_cents b"
proof -
  obtain b where b: "find_winning_bid ''a1'' (db paging_world) = Some b"
    using paging_world_has_winner by blast
  from winning_bid_is_best [OF b] b show ?thesis
    by (auto simp: paging_world_def three_bids_def)
qed

end
