(* ===== verification/CreateFacts.thy ===== *)
theory CreateFacts
  imports CreateService PolicyFacts BidWrites
begin

text \<open>
  Opening an auction: what a successful call stored, and that a second call for the same listing
  opens no second auction.
\<close>

lemma bid_tick_db [simp]: "unchanged w (w\<lparr>tick := k\<rparr>)"
  by (simp add: unchanged_def)

lemma wp_of_result_bind':
  assumes "unchanged w0 w" and "\<And>e w1. unchanged w0 w1 \<Longrightarrow> E e w1" and "\<And>a. r = Inr a \<Longrightarrow> wp (f a) Q E w"
  shows "wp (bindS (of_result r) f) Q E w"
  using assms by (auto simp: wp_simps split: sum.split)

text \<open>What a call that opens a new auction leaves: its row, its closure job and its event.\<close>

definition opened :: "create_auction_command \<Rightarrow> i64 \<Rightarrow> listing_record \<Rightarrow> store \<Rightarrow> store \<Rightarrow> bool" where
  "opened c now r s s1 \<longleftrightarrow> r = listing_of_new (new_listing_of_command c now)
     \<and> listings s1 = listings s @ [r] \<and> bids s1 = bids s
     \<and> (\<exists>j \<in> set (closure_jobs s1). job_auction_id j = lr_id r \<and> job_due_at j = cc_end_time c)
     \<and> (\<exists>e. outbox_events s1 = outbox_events s @ [e] \<and> oe_event_type e = ''AuctionCreated'' \<and> oe_aggregate_id e = lr_id r)"

lemma upsert_pending_job: "upsert_pending i due now s = (Inr j, s1) \<Longrightarrow>
    j \<in> set (closure_jobs s1) \<and> job_auction_id j = i \<and> job_due_at j = due \<and> listings s1 = listings s
    \<and> bids s1 = bids s \<and> outbox_events s1 = outbox_events s"
  using pending.lookup_same [of "job_row i due ''PENDING'' now" "closure_jobs s"]
  by (auto simp: upsert_pending_def Let_def fetch_one_def find_job_def merge_pending_def job_row_def
      dest: find_SomeD split: if_splits option.splits)

lemma wp_store_new_auction:
  assumes w: "unchanged w0 w"
  shows "wp (bindS (create_db_err (run_stmt env (listing_insert (new_listing_of_command c now)))) (\<lambda>inserted.
         bindS (create_db_err (run_stmt env (upsert_pending (lr_id inserted) (lr_end_time inserted) now))) (\<lambda>_.
         bindS (create_db_err (publish_auction_created_event env inserted)) (\<lambda>_.
         ret inserted)))) (\<lambda>r w1. opened c now r (db w0) (db w1)) (\<lambda>_ _. True) w"
proof -
  have job: "\<exists>j \<in> set (closure_jobs s1). job_auction_id j = i \<and> job_due_at j = due"
    if "upsert_pending i due now s = (Inr x, s1)" for i due s x s1
    using upsert_pending_job [OF that] by blast
  have rest: "listings s1 = listings s \<and> bids s1 = bids s \<and> outbox_events s1 = outbox_events s"
    if "upsert_pending i due now s = (Inr x, s1)" for i due s x s1
    using upsert_pending_job [OF that] by simp
  have fields: "lr_end_time (listing_of_new (new_listing_of_command c now)) = cc_end_time c"
    by (simp add: listing_of_new_def new_listing_of_command_def)
  show ?thesis
    using w
    by (auto simp: wp_simps publish_auction_created_event_def listing_insert_def outbox_insert_def unchanged_def
        opened_def fields outbox_event_record.defs new_outbox_event_def
        dest: job rest split: option.split prod.split sum.split if_splits)
qed

lemma wp_create:
  "wp (create_auction_core env c) (\<lambda>r w1. validate_command c (env_clock env (tick w)) = Inr ()
    \<and> (case find_by_listing_id (cc_listing_id c) (db w) of
         Some a \<Rightarrow> r = a \<and> db w1 = db w
       | None \<Rightarrow> opened c (env_clock env (tick w)) r (db w) (db w1))) (\<lambda>_ _. True) w"
  unfolding create_auction_core_def wp_bindS [of "utc_now env"] wp_utc_now
  apply (rule wp_of_result_bind' [of w], simp add: unchanged_def, simp)
  apply (rule wp_of_result_bind [of w], simp add: unchanged_def, simp)
  apply (rule wp_of_result_bind' [of w], simp add: unchanged_def, simp)
  apply (rule wp_read_bind [of w], simp add: unchanged_def)
    apply (unfold validate_listing_for_auction_def, intro keeps_intros)
   apply simp
  apply (rule wp_query_bind, assumption, simp)
  apply (split option.split, intro conjI impI allI)
   apply (rule wp_mono [OF wp_store_new_auction], assumption)
    apply (auto simp: unit_eq wp_ret unchanged_def)
  done


definition later_command :: create_auction_command where
  "later_command = sample_command\<lparr>cc_start_time := 1000, cc_end_time := 5000\<rparr>"

definition opened_listing :: listing_record where
  "opened_listing = sample_listing\<lparr>lr_id := ''l1'', lr_listing_id := ''l1'', lr_start_time := 1000, lr_end_time := 5000,
     lr_created_at := 1000, lr_updated_at := 1000\<rparr>"

lemma start_world_opens:
  "fst (create_auction calm_env later_command start_world) = Inr opened_listing"
  "fst (create_auction calm_env later_command (snd (create_auction calm_env later_command start_world))) = Inr opened_listing"
  by code_simp+


lemma opened_found:
  assumes "opened c now r s s1" and "find_by_listing_id (cc_listing_id c) s = None"
  shows "find_by_listing_id (cc_listing_id c) s1 = Some r"
proof -
  let ?P = "\<lambda>a. lr_listing_id a = cc_listing_id c \<or> lr_id a = cc_listing_id c"
  have "filter ?P (listings s) = []" using assms(2) by (simp add: find_by_listing_id_def)
  moreover have "?P r" using assms(1) by (simp add: opened_def new_listing_of_command_def)
  ultimately have "filter ?P (listings s1) = [r]" using assms(1) by (simp add: opened_def)
  then show ?thesis by (simp add: find_by_listing_id_def first_row_def)
qed

text \<open>Opening is idempotent: if a call succeeded, a later successful call for the same listing returns
  the same auction and changes nothing, so a listing never has two auctions.\<close>

theorem create_twice_opens_once:
  assumes "create_auction env c w = (Inr r, w1)" and "create_auction env2 c2 w1 = (Inr r2, w2)"
    and "cc_listing_id c2 = cc_listing_id c"
  shows "r2 = r \<and> db w2 = db w1"
proof -
  have "find_by_listing_id (cc_listing_id c) (db w1) = Some r"
    using wp_InrD [OF wp_create, of env c w r w1] assms(1)
    by (auto simp: create_auction_def create_auction_handler_def opened_found split: option.splits)
  then show ?thesis
    using wp_InrD [OF wp_create, of env2 c2 w1 r2 w2] assms(2,3)
    by (simp add: create_auction_def create_auction_handler_def)
qed

theorem create_twice_opens_once_witness:
  "db (snd (create_auction calm_env later_command (snd (create_auction calm_env later_command start_world))))
    = db (snd (create_auction calm_env later_command start_world))"
proof -
  obtain w1 where r: "create_auction calm_env later_command start_world = (Inr opened_listing, w1)"
    using start_world_opens(1) by (metis prod.collapse)
  obtain w2 where r2: "create_auction calm_env later_command w1 = (Inr opened_listing, w2)"
    using start_world_opens(2) r by (metis prod.collapse snd_conv)
  from create_twice_opens_once [OF r r2] r r2 show ?thesis by simp
qed

end
