(* ===== verification/Float64.thy ===== *)
theory Float64
  imports RustStd "HOL-Library.Log_Nat"
begin

text \<open>
  Rust's \<^verbatim>\<open>f64\<close> as far as the conversions between cents and decimal amounts of \<^verbatim>\<open>http/dto.rs\<close> use it:
  IEEE binary64 with rounding to nearest, ties to even. A finite value is the rational it stands
  for, so the two zeros are one value; no conversion here tells them apart.
\<close>

datatype f64 = NaN | Infinite bool | Finite rat

section \<open>Rounding\<close>

text \<open>The exponent of the leading binary digit of a positive rational.\<close>

definition floor_log2 :: "rat \<Rightarrow> int" where
  "floor_log2 x = (case quotient_of x of (n, d) \<Rightarrow>
     let k = bitlen n - bitlen d in if power_int 2 k \<le> x then k else k - 1)"

definition round_half_even :: "rat \<Rightarrow> int" where
  "round_half_even x = (let f = \<lfloor>x\<rfloor>; r = x - of_int f in
     if r < 1 / 2 then f else if 1 / 2 < r then f + 1 else if even f then f else f + 1)"

text \<open>53 significant binary digits, the unit at least $2^{-1074}$, overflow from $2^{1024}$.\<close>

definition f64_exponent :: "rat \<Rightarrow> int" where
  "f64_exponent x = max (floor_log2 \<bar>x\<bar> - 52) (- 1074)"

definition f64_round :: "rat \<Rightarrow> f64" where
  "f64_round x = (if x = 0 then Finite 0
     else let u = power_int 2 (f64_exponent x); v = of_int (round_half_even (x / u)) * u
       in if 2 ^ 1024 \<le> \<bar>v\<bar> then Infinite (x < 0) else Finite v)"

definition f64_of_i64 :: "i64 \<Rightarrow> f64" where
  "f64_of_i64 x = f64_round (of_int x)"

text \<open>Multiplication and division by a positive constant.\<close>

fun f64_mul_by :: "f64 \<Rightarrow> rat \<Rightarrow> f64" where
  "f64_mul_by NaN c = NaN"
| "f64_mul_by (Infinite s) c = Infinite s"
| "f64_mul_by (Finite x) c = f64_round (x * c)"

fun f64_div_by :: "f64 \<Rightarrow> rat \<Rightarrow> f64" where
  "f64_div_by NaN c = NaN"
| "f64_div_by (Infinite s) c = Infinite s"
| "f64_div_by (Finite x) c = f64_round (x / c)"

text \<open>The sum, and the quotient by a positive divisor.\<close>

fun f64_add :: "f64 \<Rightarrow> f64 \<Rightarrow> f64" where
  "f64_add (Finite x) (Finite y) = f64_round (x + y)"
| "f64_add (Infinite s) (Infinite t) = (if s = t then Infinite s else NaN)"
| "f64_add (Infinite s) (Finite y) = Infinite s"
| "f64_add (Finite x) (Infinite t) = Infinite t"
| "f64_add NaN b = NaN"
| "f64_add a NaN = NaN"

fun f64_div :: "f64 \<Rightarrow> f64 \<Rightarrow> f64" where
  "f64_div a (Finite y) = f64_div_by a y"
| "f64_div (Finite x) (Infinite t) = Finite 0"
| "f64_div a b = NaN"

text \<open>\<^verbatim>\<open>f64::round\<close>: to the nearest integer, halves away from zero. The result is a binary64 value.\<close>

definition round_half_away :: "rat \<Rightarrow> int" where
  "round_half_away x = (if 0 \<le> x then \<lfloor>x + 1 / 2\<rfloor> else - \<lfloor>1 / 2 - x\<rfloor>)"

fun f64_to_nearest :: "f64 \<Rightarrow> f64" where
  "f64_to_nearest (Finite x) = Finite (of_int (round_half_away x))"
| "f64_to_nearest x = x"

text \<open>\<^verbatim>\<open>as i64\<close>: truncates and saturates; a NaN becomes zero.\<close>

fun f64_as_i64 :: "f64 \<Rightarrow> i64" where
  "f64_as_i64 NaN = 0"
| "f64_as_i64 (Infinite s) = (if s then i64_min else i64_max)"
| "f64_as_i64 (Finite x) = i64_saturate (if 0 \<le> x then \<lfloor>x\<rfloor> else \<lceil>x\<rceil>)"

section \<open>Errors of rounding\<close>

lemma power_int_2_lessD: "power_int 2 a < (power_int 2 b :: rat) \<Longrightarrow> a < b"
  using power_int_increasing [of b a "2 :: rat"] by (meson not_less numeral_le_one_iff one_le_numeral)

lemma floor_log2_bounds:
  assumes "0 < x"
  shows "power_int 2 (floor_log2 x) \<le> x" and "x < power_int 2 (floor_log2 x + 1)"
proof -
  obtain n d where q: "quotient_of x = (n, d)" by fastforce
  have d: "0 < d" using quotient_of_denom_pos [OF q] .
  have x: "x = of_int n / of_int d" using quotient_of_div [OF q] .
  have n: "0 < n" using assms d by (simp add: x zero_less_divide_iff)
  have bits: "power_int 2 (bitlen m - 1) \<le> (of_int m :: rat) \<and> (of_int m :: rat) < power_int 2 (bitlen m)"
    if "0 < m" for m
  proof -
    have "(2 :: int) ^ nat (bitlen m - 1) \<le> m" "m < 2 ^ nat (bitlen m)"
      using bitlen_bounds [OF that] by auto
    then have "of_int (2 ^ nat (bitlen m - 1)) \<le> (of_int m :: rat)" "of_int m < (of_int (2 ^ nat (bitlen m)) :: rat)"
      by (simp_all only: of_int_le_iff of_int_less_iff)
    moreover have "0 < bitlen m" using that floorlog_eq_zero_iff [of 2 "nat m"] by (simp add: bitlen_def)
    ultimately show ?thesis by (simp add: power_int_def)
  qed
  define k where "k = bitlen n - bitlen d"
  have lower: "power_int 2 (k - 1) < x"
  proof -
    have "power_int 2 (k - 1) * (of_int d :: rat) < power_int 2 (k - 1) * power_int 2 (bitlen d)"
      using bits [OF d] by simp
    also have "\<dots> = power_int 2 (bitlen n - 1)" by (simp add: k_def flip: power_int_add)
    also have "\<dots> \<le> of_int n" using bits [OF n] by simp
    finally show ?thesis using d by (simp add: x pos_less_divide_eq)
  qed
  have upper: "x < power_int 2 (k + 1)"
  proof -
    have "of_int n < (power_int 2 (bitlen n) :: rat)" using bits [OF n] by simp
    also have "\<dots> = power_int 2 (k + 1) * power_int 2 (bitlen d - 1)" by (simp add: k_def flip: power_int_add)
    also have "\<dots> \<le> power_int 2 (k + 1) * of_int d" using bits [OF d] by simp
    finally show ?thesis using d by (simp add: x pos_divide_less_eq)
  qed
  have f: "floor_log2 x = (if power_int 2 k \<le> x then k else k - 1)"
    by (simp add: floor_log2_def q k_def Let_def)
  show "power_int 2 (floor_log2 x) \<le> x" "x < power_int 2 (floor_log2 x + 1)"
    using lower upper by (auto simp: f)
qed

lemma round_half_even_error: "\<bar>of_int (round_half_even x) - x\<bar> \<le> 1 / 2"
proof -
  have "0 \<le> x - of_int \<lfloor>x\<rfloor>" "x - of_int \<lfloor>x\<rfloor> < 1" by linarith+
  then show ?thesis by (auto simp: round_half_even_def Let_def abs_le_iff)
qed

lemma round_half_even_int [simp]: "round_half_even (of_int n) = n"
  by (simp add: round_half_even_def)

text \<open>In the range of normal numbers the error is at most half a unit in the last of 53 digits.\<close>

lemma f64_round_error:
  assumes x: "1 / 2 ^ 100 \<le> \<bar>x\<bar>" "\<bar>x\<bar> \<le> 2 ^ 100"
  shows "\<exists>y. f64_round x = Finite y \<and> \<bar>y - x\<bar> \<le> \<bar>x\<bar> / 2 ^ 53"
proof -
  have "0 < \<bar>x\<bar>" by (rule less_le_trans [OF _ x(1)]) simp
  define l where "l = floor_log2 \<bar>x\<bar>"
  have l: "power_int 2 l \<le> \<bar>x\<bar>" "\<bar>x\<bar> < power_int 2 (l + 1)"
    using floor_log2_bounds [OF \<open>0 < \<bar>x\<bar>\<close>] by (simp_all add: l_def)
  have "power_int 2 (- 100) < (power_int 2 (l + 1) :: rat)"
    using l(2) x(1) by (simp add: power_int_minus inverse_eq_divide)
  then have "- 100 < l + 1" by (rule power_int_2_lessD)
  then have e: "f64_exponent x = l - 52" by (simp add: f64_exponent_def l_def)
  define u where "u = (power_int 2 (l - 52) :: rat)"
  define v where "v = of_int (round_half_even (x / u)) * u"
  have u: "0 < u" by (simp add: u_def)
  have "\<bar>v - x\<bar> = \<bar>of_int (round_half_even (x / u)) - x / u\<bar> * u"
  proof -
    have "v - x = (of_int (round_half_even (x / u)) - x / u) * u" using u by (simp add: v_def left_diff_distrib)
    then show ?thesis using u by (simp add: abs_mult)
  qed
  also have "\<dots> \<le> 1 / 2 * u" using round_half_even_error [of "x / u"] u by (intro mult_right_mono) auto
  also have "\<dots> = power_int 2 l / 2 ^ 53"
    by (simp add: u_def power_int_diff)
  also have "\<dots> \<le> \<bar>x\<bar> / 2 ^ 53" using l(1) by (simp add: divide_right_mono)
  finally have err: "\<bar>v - x\<bar> \<le> \<bar>x\<bar> / 2 ^ 53" .
  have "\<bar>v\<bar> \<le> \<bar>x\<bar> + \<bar>x\<bar> / 2 ^ 53" using err by linarith
  also have "\<dots> \<le> 2 ^ 100 + 2 ^ 100" using x(2) by (intro add_mono) auto
  also have "\<dots> < (2 :: rat) ^ 1024" by simp
  finally have "f64_round x = Finite v"
    using \<open>0 < \<bar>x\<bar>\<close> by (simp add: f64_round_def e u_def v_def Let_def)
  with err show ?thesis by blast
qed

lemma f64_of_i64_exact:
  assumes "\<bar>c\<bar> < 2 ^ 53"
  shows "f64_of_i64 c = Finite (of_int c)"
proof (cases "c = 0")
  case True
  then show ?thesis by (simp add: f64_of_i64_def f64_round_def)
next
  case False
  define l where "l = floor_log2 \<bar>of_int c\<bar>"
  have pos: "0 < \<bar>of_int c :: rat\<bar>" using False by simp
  have l: "power_int 2 l \<le> \<bar>of_int c :: rat\<bar>" "\<bar>of_int c :: rat\<bar> < power_int 2 (l + 1)"
    using floor_log2_bounds [OF pos] by (simp_all add: l_def)
  have c: "\<bar>of_int c :: rat\<bar> < 2 ^ 53"
    using of_int_less_iff [where 'a = rat, of "\<bar>c\<bar>" "2 ^ 53"] assms by simp
  have "power_int 2 l < (power_int 2 53 :: rat)" using l(1) c by simp
  then have "l < 53" by (rule power_int_2_lessD)
  have "1 \<le> \<bar>of_int c :: rat\<bar>" using of_int_le_iff [where 'a = rat, of 1 "\<bar>c\<bar>"] False by simp
  then have "power_int 2 0 < (power_int 2 (l + 1) :: rat)" using l(2) by simp
  then have "0 < l + 1" by (rule power_int_2_lessD)
  have e: "f64_exponent (of_int c) = l - 52" using \<open>0 < l + 1\<close> by (simp add: f64_exponent_def l_def)
  have u: "power_int 2 (l - 52) = (1 / 2 ^ nat (52 - l) :: rat)"
    using \<open>l < 53\<close> by (simp add: power_int_def inverse_eq_divide power_one_over)
  have "of_int c / (1 / 2 ^ nat (52 - l)) = (of_int (c * 2 ^ nat (52 - l)) :: rat)" by simp
  then have "round_half_even (of_int c / (1 / 2 ^ nat (52 - l))) = c * 2 ^ nat (52 - l)"
    by (simp only: round_half_even_int)
  moreover have "\<bar>of_int c :: rat\<bar> < 2 ^ 1024" using c by (rule less_trans) simp
  ultimately show ?thesis
    using False by (simp add: f64_of_i64_def f64_round_def e u Let_def)
qed

lemma round_half_away_near:
  assumes "\<bar>x - of_int n\<bar> < 1 / 2"
  shows "round_half_away x = n"
proof -
  have "\<lfloor>x + 1 / 2\<rfloor> = n" using assms by (auto simp: floor_eq_iff abs_if split: if_splits)
  moreover have "\<lfloor>1 / 2 - x\<rfloor> = - n" using assms by (auto simp: floor_eq_iff abs_if split: if_splits)
  ultimately show ?thesis by (simp add: round_half_away_def)
qed

end
