(* ===== verification/Dto.thy ===== *)
theory Dto
  imports Float64 AuctionTypes
begin

text \<open>
  \<^verbatim>\<open>http/dto.rs\<close>: the bodies of requests as serde hands them over, the bodies of responses, and the
  conversions between them and the commands and records of the service. Parsing and printing of
  RFC 3339 times is \<^verbatim>\<open>chrono\<close>'s: printing is a field of the environment, parsing an argument.
\<close>

section \<open>Decimal amounts\<close>

definition cents_to_decimal :: "i64 \<Rightarrow> f64" where
  "cents_to_decimal c = f64_div_by (f64_of_i64 c) 100"

definition decimal_to_cents :: "f64 \<Rightarrow> i64" where
  "decimal_to_cents amount = f64_as_i64 (f64_to_nearest (f64_mul_by amount 100))"

section \<open>Times\<close>

datatype request_timestamp = UnixTimestamp i64 | Rfc3339 string

type_synonym rfc3339_parser = "string \<Rightarrow> i64 option"

definition resolve_unix_seconds :: "rfc3339_parser \<Rightarrow> request_timestamp option \<Rightarrow> string \<Rightarrow> string + i64" where
  "resolve_unix_seconds parse v field =
     (case v of
        None \<Rightarrow> Inl (field @ '' is required'')
      | Some (UnixTimestamp n) \<Rightarrow> Inr n
      | Some (Rfc3339 text) \<Rightarrow>
          (case parse text of
             Some n \<Rightarrow> Inr n
           | None \<Rightarrow> Inl (field @ '' must be unix seconds or RFC3339'')))"

definition unix_seconds_to_rfc3339 :: "env \<Rightarrow> i64 \<Rightarrow> string" where
  "unix_seconds_to_rfc3339 env n = (case env_rfc3339 env n of Some t \<Rightarrow> t | None \<Rightarrow> i64_to_string n)"

section \<open>Requests\<close>

record create_auction_request =
  cr_listing_id :: "string option"
  cr_seller_id :: "string option"
  cr_auction_type :: "string option"
  cr_starting_price_cents :: "i64 option"
  cr_starting_price :: "f64 option"
  cr_reserve_price_cents :: "i64 option"
  cr_reserve_price :: "f64 option"
  cr_minimum_increment_cents :: "i64 option"
  cr_minimum_increment :: "f64 option"
  cr_start_time :: "request_timestamp option"
  cr_end_time :: "request_timestamp option"

text \<open>\<^verbatim>\<open>a_cents.or_else(|| a.map(decimal_to_cents))\<close>\<close>

definition amount_field :: "i64 option \<Rightarrow> f64 option \<Rightarrow> i64 option" where
  "amount_field in_cents decimal =
     (case in_cents of Some c \<Rightarrow> Some c | None \<Rightarrow> map_option decimal_to_cents decimal)"

definition required :: "string \<Rightarrow> 'a option \<Rightarrow> string + 'a" where
  "required field v = (case v of None \<Rightarrow> Inl (field @ '' is required'') | Some x \<Rightarrow> Inr x)"

text \<open>\<^verbatim>\<open>?\<close> on a plain \<^verbatim>\<open>Result\<close>.\<close>

definition and_then :: "'e + 'a \<Rightarrow> ('a \<Rightarrow> 'e + 'b) \<Rightarrow> 'e + 'b" where
  "and_then r f = (case r of Inl e \<Rightarrow> Inl e | Inr a \<Rightarrow> f a)"

definition try_into_command :: "rfc3339_parser \<Rightarrow> create_auction_request \<Rightarrow> string + create_auction_command" where
  "try_into_command parse q =
     and_then (auction_type_from_input (cr_auction_type q)) (\<lambda>auction_type.
     and_then (required ''listing_id'' (cr_listing_id q)) (\<lambda>listing_id.
     and_then (required ''seller_id'' (cr_seller_id q)) (\<lambda>seller_id.
     and_then (required ''starting_price''
       (amount_field (cr_starting_price_cents q) (cr_starting_price q))) (\<lambda>starting.
     and_then (required ''reserve_price''
       (amount_field (cr_reserve_price_cents q) (cr_reserve_price q))) (\<lambda>reserve.
     and_then (required ''minimum_increment''
       (amount_field (cr_minimum_increment_cents q) (cr_minimum_increment q))) (\<lambda>increment.
     and_then (resolve_unix_seconds parse (cr_start_time q) ''start_time'') (\<lambda>start_time.
     and_then (resolve_unix_seconds parse (cr_end_time q) ''end_time'') (\<lambda>end_time.
     Inr \<lparr>cc_listing_id = listing_id, cc_seller_id = seller_id,
          cc_auction_type = as_storage_value auction_type, cc_starting_price_cents = starting,
          cc_reserve_price_cents = reserve, cc_minimum_increment_cents = increment,
          cc_start_time = start_time, cc_end_time = end_time\<rparr>))))))))"

record place_bid_request =
  pb_bidder_id :: "string option"
  pb_bid_amount_cents :: "i64 option"
  pb_bid_amount :: "f64 option"
  pb_bid_time :: "i64 option"

definition bid_request_amount_cents :: "place_bid_request \<Rightarrow> i64 option" where
  "bid_request_amount_cents q = amount_field (pb_bid_amount_cents q) (pb_bid_amount q)"

text \<open>\<^verbatim>\<open>bid_time\<close> of a request: the clock when the field is missing. No handler asks for it.\<close>

definition request_bid_time :: "place_bid_request \<Rightarrow> i64 \<Rightarrow> i64" where
  "request_bid_time q now = (case pb_bid_time q of Some t \<Rightarrow> t | None \<Rightarrow> now)"

record place_proxy_bid_request =
  pp_bidder_id :: "string option"
  pp_max_bid_amount_cents :: "i64 option"
  pp_max_bid_amount :: "f64 option"
  pp_bid_time :: "i64 option"

definition max_bid_amount_cents :: "place_proxy_bid_request \<Rightarrow> i64 option" where
  "max_bid_amount_cents q = amount_field (pp_max_bid_amount_cents q) (pp_max_bid_amount q)"

definition proxy_request_bid_time :: "place_proxy_bid_request \<Rightarrow> i64 \<Rightarrow> i64" where
  "proxy_request_bid_time q now = (case pp_bid_time q of Some t \<Rightarrow> t | None \<Rightarrow> now)"

section \<open>Responses\<close>

record auction_response =
  ar_id :: string
  ar_listing_id :: string
  ar_seller_id :: string
  ar_auction_type :: string
  ar_starting_price_cents :: i64
  ar_reserve_price_cents :: i64
  ar_current_highest_bid_cents :: "i64 option"
  ar_minimum_increment_cents :: i64
  ar_status :: string
  ar_start_time :: i64
  ar_end_time :: i64
  ar_listing_id_api :: string
  ar_seller_id_api :: string
  ar_auction_type_api :: string
  ar_starting_price :: f64
  ar_reserve_price :: f64
  ar_current_highest_bid :: "f64 option"
  ar_minimum_increment :: f64
  ar_start_time_api :: string
  ar_end_time_api :: string

definition auction_response_of :: "env \<Rightarrow> listing_record \<Rightarrow> auction_response" where
  "auction_response_of env r =
     \<lparr>ar_id = lr_id r, ar_listing_id = lr_listing_id r, ar_seller_id = lr_seller_id r,
      ar_auction_type = lr_auction_type r, ar_starting_price_cents = lr_starting_price_cents r,
      ar_reserve_price_cents = lr_reserve_price_cents r,
      ar_current_highest_bid_cents = lr_current_highest_bid_cents r,
      ar_minimum_increment_cents = lr_minimum_increment_cents r, ar_status = lr_status r,
      ar_start_time = lr_start_time r, ar_end_time = lr_end_time r,
      ar_listing_id_api = lr_listing_id r, ar_seller_id_api = lr_seller_id r,
      ar_auction_type_api = lr_auction_type r,
      ar_starting_price = cents_to_decimal (lr_starting_price_cents r),
      ar_reserve_price = cents_to_decimal (lr_reserve_price_cents r),
      ar_current_highest_bid = map_option cents_to_decimal (lr_current_highest_bid_cents r),
      ar_minimum_increment = cents_to_decimal (lr_minimum_increment_cents r),
      ar_start_time_api = unix_seconds_to_rfc3339 env (lr_start_time r),
      ar_end_time_api = unix_seconds_to_rfc3339 env (lr_end_time r)\<rparr>"

record auction_page_response =
  ap_items :: "auction_response list"
  ap_page :: i64
  ap_size :: i64
  ap_total_items :: i64
  ap_total_pages :: i64

record error_response = er_message :: string

record bid_response =
  bs_id :: string
  bs_auction_id :: string
  bs_bidder_id :: string
  bs_bid_amount_cents :: i64
  bs_bid_time :: i64
  bs_auction_id_api :: string
  bs_bidder_id_api :: string
  bs_bid_amount :: f64
  bs_bid_time_api :: string

definition bid_response_of :: "env \<Rightarrow> bid_record \<Rightarrow> bid_response" where
  "bid_response_of env b =
     \<lparr>bs_id = br_id b, bs_auction_id = br_auction_id b, bs_bidder_id = br_bidder_id b,
      bs_bid_amount_cents = br_bid_amount_cents b, bs_bid_time = br_bid_time b,
      bs_auction_id_api = br_auction_id b, bs_bidder_id_api = br_bidder_id b,
      bs_bid_amount = cents_to_decimal (br_bid_amount_cents b),
      bs_bid_time_api = unix_seconds_to_rfc3339 env (br_bid_time b)\<rparr>"

record bid_cursor_page_response =
  bp_items :: "bid_response list"
  bp_next_cursor :: "string option"
  bp_size :: i64

record proxy_bid_response =
  ps_auction_id :: string
  ps_bidder_id :: string
  ps_max_bid_amount_cents :: i64
  ps_active :: bool
  ps_auction_id_api :: string
  ps_bidder_id_api :: string
  ps_max_bid_amount_cents_api :: i64
  ps_max_bid_amount :: f64

definition proxy_bid_response_of :: "proxy_bid_record \<Rightarrow> proxy_bid_response" where
  "proxy_bid_response_of p =
     \<lparr>ps_auction_id = pr_auction_id p, ps_bidder_id = pr_bidder_id p,
      ps_max_bid_amount_cents = pr_max_bid_amount_cents p, ps_active = True,
      ps_auction_id_api = pr_auction_id p, ps_bidder_id_api = pr_bidder_id p,
      ps_max_bid_amount_cents_api = pr_max_bid_amount_cents p,
      ps_max_bid_amount = cents_to_decimal (pr_max_bid_amount_cents p)\<rparr>"

section \<open>Properties\<close>

lemma and_then_simps [simp]: "and_then (Inl e) f = Inl e" "and_then (Inr a) f = f a"
  by (simp_all add: and_then_def)

lemma and_then_Inr: "and_then r f = Inr b \<longleftrightarrow> (\<exists>a. r = Inr a \<and> f a = Inr b)"
  by (cases r) simp_all

text \<open>C39: an amount sent as the decimal the service itself reports for it is read back as the same
  number of cents: for any amount up to $2^{50}$ cents the errors of the division and of the
  multiplication stay below half a cent.\<close>

theorem decimal_amounts_roundtrip:
  assumes "\<bar>c\<bar> \<le> 2 ^ 50"
  shows "decimal_to_cents (cents_to_decimal c) = c"
proof (cases "c = 0")
  case True
  then show ?thesis
    by (simp add: decimal_to_cents_def cents_to_decimal_def f64_of_i64_def f64_round_def
        round_half_away_def i64_saturate_def i64_min_def i64_max_def floor_eq_iff)
next
  case False
  define x where "x = (of_int c :: rat)"
  have big: "1 \<le> \<bar>x\<bar>"
    using of_int_le_iff [where 'a = rat, of 1 "\<bar>c\<bar>"] False by (simp add: x_def)
  have small: "\<bar>x\<bar> \<le> 2 ^ 50"
    using of_int_le_iff [where 'a = rat, of "\<bar>c\<bar>" "2 ^ 50"] assms by (simp add: x_def)
  have exact: "f64_of_i64 c = Finite x" unfolding x_def by (rule f64_of_i64_exact) (use assms in simp)
  have "1 / 2 ^ 100 \<le> \<bar>x / 100\<bar>" "\<bar>x / 100\<bar> \<le> 2 ^ 100" using big small by simp_all
  then obtain q where q: "f64_round (x / 100) = Finite q" "\<bar>q - x / 100\<bar> \<le> \<bar>x / 100\<bar> / 2 ^ 53"
    using f64_round_error by blast
  have e1: "\<bar>q * 100 - x\<bar> \<le> \<bar>x\<bar> / 2 ^ 53" using q(2) by (simp add: abs_if field_simps split: if_splits)
  then have near: "\<bar>x\<bar> / 2 \<le> \<bar>q * 100\<bar>" "\<bar>q * 100\<bar> \<le> 2 * \<bar>x\<bar>" by (auto simp: abs_if split: if_splits)
  have "1 / 2 ^ 100 \<le> \<bar>q * 100\<bar>" "\<bar>q * 100\<bar> \<le> 2 ^ 100" using near big small by simp_all
  then obtain p where p: "f64_round (q * 100) = Finite p" "\<bar>p - q * 100\<bar> \<le> \<bar>q * 100\<bar> / 2 ^ 53"
    using f64_round_error by blast
  have "\<bar>p - x\<bar> < 1 / 2" using p(2) e1 near(2) small by (auto simp: abs_if split: if_splits)
  then have "round_half_away p = c" unfolding x_def by (rule round_half_away_near)
  moreover have "i64_range c" using assms by (auto simp: i64_range_def i64_min_def i64_max_def)
  ultimately show ?thesis
    using exact q(1) p(1) by (simp add: decimal_to_cents_def cents_to_decimal_def)
qed

theorem decimal_amounts_roundtrip_witness: "decimal_to_cents (cents_to_decimal 1050) = 1050"
  by (rule decimal_amounts_roundtrip) simp

end
