(* ===== verification/Metrics.thy ===== *)
theory Metrics
  imports Float64 Effects
begin

text \<open>
  The request metrics of \<^verbatim>\<open>http/router.rs\<close>, global atomic counters of 64 bits that wrap, the text of the
  \<^verbatim>\<open>/metrics\<close> endpoint, and its basic authentication (\<^verbatim>\<open>http/metrics_auth.rs\<close>). What the sources only call
  is the record \<open>web\<close>: the time a request took, base64, the printing of floating-point numbers, and
  \<^verbatim>\<open>chrono\<close>'s parser of RFC 3339 times.
\<close>

record web =
  web_parse_rfc3339 :: "string \<Rightarrow> i64 option"
  web_micros :: "nat \<Rightarrow> u64"
  web_uptime :: "nat \<Rightarrow> f64"
  web_base64_decode :: "string \<Rightarrow> string option"
  web_f64_text :: "f64 \<Rightarrow> string"
  web_f64_text4 :: "f64 \<Rightarrow> string"

section \<open>Counters\<close>

record request_metrics =
  total_requests :: u64
  total_errors :: u64
  apdex_satisfied :: u64
  apdex_tolerating :: u64
  apdex_frustrated :: u64
  latency_le_5ms :: u64
  latency_le_25ms :: u64
  latency_le_50ms :: u64
  latency_le_100ms :: u64
  latency_le_250ms :: u64
  latency_le_500ms :: u64
  latency_le_1000ms :: u64
  latency_le_2500ms :: u64
  latency_le_inf :: u64
  latency_sum_us :: u64
  bids_placed :: u64
  auctions_created :: u64
  auctions_closed :: u64

definition new_metrics :: request_metrics where
  "new_metrics = \<lparr>total_requests = 0, total_errors = 0, apdex_satisfied = 0, apdex_tolerating = 0,
     apdex_frustrated = 0, latency_le_5ms = 0, latency_le_25ms = 0, latency_le_50ms = 0,
     latency_le_100ms = 0, latency_le_250ms = 0, latency_le_500ms = 0, latency_le_1000ms = 0,
     latency_le_2500ms = 0, latency_le_inf = 0, latency_sum_us = 0, bids_placed = 0,
     auctions_created = 0, auctions_closed = 0\<rparr>"

text \<open>\<^verbatim>\<open>if cond { counter.fetch_add(1) }\<close>\<close>

definition count_if :: "bool \<Rightarrow> u64 \<Rightarrow> u64" where
  "count_if b n = (if b then n + 1 else n)"

definition record_request :: "u64 \<Rightarrow> bool \<Rightarrow> request_metrics \<Rightarrow> request_metrics" where
  "record_request duration_us is_error m =
     (let ms = duration_us div 1000 in
      m\<lparr>total_requests := total_requests m + 1,
        total_errors := count_if is_error (total_errors m),
        apdex_satisfied := count_if (ms \<le> 500) (apdex_satisfied m),
        apdex_tolerating := count_if (\<not> ms \<le> 500 \<and> ms \<le> 2000) (apdex_tolerating m),
        apdex_frustrated := count_if (\<not> ms \<le> 500 \<and> \<not> ms \<le> 2000) (apdex_frustrated m),
        latency_le_5ms := count_if (ms \<le> 5) (latency_le_5ms m),
        latency_le_25ms := count_if (ms \<le> 25) (latency_le_25ms m),
        latency_le_50ms := count_if (ms \<le> 50) (latency_le_50ms m),
        latency_le_100ms := count_if (ms \<le> 100) (latency_le_100ms m),
        latency_le_250ms := count_if (ms \<le> 250) (latency_le_250ms m),
        latency_le_500ms := count_if (ms \<le> 500) (latency_le_500ms m),
        latency_le_1000ms := count_if (ms \<le> 1000) (latency_le_1000ms m),
        latency_le_2500ms := count_if (ms \<le> 2500) (latency_le_2500ms m),
        latency_le_inf := latency_le_inf m + 1,
        latency_sum_us := latency_sum_us m + duration_us\<rparr>)"

section \<open>The metrics page\<close>

definition f64_of_u64 :: "u64 \<Rightarrow> f64" where
  "f64_of_u64 w = f64_round (of_int (uint w))"

text \<open>Apdex, with the division by the number of requests only when there was one.\<close>

definition apdex_score :: "request_metrics \<Rightarrow> f64" where
  "apdex_score m =
     (if 0 < total_requests m
      then f64_div (f64_add (f64_of_u64 (apdex_satisfied m)) (f64_div_by (f64_of_u64 (apdex_tolerating m)) 2))
        (f64_of_u64 (total_requests m))
      else Finite 1)"

definition u64_to_string :: "u64 \<Rightarrow> string" where
  "u64_to_string w = nat_to_dec (unat w)"

definition metric_head :: "string \<Rightarrow> string \<Rightarrow> string \<Rightarrow> string list" where
  "metric_head name help kind = [''# HELP '' @ name @ '' '' @ help, ''# TYPE '' @ name @ '' '' @ kind]"

definition metric_line :: "string \<Rightarrow> string \<Rightarrow> string" where
  \<open>metric_line name value = name @ ''{service="auction"} '' @ value\<close>

definition bucket_line :: "string \<Rightarrow> u64 \<Rightarrow> string" where
  \<open>bucket_line le n = ''bidmart_http_request_duration_seconds_bucket{service="auction",le="'' @ le @ ''"} ''
     @ u64_to_string n\<close>

definition metrics_lines :: "web \<Rightarrow> nat \<Rightarrow> request_metrics \<Rightarrow> string list" where
  "metrics_lines web now m =
     metric_head ''bidmart_service_up'' ''Service availability gauge'' ''gauge''
     @ [metric_line ''bidmart_service_up'' ''1'']
     @ metric_head ''bidmart_service_uptime_seconds'' ''Service uptime in seconds'' ''gauge''
     @ [metric_line ''bidmart_service_uptime_seconds'' (web_f64_text web (web_uptime web now))]
     @ metric_head ''bidmart_http_requests_total'' ''Total HTTP requests'' ''counter''
     @ [metric_line ''bidmart_http_requests_total'' (u64_to_string (total_requests m))]
     @ metric_head ''bidmart_http_errors_total'' ''Total HTTP error responses'' ''counter''
     @ [metric_line ''bidmart_http_errors_total'' (u64_to_string (total_errors m))]
     @ metric_head ''bidmart_apdex_score'' ''APDEX score (threshold 500ms satisfied, 2000ms tolerating)'' ''gauge''
     @ [metric_line ''bidmart_apdex_score'' (web_f64_text4 web (apdex_score m))]
     @ metric_head ''bidmart_apdex_satisfied_total'' ''Requests completed within satisfied threshold'' ''counter''
     @ [metric_line ''bidmart_apdex_satisfied_total'' (u64_to_string (apdex_satisfied m))]
     @ metric_head ''bidmart_apdex_tolerating_total'' ''Requests completed within tolerating threshold'' ''counter''
     @ [metric_line ''bidmart_apdex_tolerating_total'' (u64_to_string (apdex_tolerating m))]
     @ metric_head ''bidmart_http_request_duration_seconds'' ''HTTP request latency histogram'' ''histogram''
     @ [bucket_line ''0.005'' (latency_le_5ms m), bucket_line ''0.025'' (latency_le_25ms m),
        bucket_line ''0.05'' (latency_le_50ms m), bucket_line ''0.1'' (latency_le_100ms m),
        bucket_line ''0.25'' (latency_le_250ms m), bucket_line ''0.5'' (latency_le_500ms m),
        bucket_line ''1.0'' (latency_le_1000ms m), bucket_line ''2.5'' (latency_le_2500ms m),
        bucket_line ''+Inf'' (latency_le_inf m),
        metric_line ''bidmart_http_request_duration_seconds_sum''
          (web_f64_text web (f64_div_by (f64_of_u64 (latency_sum_us m)) 1000000)),
        metric_line ''bidmart_http_request_duration_seconds_count'' (u64_to_string (total_requests m))]
     @ metric_head ''bidmart_bids_placed_total'' ''Total bids placed'' ''counter''
     @ [metric_line ''bidmart_bids_placed_total'' (u64_to_string (bids_placed m))]
     @ metric_head ''bidmart_auctions_created_total'' ''Total auctions created'' ''counter''
     @ [metric_line ''bidmart_auctions_created_total'' (u64_to_string (auctions_created m))]
     @ metric_head ''bidmart_auctions_closed_total'' ''Total auctions closed/settled'' ''counter''
     @ [metric_line ''bidmart_auctions_closed_total'' (u64_to_string (auctions_closed m))]"

definition metrics_text :: "web \<Rightarrow> nat \<Rightarrow> request_metrics \<Rightarrow> string" where
  "metrics_text web now m = concat (map (\<lambda>l. l @ [CHR 0x0A]) (metrics_lines web now m))"

section \<open>Basic authentication\<close>

definition metrics_credentials :: "env \<Rightarrow> (string \<times> string) option" where
  "metrics_credentials env =
     (case env_var env ''METRICS_BASIC_USER'' of
        None \<Rightarrow> None
      | Some user \<Rightarrow>
          (case env_var env ''METRICS_BASIC_PASSWORD'' of
             None \<Rightarrow> None
           | Some pass \<Rightarrow> if user = [] \<or> pass = [] then None else Some (user, pass)))"

definition split_once :: "char \<Rightarrow> string \<Rightarrow> (string \<times> string) option" where
  "split_once sep s = (case dropWhile (\<lambda>c. c \<noteq> sep) s of
       [] \<Rightarrow> None
     | _ # rest \<Rightarrow> Some (takeWhile (\<lambda>c. c \<noteq> sep) s, rest))"

definition strip_prefix :: "string \<Rightarrow> string \<Rightarrow> string option" where
  "strip_prefix p s = (if take (length p) s = p then Some (drop (length p) s) else None)"

definition parse_basic_credentials :: "web \<Rightarrow> string \<Rightarrow> (string \<times> string) option" where
  "parse_basic_credentials web header =
     (case strip_prefix ''Basic '' header of
        None \<Rightarrow> None
      | Some encoded \<Rightarrow>
          (case web_base64_decode web (trim encoded) of
             None \<Rightarrow> None
           | Some decoded \<Rightarrow> if utf8_valid decoded then split_once CHR '':'' decoded else None))"

text \<open>Whether \<^verbatim>\<open>require_metrics_basic_auth\<close> lets a request through; the argument is the text of its
  \<^verbatim>\<open>authorization\<close> header, if it has one.\<close>

definition metrics_authorized :: "web \<Rightarrow> env \<Rightarrow> string option \<Rightarrow> bool" where
  "metrics_authorized web env authorization =
     (case metrics_credentials env of
        None \<Rightarrow> True
      | Some (user, pass) \<Rightarrow>
          (case Option.bind authorization (parse_basic_credentials web) of
             None \<Rightarrow> False
           | Some (u, p) \<Rightarrow> u = user \<and> p = pass))"

lemma split_once_Some_iff:
  assumes "sep \<notin> set a"
  shows "split_once sep s = Some (a, b) \<longleftrightarrow> s = a @ sep # b"
proof
  assume "split_once sep s = Some (a, b)"
  then have "takeWhile (\<lambda>c. c \<noteq> sep) s = a" "\<exists>x. dropWhile (\<lambda>c. c \<noteq> sep) s = x # b"
    by (auto simp: split_once_def split: list.splits)
  moreover from this obtain x where x: "dropWhile (\<lambda>c. c \<noteq> sep) s = x # b" by blast
  then have "x = sep" using hd_dropWhile [of "\<lambda>c. c \<noteq> sep" s] by simp
  ultimately show "s = a @ sep # b" using takeWhile_dropWhile_id [of "\<lambda>c. c \<noteq> sep" s] x by simp
next
  assume s: "s = a @ sep # b"
  have all: "\<And>c. c \<in> set a \<Longrightarrow> c \<noteq> sep" using assms by auto
  then have "takeWhile (\<lambda>c. c \<noteq> sep) s = a" "dropWhile (\<lambda>c. c \<noteq> sep) s = sep # b"
    by (simp_all add: s takeWhile_append dropWhile_append)
  then show "split_once sep s = Some (a, b)" by (simp add: split_once_def)
qed

lemma strip_prefix_Some_iff: "strip_prefix p s = Some r \<longleftrightarrow> s = p @ r"
  by (auto simp: strip_prefix_def) (metis append_take_drop_id)

end
