(* ===== verification/Http.thy ===== *)
theory Http
  imports Dto Metrics CreateService Closure Queries BidService
begin

text \<open>
  \<^verbatim>\<open>http/router.rs\<close>: the handlers of the HTTP API with the identity of the caller, the errors as
  responses, and the layers around them. A handler works on the service's world and the global
  metrics. What \<^verbatim>\<open>axum\<close> does (reading a request into the arguments of its handler, choosing the route
  for a path, writing the response) is outside: a request is the endpoint with the extracted
  arguments, a response its status, the headers the sources set, and its body.
\<close>

section \<open>Errors\<close>

record api_error =
  ae_status :: nat
  ae_message :: string

definition not_found :: "string \<Rightarrow> api_error" where
  "not_found m = \<lparr>ae_status = 404, ae_message = m\<rparr>"

definition bad_request :: "string \<Rightarrow> api_error" where
  "bad_request m = \<lparr>ae_status = 400, ae_message = m\<rparr>"

definition forbidden :: "string \<Rightarrow> api_error" where
  "forbidden m = \<lparr>ae_status = 403, ae_message = m\<rparr>"

fun api_error_of_create :: "create_auction_error \<Rightarrow> api_error" where
  "api_error_of_create (CreateInvalidInput m) = \<lparr>ae_status = 400, ae_message = m\<rparr>"
| "api_error_of_create (CreateDatabaseError m) = \<lparr>ae_status = 500, ae_message = m\<rparr>"

fun api_error_of_get :: "get_session_error \<Rightarrow> api_error" where
  "api_error_of_get (GetDatabaseError m) = \<lparr>ae_status = 500, ae_message = m\<rparr>"

fun api_error_of_list :: "list_sessions_error \<Rightarrow> api_error" where
  "api_error_of_list (ListSessionsDatabaseError m) = \<lparr>ae_status = 500, ae_message = m\<rparr>"

fun api_error_of_pending :: "list_pending_closure_error \<Rightarrow> api_error" where
  "api_error_of_pending (ListPendingDatabaseError m) = \<lparr>ae_status = 500, ae_message = m\<rparr>"

fun api_error_of_close :: "close_session_error \<Rightarrow> api_error" where
  "api_error_of_close CloseAuctionNotFound = \<lparr>ae_status = 404, ae_message = ''listing not found''\<rparr>"
| "api_error_of_close CloseAuctionNotEnded =
     \<lparr>ae_status = 400, ae_message = ''listing has not reached its end time''\<rparr>"
| "api_error_of_close (CloseWalletError m) = \<lparr>ae_status = 402, ae_message = m\<rparr>"
| "api_error_of_close (CloseDatabaseError m) = \<lparr>ae_status = 500, ae_message = m\<rparr>"

fun bid_error_text :: "bid_error \<Rightarrow> string" where
  "bid_error_text (AuctionNotActive st) = ''auction is not active''"
| "bid_error_text (AuctionNotStarted t) = ''auction has not started yet''"
| "bid_error_text (AuctionEnded t) = ''auction already ended''"
| "bid_error_text (BidTooLow m) = ''bid amount below minimum required''"
| "bid_error_text (SelfBiddingNotAllowed u) = ''self bidding is not allowed''"

fun api_error_of_place :: "place_bid_error \<Rightarrow> api_error" where
  "api_error_of_place PlaceAuctionNotFound = \<lparr>ae_status = 404, ae_message = ''listing not found''\<rparr>"
| "api_error_of_place (PlaceBidError e) = \<lparr>ae_status = 400, ae_message = bid_error_text e\<rparr>"
| "api_error_of_place (PlaceCatalogError m) = \<lparr>ae_status = 400, ae_message = m\<rparr>"
| "api_error_of_place (PlaceWalletError m) = \<lparr>ae_status = 402, ae_message = m\<rparr>"
| "api_error_of_place (PlaceDatabaseError m) = \<lparr>ae_status = 500, ae_message = m\<rparr>"

fun api_error_of_bids :: "list_bids_error \<Rightarrow> api_error" where
  "api_error_of_bids (ListBidsInvalidInput m) = \<lparr>ae_status = 400, ae_message = m\<rparr>"
| "api_error_of_bids (ListBidsDatabaseError m) = \<lparr>ae_status = 500, ae_message = m\<rparr>"

section \<open>The caller's identity\<close>

text \<open>The value of a request header, if it is there and is printable text.\<close>

type_synonym request_headers = "string \<Rightarrow> string option"

definition trusted_user_id :: "request_headers \<Rightarrow> string option" where
  "trusted_user_id headers =
     (case map_option trim (headers ''x-user-id'') of
        None \<Rightarrow> None
      | Some v \<Rightarrow> if v = [] then None else Some v)"

definition apply_trusted_user_id :: "request_headers \<Rightarrow> string option \<Rightarrow> string \<Rightarrow> api_error + string option" where
  "apply_trusted_user_id headers request_user_id field =
     (case trusted_user_id headers of
        None \<Rightarrow> Inr request_user_id
      | Some trusted \<Rightarrow>
          (case request_user_id of
             Some body_user \<Rightarrow>
               if body_user \<noteq> [] \<and> body_user \<noteq> trusted
               then Inl (forbidden (field @ '' does not match authenticated user''))
               else Inr (Some trusted)
           | None \<Rightarrow> Inr (Some trusted)))"

definition resolve_trusted_user_id :: "request_headers \<Rightarrow> string option \<Rightarrow> string \<Rightarrow> api_error + string" where
  "resolve_trusted_user_id headers request_user_id field =
     and_then (apply_trusted_user_id headers request_user_id field) (\<lambda>resolved.
     case resolved of
       Some u \<Rightarrow> Inr u
     | None \<Rightarrow> Inl (bad_request (field @ '' is required'')))"

section \<open>Handlers\<close>

record web_state =
  web_metrics :: request_metrics
  web_world :: world

type_synonym 'a handler = "web_state \<Rightarrow> (api_error + 'a) \<times> web_state"

definition retH :: "'a \<Rightarrow> 'a handler" where
  "retH a s = (Inr a, s)"

definition resultH :: "(api_error + 'a) \<Rightarrow> 'a handler" where
  "resultH r s = (r, s)"

definition bindH :: "'a handler \<Rightarrow> ('a \<Rightarrow> 'b handler) \<Rightarrow> 'b handler" where
  "bindH m f s = (case m s of (Inl e, s1) \<Rightarrow> (Inl e, s1) | (Inr a, s1) \<Rightarrow> f a s1)"

text \<open>A call of the service; \<^verbatim>\<open>?\<close> turns its error into an \<^verbatim>\<open>ApiError\<close>.\<close>

definition callH :: "('e \<Rightarrow> api_error) \<Rightarrow> ('e, 'a) svc \<Rightarrow> 'a handler" where
  "callH to_api m s = (case m (web_world s) of
       (Inl e, w) \<Rightarrow> (Inl (to_api e), s\<lparr>web_world := w\<rparr>)
     | (Inr a, w) \<Rightarrow> (Inr a, s\<lparr>web_world := w\<rparr>))"

text \<open>The same with \<^verbatim>\<open>METRICS.record_request(..)\<close> between the call and its \<^verbatim>\<open>?\<close>.\<close>

definition recordedH :: "web \<Rightarrow> ('e \<Rightarrow> api_error) \<Rightarrow> ('e, 'a) svc \<Rightarrow> 'a handler" where
  "recordedH web to_api m s = (case m (web_world s) of
       (Inl e, w) \<Rightarrow>
         (Inl (to_api e), \<lparr>web_metrics = record_request (web_micros web (tick w)) True (web_metrics s), web_world = w\<rparr>)
     | (Inr a, w) \<Rightarrow>
         (Inr a, \<lparr>web_metrics = record_request (web_micros web (tick w)) False (web_metrics s), web_world = w\<rparr>))"

definition countH :: "(request_metrics \<Rightarrow> request_metrics) \<Rightarrow> unit handler" where
  "countH f s = (Inr (), s\<lparr>web_metrics := f (web_metrics s)\<rparr>)"

definition count_bid :: "request_metrics \<Rightarrow> request_metrics" where
  "count_bid m = m\<lparr>bids_placed := bids_placed m + 1\<rparr>"

definition count_created :: "request_metrics \<Rightarrow> request_metrics" where
  "count_created m = m\<lparr>auctions_created := auctions_created m + 1\<rparr>"

definition count_closed :: "request_metrics \<Rightarrow> request_metrics" where
  "count_closed m = m\<lparr>auctions_closed := auctions_closed m + 1\<rparr>"

definition or_bad_request :: "string + 'a \<Rightarrow> api_error + 'a" where
  "or_bad_request r = (case r of Inl m \<Rightarrow> Inl (bad_request m) | Inr a \<Rightarrow> Inr a)"

definition or_error :: "api_error \<Rightarrow> 'a option \<Rightarrow> api_error + 'a" where
  "or_error e v = (case v of None \<Rightarrow> Inl e | Some a \<Rightarrow> Inr a)"

definition http_create_auction :: "web \<Rightarrow> env \<Rightarrow> request_headers \<Rightarrow> create_auction_request
    \<Rightarrow> (nat \<times> auction_response) handler" where
  "http_create_auction web env headers request =
     bindH (resultH (apply_trusted_user_id headers (cr_seller_id request) ''seller_id'')) (\<lambda>seller.
     bindH (resultH (or_bad_request
       (try_into_command (web_parse_rfc3339 web) (request\<lparr>cr_seller_id := seller\<rparr>)))) (\<lambda>command.
     bindH (recordedH web api_error_of_create (create_auction env command)) (\<lambda>auction.
     bindH (countH count_created) (\<lambda>_.
     retH (201, auction_response_of env auction)))))"

definition http_list_auctions :: "env \<Rightarrow> auction_page_response handler" where
  "http_list_auctions env =
     bindH (callH api_error_of_list (list_auctions env)) (\<lambda>auctions.
     let items = map (auction_response_of env) auctions; size = int (length items) in
     retH \<lparr>ap_items = items, ap_page = 0, ap_size = size, ap_total_items = size,
       ap_total_pages = (if size = 0 then 0 else 1)\<rparr>)"

definition http_get_auction_by_id :: "env \<Rightarrow> string \<Rightarrow> auction_response handler" where
  "http_get_auction_by_id env listing_id =
     bindH (callH api_error_of_get (get_auction_by_id env listing_id)) (\<lambda>found.
     bindH (resultH (or_error (not_found ''listing not found'') found)) (\<lambda>auction.
     retH (auction_response_of env auction)))"

definition http_list_pending_closure :: "env \<Rightarrow> auction_response list handler" where
  "http_list_pending_closure env =
     bindH (callH api_error_of_pending (list_pending_closures env)) (\<lambda>auctions.
     retH (map (auction_response_of env) auctions))"

definition http_close_auction :: "web \<Rightarrow> env \<Rightarrow> string \<Rightarrow> auction_response handler" where
  "http_close_auction web env listing_id =
     bindH (recordedH web api_error_of_close (close_auction env listing_id)) (\<lambda>auction.
     bindH (countH count_closed) (\<lambda>_.
     retH (auction_response_of env auction)))"

definition http_place_bid :: "web \<Rightarrow> env \<Rightarrow> request_headers \<Rightarrow> string \<Rightarrow> place_bid_request
    \<Rightarrow> (nat \<times> bid_response) handler" where
  "http_place_bid web env headers listing_id request =
     bindH (resultH (resolve_trusted_user_id headers (pb_bidder_id request) ''bidder_id'')) (\<lambda>bidder.
     bindH (resultH (or_error (bad_request ''bid_amount is required'') (bid_request_amount_cents request))) (\<lambda>amount.
     bindH (recordedH web api_error_of_place
       (bindS (utc_now env) (\<lambda>now. place_bid_and_persist env listing_id bidder amount now))) (\<lambda>bid.
     bindH (countH count_bid) (\<lambda>_.
     retH (201, bid_response_of env bid)))))"

definition http_list_bids :: "env \<Rightarrow> string \<Rightarrow> bid_response list handler" where
  "http_list_bids env listing_id =
     bindH (callH api_error_of_bids (list_bids env listing_id)) (\<lambda>found.
     retH (map (bid_response_of env) found))"

definition http_list_bids_cursor :: "env \<Rightarrow> string \<Rightarrow> string option \<Rightarrow> i64 option
    \<Rightarrow> bid_cursor_page_response handler" where
  "http_list_bids_cursor env listing_id cursor limit =
     bindH (callH api_error_of_bids (list_bids_with_cursor env listing_id cursor limit)) (\<lambda>page.
     retH \<lparr>bp_items = map (bid_response_of env) (page_items page), bp_next_cursor = page_next_cursor page,
       bp_size = page_size page\<rparr>)"

definition http_place_proxy_bid :: "web \<Rightarrow> env \<Rightarrow> request_headers \<Rightarrow> string \<Rightarrow> place_proxy_bid_request
    \<Rightarrow> (nat \<times> bid_response) handler" where
  "http_place_proxy_bid web env headers listing_id request =
     bindH (resultH (resolve_trusted_user_id headers (pp_bidder_id request) ''bidder_id'')) (\<lambda>bidder.
     bindH (resultH (or_error (bad_request ''max_bid_amount is required'') (max_bid_amount_cents request))) (\<lambda>amount.
     bindH (recordedH web api_error_of_place
       (bindS (utc_now env) (\<lambda>now. place_proxy_bid_and_persist env listing_id bidder amount now))) (\<lambda>bid.
     bindH (countH count_bid) (\<lambda>_.
     retH (201, bid_response_of env bid)))))"

definition http_get_proxy_bid :: "env \<Rightarrow> request_headers \<Rightarrow> string \<Rightarrow> string \<Rightarrow> proxy_bid_response handler" where
  "http_get_proxy_bid env headers listing_id bidder_id =
     bindH (resultH (resolve_trusted_user_id headers (Some bidder_id) ''bidder_id'')) (\<lambda>bidder.
     bindH (callH api_error_of_bids (get_proxy_bid env listing_id bidder)) (\<lambda>found.
     bindH (resultH (or_error (not_found ''proxy bid not found'') found)) (\<lambda>p.
     retH (proxy_bid_response_of p))))"

definition http_delete_proxy_bid :: "env \<Rightarrow> request_headers \<Rightarrow> string \<Rightarrow> string \<Rightarrow> nat handler" where
  "http_delete_proxy_bid env headers listing_id bidder_id =
     bindH (resultH (resolve_trusted_user_id headers (Some bidder_id) ''bidder_id'')) (\<lambda>bidder.
     bindH (callH api_error_of_bids (delete_proxy_bid env listing_id bidder)) (\<lambda>_.
     retH 204))"

section \<open>Requests and responses\<close>

datatype http_request =
    ReqListAuctions
  | ReqCreateAuction create_auction_request
  | ReqGetAuction string
  | ReqPendingClosure
  | ReqCloseAuction string
  | ReqListBids string
  | ReqPlaceBid string place_bid_request
  | ReqBidsCursor string "string option" "i64 option"
  | ReqPlaceProxyBid string place_proxy_bid_request
  | ReqGetProxyBid string string
  | ReqDeleteProxyBid string string
  | ReqMetrics

datatype http_body =
    is_empty_body: EmptyBody
  | is_auction_body: AuctionBody auction_response
  | is_auction_page_body: AuctionPageBody auction_page_response
  | is_auctions_body: AuctionsBody "auction_response list"
  | is_bid_body: BidBody bid_response
  | is_bids_body: BidsBody "bid_response list"
  | is_bid_page_body: BidPageBody bid_cursor_page_response
  | is_proxy_bid_body: ProxyBidBody proxy_bid_response
  | is_error_body: ErrorBody error_response
  | is_text_body: TextBody string

record http_response =
  resp_status :: nat
  resp_headers :: "(string \<times> string) list"
  resp_body :: http_body

definition respond :: "nat \<Rightarrow> http_body \<Rightarrow> http_response" where
  "respond st b = \<lparr>resp_status = st, resp_headers = [], resp_body = b\<rparr>"

definition error_into_response :: "api_error \<Rightarrow> http_response" where
  "error_into_response e = respond (ae_status e) (ErrorBody \<lparr>er_message = ae_message e\<rparr>)"

definition into_response :: "('a \<Rightarrow> http_response) \<Rightarrow> 'a handler \<Rightarrow> web_state \<Rightarrow> http_response \<times> web_state" where
  "into_response f m s = (case m s of (Inl e, s1) \<Rightarrow> (error_into_response e, s1) | (Inr a, s1) \<Rightarrow> (f a, s1))"

text \<open>\<^verbatim>\<open>HeaderMap::insert\<close> replaces the values a name has.\<close>

definition insert_header :: "string \<Rightarrow> string \<Rightarrow> http_response \<Rightarrow> http_response" where
  "insert_header name v r = r\<lparr>resp_headers := filter (\<lambda>h. fst h \<noteq> name) (resp_headers r) @ [(name, v)]\<rparr>"

definition security_headers :: "http_response \<Rightarrow> http_response" where
  "security_headers r =
     insert_header ''cache-control'' ''no-store, no-cache, must-revalidate''
     (insert_header ''referrer-policy'' ''strict-origin-when-cross-origin''
     (insert_header ''x-xss-protection'' ''1; mode=block''
     (insert_header ''x-frame-options'' ''DENY''
     (insert_header ''x-content-type-options'' ''nosniff'' r))))"

definition http_metrics :: "web \<Rightarrow> web_state \<Rightarrow> http_response" where
  "http_metrics web s = insert_header ''content-type'' ''text/plain; version=0.0.4; charset=utf-8''
     (respond 200 (TextBody (metrics_text web (tick (web_world s)) (web_metrics s))))"

definition require_metrics_basic_auth :: "web \<Rightarrow> env \<Rightarrow> request_headers \<Rightarrow> web_state \<Rightarrow> http_response" where
  \<open>require_metrics_basic_auth web env headers s =
     (if metrics_authorized web env (headers ''authorization'') then http_metrics web s
      else insert_header ''www-authenticate'' ''Basic realm="metrics"'' (respond 401 (TextBody ''Unauthorized'')))\<close>

fun dispatch :: "web \<Rightarrow> env \<Rightarrow> request_headers \<Rightarrow> http_request \<Rightarrow> web_state \<Rightarrow> http_response \<times> web_state" where
  "dispatch web env headers ReqListAuctions =
     into_response (\<lambda>p. respond 200 (AuctionPageBody p)) (http_list_auctions env)"
| "dispatch web env headers (ReqCreateAuction q) =
     into_response (\<lambda>(st, a). respond st (AuctionBody a)) (http_create_auction web env headers q)"
| "dispatch web env headers (ReqGetAuction i) =
     into_response (\<lambda>a. respond 200 (AuctionBody a)) (http_get_auction_by_id env i)"
| "dispatch web env headers ReqPendingClosure =
     into_response (\<lambda>as. respond 200 (AuctionsBody as)) (http_list_pending_closure env)"
| "dispatch web env headers (ReqCloseAuction i) =
     into_response (\<lambda>a. respond 200 (AuctionBody a)) (http_close_auction web env i)"
| "dispatch web env headers (ReqListBids i) =
     into_response (\<lambda>bs. respond 200 (BidsBody bs)) (http_list_bids env i)"
| "dispatch web env headers (ReqPlaceBid i q) =
     into_response (\<lambda>(st, b). respond st (BidBody b)) (http_place_bid web env headers i q)"
| "dispatch web env headers (ReqBidsCursor i c l) =
     into_response (\<lambda>p. respond 200 (BidPageBody p)) (http_list_bids_cursor env i c l)"
| "dispatch web env headers (ReqPlaceProxyBid i q) =
     into_response (\<lambda>(st, b). respond st (BidBody b)) (http_place_proxy_bid web env headers i q)"
| "dispatch web env headers (ReqGetProxyBid i u) =
     into_response (\<lambda>p. respond 200 (ProxyBidBody p)) (http_get_proxy_bid env headers i u)"
| "dispatch web env headers (ReqDeleteProxyBid i u) =
     into_response (\<lambda>st. respond st EmptyBody) (http_delete_proxy_bid env headers i u)"
| "dispatch web env headers ReqMetrics = (\<lambda>s. (require_metrics_basic_auth web env headers s, s))"

text \<open>One request through the layers of the router.\<close>

definition serve :: "web \<Rightarrow> env \<Rightarrow> request_headers \<Rightarrow> http_request \<Rightarrow> web_state \<Rightarrow> http_response \<times> web_state" where
  "serve web env headers q s = (case dispatch web env headers q s of (r, s1) \<Rightarrow> (security_headers r, s1))"

section \<open>Routes\<close>

datatype http_method = GET | POST | DELETE

datatype endpoint =
    EpListAuctions | EpCreateAuction | EpGetAuction | EpMetrics | EpListBids | EpPlaceBid | EpBidsCursor
  | EpPlaceProxyBid | EpGetProxyBid | EpDeleteProxyBid | EpPendingClosure | EpCloseAuction

text \<open>The route table; how \<^verbatim>\<open>axum\<close> matches a path against a pattern is not part of it.\<close>

definition create_router :: "(string \<times> (http_method \<times> endpoint) list) list" where
  "create_router =
     [(''/listings'', [(GET, EpListAuctions), (POST, EpCreateAuction)]),
      (''/listings/:listing_id'', [(GET, EpGetAuction)]),
      (''/metrics'', [(GET, EpMetrics)]),
      (''/listings/:listing_id/bids'', [(GET, EpListBids), (POST, EpPlaceBid)]),
      (''/listings/:listing_id/bids/cursor'', [(GET, EpBidsCursor), (POST, EpPlaceProxyBid)]),
      (''/listings/:listing_id/proxy-bids/:bidder_id'', [(GET, EpGetProxyBid), (DELETE, EpDeleteProxyBid)]),
      (''/api/v1/listings'', [(GET, EpListAuctions), (POST, EpCreateAuction)]),
      (''/api/v1/listings/pending-closure'', [(GET, EpPendingClosure)]),
      (''/api/v1/listings/:listing_id'', [(GET, EpGetAuction)]),
      (''/api/v1/listings/:listing_id/close'', [(POST, EpCloseAuction)]),
      (''/api/v1/listings/:listing_id/bids'', [(GET, EpListBids), (POST, EpPlaceBid)]),
      (''/api/v1/listings/:listing_id/bids/cursor'', [(GET, EpBidsCursor), (POST, EpPlaceProxyBid)]),
      (''/api/v1/listings/:listing_id/proxy-bids/:bidder_id'', [(GET, EpGetProxyBid), (DELETE, EpDeleteProxyBid)])]"

definition route :: "http_method \<Rightarrow> string \<Rightarrow> endpoint option" where
  "route m p = Option.bind (map_of create_router p) (\<lambda>es. map_of es m)"

end
