(* ===== verification/HttpFacts.thy ===== *)
theory HttpFacts
  imports Http ServiceSteps BidOutcome
begin

text \<open>
  What the HTTP layer adds to the service: every request keeps the relations the service's calls keep,
  the metrics account for the requests, callers act under their trusted identity, reads only read,
  every response carries the security headers, and the metrics page is protected.
\<close>

section \<open>Handlers and the world\<close>

definition handler_keeps :: "(world \<Rightarrow> world \<Rightarrow> bool) \<Rightarrow> 'a handler \<Rightarrow> bool" where
  "handler_keeps R h \<longleftrightarrow> (\<forall>s. R (web_world s) (web_world (snd (h s))))"

named_theorems handler_intros \<open>introduction rules for handler_keeps\<close>

context run_relation
begin

lemma handler_ret [handler_intros]: "handler_keeps R (retH a)"
  and handler_result [handler_intros]: "handler_keeps R (resultH r)"
  and handler_count [handler_intros]: "handler_keeps R (countH f)"
  by (simp_all add: handler_keeps_def retH_def resultH_def countH_def R_refl)

lemma handler_bind [handler_intros]:
  "handler_keeps R m \<Longrightarrow> (\<And>a. handler_keeps R (f a)) \<Longrightarrow> handler_keeps R (bindH m f)"
  unfolding handler_keeps_def bindH_def
  by (auto split: prod.split sum.split) (metis R_trans snd_conv)+

lemma handler_call [handler_intros]: "keeps R m \<Longrightarrow> handler_keeps R (callH e m)"
  and handler_recorded [handler_intros]: "keeps R m \<Longrightarrow> handler_keeps R (recordedH web e m)"
  unfolding keeps_def handler_keeps_def callH_def recordedH_def
  by (auto split: prod.split sum.split) (metis snd_conv)+

lemma handler_response: "handler_keeps R m \<Longrightarrow> R (web_world s) (web_world (snd (into_response f m s)))"
  unfolding handler_keeps_def into_response_def by (auto split: prod.split sum.split) (metis snd_conv)+

end

lemmas query_defs = get_auction_by_id_def list_auction_query_get_def list_auctions_def list_auction_query_list_def
  list_pending_closures_def list_auction_query_pending_def list_bids_def list_bid_query_list_def
  list_bids_with_cursor_def list_bid_query_list_cursor_def get_proxy_bid_def list_bid_query_get_proxy_bid_def

lemmas write_defs = create_auction_def create_auction_handler_def close_auction_def close_handler_close_def
  delete_proxy_bid_def list_bid_query_delete_proxy_bid_def place_bid_and_persist_def place_bid_handler_def
  place_bid_core_def place_proxy_bid_and_persist_def place_proxy_bid_handler_def place_proxy_bid_core_def

lemma unchanged_handlers [handler_intros]:
  "handler_keeps unchanged (http_list_auctions env)"
  "handler_keeps unchanged (http_get_auction_by_id env i)"
  "handler_keeps unchanged (http_list_pending_closure env)"
  "handler_keeps unchanged (http_list_bids env i)"
  "handler_keeps unchanged (http_list_bids_cursor env i c l)"
  "handler_keeps unchanged (http_get_proxy_bid env hs i u)"
  unfolding http_list_auctions_def http_get_auction_by_id_def http_list_pending_closure_def http_list_bids_def
    http_list_bids_cursor_def http_get_proxy_bid_def query_defs Let_def
  by (intro unchanged.handler_ret unchanged.handler_result unchanged.handler_bind unchanged.handler_call keeps_intros)+

lemma stepping_of_unchanged_handler: "handler_keeps unchanged h \<Longrightarrow> handler_keeps stepping h"
  by (auto simp: handler_keeps_def intro: stepping_unchanged)

lemma stepping_handlers [handler_intros]:
  "handler_keeps stepping (http_create_auction web env hs q)"
  "handler_keeps stepping (http_close_auction web env i)"
  "handler_keeps stepping (http_place_bid web env hs i bq)"
  "handler_keeps stepping (http_place_proxy_bid web env hs i pq)"
  "handler_keeps stepping (http_delete_proxy_bid env hs i u)"
  unfolding http_create_auction_def http_close_auction_def http_place_bid_def http_place_proxy_bid_def
    http_delete_proxy_bid_def write_defs
  by (intro handler_intros keeps_intros step_service.placed_bid)+

lemma serve_stepping: "stepping (web_world s) (web_world (snd (serve web env hs q s)))"
  by (cases q) (auto simp: serve_def stepping.R_refl split: prod.split
      dest!: arg_cong [where f = snd]
      intro!: stepping.handler_response handler_intros stepping_of_unchanged_handler)

text \<open>Any sequence of requests, each with its own environment, on one process.\<close>

definition serve_all :: "(web \<times> env \<times> request_headers \<times> http_request) list \<Rightarrow> web_state \<Rightarrow> web_state" where
  "serve_all qs s = fold (\<lambda>(web, env, hs, q) s. snd (serve web env hs q s)) qs s"

definition fresh_state :: "world \<Rightarrow> web_state" where
  "fresh_state w = \<lparr>web_metrics = new_metrics, web_world = w\<rparr>"

lemma serve_all_invariant:
  assumes "\<And>web env hs q s. I s \<Longrightarrow> I (snd (serve web env hs q s))"
  shows "I s \<Longrightarrow> I (serve_all qs s)"
  unfolding serve_all_def by (induction qs arbitrary: s) (auto simp: assms)

text \<open>Whatever requests arrive, in whatever order and with whatever faults, the tables keep their
  integrity.\<close>

lemma http_keeps_integrity: "store_ok (db (web_world (serve_all qs (fresh_state start_world))))"
proof (rule serve_all_invariant [where I = "\<lambda>s. store_ok (db (web_world s))"])
  show "store_ok (db (web_world (snd (serve web env hs q s))))" if "store_ok (db (web_world s))" for web env hs q s
    using serve_stepping [of s web env hs q] steps_store_ok that by (auto simp: stepping_def)
qed (simp add: fresh_state_def start_world_def empty_store_ok)

section \<open>Metrics\<close>

text \<open>The counters as the metrics page sums them up: every recorded request is in one Apdex class and in
  the last histogram bucket, the bucket at the Apdex threshold counts the satisfied requests, and
  every one either failed or did what its own counter counts.\<close>

definition metrics_ok :: "request_metrics \<Rightarrow> bool" where
  "metrics_ok m \<longleftrightarrow> apdex_satisfied m + apdex_tolerating m + apdex_frustrated m = total_requests m
     \<and> latency_le_inf m = total_requests m \<and> latency_le_500ms m = apdex_satisfied m
     \<and> total_errors m + auctions_created m + auctions_closed m + bids_placed m = total_requests m"

lemma metrics_ok_error: "metrics_ok m \<Longrightarrow> metrics_ok (record_request d True m)"
  by (auto simp: metrics_ok_def record_request_def count_if_def Let_def algebra_simps)

lemma metrics_ok_success:
  assumes "metrics_ok m"
  shows "metrics_ok (count_created (record_request d False m))" "metrics_ok (count_closed (record_request d False m))"
    "metrics_ok (count_bid (record_request d False m))"
  using assms
  by (auto simp: metrics_ok_def record_request_def count_if_def count_created_def count_closed_def count_bid_def
      Let_def algebra_simps)

lemmas handler_defs = bindH_def resultH_def retH_def callH_def recordedH_def countH_def

lemma metrics_ok_handlers:
  assumes "metrics_ok (web_metrics s)"
  shows "metrics_ok (web_metrics (snd (http_create_auction web env hs q s)))"
    "metrics_ok (web_metrics (snd (http_close_auction web env i s)))"
    "metrics_ok (web_metrics (snd (http_place_bid web env hs i bq s)))"
    "metrics_ok (web_metrics (snd (http_place_proxy_bid web env hs i pq s)))"
  using assms metrics_ok_error metrics_ok_success
  by (auto simp: http_create_auction_def http_close_auction_def http_place_bid_def http_place_proxy_bid_def
      handler_defs split: prod.split sum.split)

lemma other_handlers_metrics [simp]:
  "web_metrics (snd (http_list_auctions env s)) = web_metrics s"
  "web_metrics (snd (http_get_auction_by_id env i s)) = web_metrics s"
  "web_metrics (snd (http_list_pending_closure env s)) = web_metrics s"
  "web_metrics (snd (http_list_bids env i s)) = web_metrics s"
  "web_metrics (snd (http_list_bids_cursor env i c l s)) = web_metrics s"
  "web_metrics (snd (http_get_proxy_bid env hs i u s)) = web_metrics s"
  "web_metrics (snd (http_delete_proxy_bid env hs i u s)) = web_metrics s"
  by (simp_all add: http_list_auctions_def http_get_auction_by_id_def http_list_pending_closure_def
      http_list_bids_def http_list_bids_cursor_def http_get_proxy_bid_def http_delete_proxy_bid_def handler_defs
      Let_def split: prod.split sum.split)

lemma snd_into_response [simp]: "snd (into_response f m s) = snd (m s)"
  by (simp add: into_response_def split: prod.split sum.split)

lemma snd_serve [simp]: "snd (serve web env hs q s) = snd (dispatch web env hs q s)"
  by (simp add: serve_def split: prod.split)

lemma serve_metrics_ok: "metrics_ok (web_metrics s) \<Longrightarrow> metrics_ok (web_metrics (snd (serve web env hs q s)))"
  by (cases q) (simp_all add: metrics_ok_handlers)


section \<open>Reading\<close>

fun is_get :: "http_request \<Rightarrow> bool" where
  "is_get (ReqCreateAuction q) \<longleftrightarrow> False"
| "is_get (ReqCloseAuction i) \<longleftrightarrow> False"
| "is_get (ReqPlaceBid i bq) \<longleftrightarrow> False"
| "is_get (ReqPlaceProxyBid i pq) \<longleftrightarrow> False"
| "is_get (ReqDeleteProxyBid i u) \<longleftrightarrow> False"
| "is_get q \<longleftrightarrow> True"

lemma handler_unchanged: "handler_keeps unchanged h \<Longrightarrow> unchanged (web_world s) (web_world (snd (h s)))"
  by (simp add: handler_keeps_def)

text \<open>A GET request, whatever its arguments and the faults it meets, leaves the tables, the wallet
  and the metrics as they were.\<close>

theorem get_requests_only_read:
  assumes "is_get q"
  shows "db (web_world (snd (serve web env hs q s))) = db (web_world s)
    \<and> wallet_log (web_world (snd (serve web env hs q s))) = wallet_log (web_world s)
    \<and> web_metrics (snd (serve web env hs q s)) = web_metrics s"
  using assms handler_unchanged [OF unchanged_handlers(1), of s] handler_unchanged [OF unchanged_handlers(2), of s]
    handler_unchanged [OF unchanged_handlers(3), of s] handler_unchanged [OF unchanged_handlers(4), of s]
    handler_unchanged [OF unchanged_handlers(5), of s] handler_unchanged [OF unchanged_handlers(6), of s]
  by (cases q) (simp_all add: unchanged_def)

definition calm_web :: web where
  "calm_web = \<lparr>web_parse_rfc3339 = (\<lambda>_. None), web_micros = (\<lambda>_. 1500), web_uptime = (\<lambda>_. Finite 1),
     web_base64_decode = (\<lambda>t. if t = ''dTpw'' then Some ''u:p'' else None), web_f64_text = (\<lambda>_. ''1''),
     web_f64_text4 = (\<lambda>_. ''1.0000'')\<rparr>"

theorem get_requests_only_read_witness:
  "db (web_world (snd (serve calm_web calm_env (\<lambda>_. None) (ReqGetAuction ''a1'') (fresh_state open_world)))) = db open_world"
  using get_requests_only_read [of "ReqGetAuction ''a1''" calm_web calm_env "\<lambda>_. None" "fresh_state open_world"]
  by (simp add: fresh_state_def)

section \<open>The caller's identity\<close>

text \<open>The user a request claims to act for.\<close>

fun claimed_user :: "http_request \<Rightarrow> string option" where
  "claimed_user (ReqCreateAuction q) = cr_seller_id q"
| "claimed_user (ReqPlaceBid i bq) = pb_bidder_id bq"
| "claimed_user (ReqPlaceProxyBid i pq) = pp_bidder_id pq"
| "claimed_user (ReqGetProxyBid i u) = Some u"
| "claimed_user (ReqDeleteProxyBid i u) = Some u"
| "claimed_user q = None"

lemma impersonation_refused:
  "trusted_user_id hs = Some u \<Longrightarrow> v \<noteq> [] \<Longrightarrow> v \<noteq> u
    \<Longrightarrow> apply_trusted_user_id hs (Some v) field = Inl (forbidden (field @ '' does not match authenticated user''))"
  by (simp add: apply_trusted_user_id_def)

text \<open>C22: a request that names another user than the authenticated one is answered with 403, and it
  touches neither the tables, nor the wallet, nor the metrics.\<close>

theorem impersonation_is_forbidden:
  assumes "trusted_user_id hs = Some u" and "claimed_user q = Some v" and "v \<noteq> []" and "v \<noteq> u"
  shows "resp_status (fst (serve web env hs q s)) = 403 \<and> snd (serve web env hs q s) = s"
  using assms(2) impersonation_refused [OF assms(1,3,4)]
  by (cases q) (simp_all add: serve_def into_response_def http_create_auction_def http_place_bid_def
      http_place_proxy_bid_def http_get_proxy_bid_def http_delete_proxy_bid_def resolve_trusted_user_id_def
      handler_defs error_into_response_def respond_def forbidden_def security_headers_def insert_header_def)

theorem impersonation_is_forbidden_witness:
  "resp_status (fst (serve calm_web calm_env [''x-user-id'' \<mapsto> '' u1 ''] (ReqDeleteProxyBid ''a1'' ''u2'')
     (fresh_state open_world))) = 403"
proof -
  have "trusted_user_id [''x-user-id'' \<mapsto> '' u1 ''] = Some ''u1''" by code_simp
  from impersonation_is_forbidden [OF this, of "ReqDeleteProxyBid ''a1'' ''u2''" "''u2''"] show ?thesis by simp
qed

lemma placed_bid_bidder: "wp (place_bid_internal env i u t mode) (\<lambda>b _. br_bidder_id b = u) (\<lambda>_ _. True) w"
proof (rule wp_place_bid_internal)
  fix a w1 previous
  have accept: "wp (accept_bid env j a u t prev res st) (\<lambda>b _. br_bidder_id b = u) (\<lambda>_ _. True) w2" for j prev res st w2
    by (rule wp_mono [OF accept_bid_result]) auto
  show "wp (place_new_bid env (lr_id a) a u t mode previous) (\<lambda>b _. br_bidder_id b = u) (\<lambda>_ _. True) w1"
    by (simp add: place_new_bid_def wp_bindS [of _ "\<lambda>_. accept_bid env i a u t p r st" for i p r st] wp_bindS
        accept wp_simps split: option.split sum.split bid_placement_mode.split)
next
  fix a w1 m and b :: bid_record
  assume "br_bidder_id b = u"
  then show "wp (raise_own_maximum env (lr_id a) a u m t b) (\<lambda>b _. br_bidder_id b = u) (\<lambda>_ _. True) w1"
    by (auto simp: raise_own_maximum_def wp_simps split: option.split sum.split prod.split)
qed simp_all

lemma placed_bidder:
  "place_bid_and_persist env i u n t w = (Inr b, w1) \<Longrightarrow> br_bidder_id b = u"
  "place_proxy_bid_and_persist env i u n t w = (Inr b, w1) \<Longrightarrow> br_bidder_id b = u"
  by (auto simp: write_defs dest: wp_InrD [OF placed_bid_bidder])

lemma utc_now_bindS: "bindS (utc_now env) f w = f (env_clock env (tick w)) (next_tick w)"
  by (simp add: bindS_def utc_now_def)

lemma resolve_trusted: "trusted_user_id hs = Some u \<Longrightarrow> resolve_trusted_user_id hs x field = Inr v \<Longrightarrow> v = u"
  by (auto simp: resolve_trusted_user_id_def apply_trusted_user_id_def and_then_Inr split: option.splits if_splits)

lemma place_handlers_success:
  assumes "trusted_user_id hs = Some u"
  shows "http_place_bid web env hs i bq s = (Inr (st, b), s1) \<Longrightarrow> st = 201 \<and> bs_bidder_id b = u \<and> bs_bidder_id_api b = u"
    "http_place_proxy_bid web env hs i pq s = (Inr (st, b), s1) \<Longrightarrow> st = 201 \<and> bs_bidder_id b = u \<and> bs_bidder_id_api b = u"
  using resolve_trusted [OF assms]
  by (auto simp: http_place_bid_def http_place_proxy_bid_def handler_defs utc_now_bindS bid_response_of_def
      dest!: placed_bidder split: prod.splits sum.splits)

text \<open>A bid or proxy bid that is answered with success under an authenticated user is that user's
  bid: the bid in the response carries the authenticated identity, whatever the body said.\<close>

theorem bids_carry_the_trusted_user:
  assumes "trusted_user_id hs = Some u" and "q = ReqPlaceBid i bq \<or> q = ReqPlaceProxyBid i pq"
    and "resp_body (fst (serve web env hs q s)) = BidBody b"
  shows "bs_bidder_id b = u \<and> bs_bidder_id_api b = u \<and> resp_status (fst (serve web env hs q s)) = 201"
  using assms(2,3) place_handlers_success [OF assms(1)]
  by (auto simp: serve_def into_response_def security_headers_def insert_header_def respond_def
      error_into_response_def split: prod.splits sum.splits)

definition http_bid_world :: world where
  "http_bid_world = open_world\<lparr>db := empty_store\<lparr>listings := [sample_listing\<lparr>lr_end_time := 5000\<rparr>]\<rparr>\<rparr>"

definition http_bid :: http_request where
  "http_bid = ReqPlaceBid ''a1''
     \<lparr>pb_bidder_id = None, pb_bid_amount_cents = Some 3000, pb_bid_amount = None, pb_bid_time = None\<rparr>"

lemma http_bid_placed: "\<not> isl (fst (place_bid_and_persist calm_env ''a1'' ''u1'' 3000 1000 (next_tick http_bid_world)))"
  by code_simp

theorem bids_carry_the_trusted_user_witness:
  "resp_status (fst (serve calm_web calm_env [''x-user-id'' \<mapsto> ''u1''] http_bid (fresh_state http_bid_world))) = 201"
proof -
  let ?hs = "[''x-user-id'' \<mapsto> ''u1'']"
  have u: "trusted_user_id ?hs = Some ''u1''" by code_simp
  obtain b w1 where placed: "place_bid_and_persist calm_env ''a1'' ''u1'' 3000 1000 (next_tick http_bid_world) = (Inr b, w1)"
    using http_bid_placed by (metis isl_def old.sum.exhaust prod.collapse)
  have "resp_body (fst (serve calm_web calm_env ?hs http_bid (fresh_state http_bid_world))) = BidBody (bid_response_of calm_env b)"
    using placed u
    by (simp add: serve_def http_bid_def http_place_bid_def handler_defs utc_now_bindS into_response_def respond_def
        security_headers_def insert_header_def resolve_trusted_user_id_def apply_trusted_user_id_def
        bid_request_amount_cents_def amount_field_def or_error_def fresh_state_def calm_env_def http_bid_world_def open_world_def)
  with bids_carry_the_trusted_user [OF u, of http_bid] show ?thesis by (auto simp: http_bid_def)
qed

section \<open>Responses\<close>

definition error_statuses :: "nat set" where
  "error_statuses = {400, 402, 403, 404, 500}"

definition fails_in :: "'a handler \<Rightarrow> bool" where
  "fails_in h \<longleftrightarrow> (\<forall>s e s1. h s = (Inl e, s1) \<longrightarrow> ae_status e \<in> error_statuses)"

lemma api_error_statuses [simp]:
  "ae_status (api_error_of_create e1) \<in> error_statuses"
  "ae_status (api_error_of_get e2) \<in> error_statuses"
  "ae_status (api_error_of_list e3) \<in> error_statuses"
  "ae_status (api_error_of_pending e4) \<in> error_statuses"
  "ae_status (api_error_of_close e5) \<in> error_statuses"
  "ae_status (api_error_of_place e6) \<in> error_statuses"
  "ae_status (api_error_of_bids e7) \<in> error_statuses"
proof -
  note [simp] = error_statuses_def
  show "ae_status (api_error_of_create e1) \<in> error_statuses" by (cases e1) auto
  show "ae_status (api_error_of_get e2) \<in> error_statuses" by (cases e2) auto
  show "ae_status (api_error_of_list e3) \<in> error_statuses" by (cases e3) auto
  show "ae_status (api_error_of_pending e4) \<in> error_statuses" by (cases e4) auto
  show "ae_status (api_error_of_close e5) \<in> error_statuses" by (cases e5) auto
  show "ae_status (api_error_of_place e6) \<in> error_statuses" by (cases e6) auto
  show "ae_status (api_error_of_bids e7) \<in> error_statuses" by (cases e7) auto
qed

lemma other_error_statuses [simp]:
  "ae_status (bad_request m) \<in> error_statuses" "ae_status (forbidden m) \<in> error_statuses"
  "ae_status (not_found m) \<in> error_statuses"
  by (simp_all add: error_statuses_def bad_request_def forbidden_def not_found_def)

lemma identity_errors:
  "apply_trusted_user_id hs x field = Inl e \<Longrightarrow> ae_status e \<in> error_statuses"
  "resolve_trusted_user_id hs x field = Inl e \<Longrightarrow> ae_status e \<in> error_statuses"
  by (auto simp: apply_trusted_user_id_def resolve_trusted_user_id_def and_then_def split: option.splits if_splits sum.splits)

lemma or_errors:
  "or_error d v = Inl e \<Longrightarrow> ae_status d \<in> error_statuses \<Longrightarrow> ae_status e \<in> error_statuses"
  "or_bad_request r = Inl e \<Longrightarrow> ae_status e \<in> error_statuses"
  by (auto simp: or_error_def or_bad_request_def split: option.splits sum.splits)

lemma fails_in_handlers:
  "fails_in (http_list_auctions env)"
  "fails_in (http_get_auction_by_id env i)"
  "fails_in (http_list_pending_closure env)"
  "fails_in (http_list_bids env i)"
  "fails_in (http_list_bids_cursor env i c l)"
  "fails_in (http_get_proxy_bid env hs i u)"
  "fails_in (http_create_auction web env hs q)"
  "fails_in (http_close_auction web env i)"
  "fails_in (http_place_bid web env hs i bq)"
  "fails_in (http_place_proxy_bid web env hs i pq)"
  "fails_in (http_delete_proxy_bid env hs i u)"
  unfolding http_list_auctions_def http_get_auction_by_id_def http_list_pending_closure_def
    http_list_bids_def http_list_bids_cursor_def http_get_proxy_bid_def http_delete_proxy_bid_def Let_def
    http_create_auction_def http_close_auction_def http_place_bid_def http_place_proxy_bid_def fails_in_def
  by (auto simp: handler_defs dest: identity_errors or_errors split: prod.splits sum.splits)

fun success_status :: "http_request \<Rightarrow> nat" where
  "success_status (ReqCreateAuction q) = 201"
| "success_status (ReqPlaceBid i bq) = 201"
| "success_status (ReqPlaceProxyBid i pq) = 201"
| "success_status (ReqDeleteProxyBid i u) = 204"
| "success_status q = 200"

text \<open>The type of the body a request is answered with.\<close>

fun success_body :: "http_request \<Rightarrow> http_body \<Rightarrow> bool" where
  "success_body ReqListAuctions = is_auction_page_body"
| "success_body (ReqCreateAuction q) = is_auction_body"
| "success_body (ReqGetAuction i) = is_auction_body"
| "success_body ReqPendingClosure = is_auctions_body"
| "success_body (ReqCloseAuction i) = is_auction_body"
| "success_body (ReqListBids i) = is_bids_body"
| "success_body (ReqPlaceBid i bq) = is_bid_body"
| "success_body (ReqBidsCursor i c l) = is_bid_page_body"
| "success_body (ReqPlaceProxyBid i pq) = is_bid_body"
| "success_body (ReqGetProxyBid i u) = is_proxy_bid_body"
| "success_body (ReqDeleteProxyBid i u) = is_empty_body"
| "success_body ReqMetrics = is_text_body"

definition response_typed :: "http_request \<Rightarrow> http_response \<Rightarrow> bool" where
  "response_typed q r \<longleftrightarrow> (resp_status r = success_status q \<and> success_body q (resp_body r))
     \<or> (resp_status r \<in> error_statuses \<and> is_error_body (resp_body r))
     \<or> (q = ReqMetrics \<and> resp_status r = 401)"

definition security_header_list :: "(string \<times> string) list" where
  "security_header_list =
     [(''x-content-type-options'', ''nosniff''), (''x-frame-options'', ''DENY''),
      (''x-xss-protection'', ''1; mode=block''), (''referrer-policy'', ''strict-origin-when-cross-origin''),
      (''cache-control'', ''no-store, no-cache, must-revalidate'')]"

lemma into_response_typed:
  assumes "fails_in h" and "\<And>a s1. h s = (Inr a, s1) \<Longrightarrow> resp_status (f a) = success_status q \<and> success_body q (resp_body (f a))"
  shows "response_typed q (fst (into_response f h s))"
proof (cases "h s")
  case (Pair r s1)
  then show ?thesis
    using assms unfolding fails_in_def
    by (cases r) (auto simp: into_response_def response_typed_def error_into_response_def respond_def)
qed

lemma created_status:
  "http_create_auction web env hs q s = (Inr (st, a), s1) \<Longrightarrow> st = 201"
  "http_place_bid web env hs i bq s = (Inr (st, b), s1) \<Longrightarrow> st = 201"
  "http_place_proxy_bid web env hs i pq s = (Inr (st, b), s1) \<Longrightarrow> st = 201"
  "http_delete_proxy_bid env hs i u s = (Inr st, s1) \<Longrightarrow> st = 204"
  by (auto simp: http_create_auction_def http_place_bid_def http_place_proxy_bid_def http_delete_proxy_bid_def
      handler_defs split: prod.splits sum.splits)

lemma dispatch_typed: "response_typed q (fst (dispatch web env hs q s))"
proof (cases q)
  case ReqMetrics
  then show ?thesis
    by (simp add: response_typed_def require_metrics_basic_auth_def http_metrics_def insert_header_def respond_def)
qed (auto intro!: into_response_typed fails_in_handlers simp: respond_def dest: created_status)

lemma security_headers_typed: "response_typed q (security_headers r) = response_typed q r"
  by (simp add: response_typed_def security_headers_def insert_header_def)

lemma security_headers_once:
  "filter (\<lambda>h. fst h \<in> fst ` set security_header_list) (resp_headers (security_headers r)) = security_header_list"
  by (auto simp: security_headers_def insert_header_def security_header_list_def filter_empty_conv)

text \<open>C40: every request, whatever it is and whatever fails, is answered by a response of its type: the
  success status and the body of its endpoint, or one of the error statuses with an error message, or
  401 from the metrics page; and every response carries each of the five security headers once, with
  the value the service wants.\<close>

theorem responses_are_typed_and_secured:
  "response_typed q (fst (serve web env hs q s))
    \<and> filter (\<lambda>h. fst h \<in> fst ` set security_header_list) (resp_headers (fst (serve web env hs q s))) = security_header_list"
  using dispatch_typed [of q web env hs s]
  by (cases "dispatch web env hs q s") (simp add: serve_def security_headers_typed security_headers_once)

section \<open>The metrics page\<close>

text \<open>With credentials configured and no colon in the user name, the metrics page is served exactly to
  requests whose authorization header is \<^verbatim>\<open>Basic\<close> with the base64 of user, colon and password.\<close>

theorem metrics_page_needs_credentials:
  assumes "metrics_credentials env = Some (user, pass)" and "CHR '':'' \<notin> set user" and "utf8_valid (user @ '':'' @ pass)"
  shows "resp_status (fst (serve web env hs ReqMetrics s)) = 200 \<longleftrightarrow>
    (\<exists>encoded. hs ''authorization'' = Some (''Basic '' @ encoded) \<and> web_base64_decode web (trim encoded) = Some (user @ '':'' @ pass))"
proof -
  have split: "split_once CHR '':'' d = Some (user, pass) \<longleftrightarrow> d = user @ '':'' @ pass" for d
    using split_once_Some_iff [OF assms(2)] by simp
  have parse: "parse_basic_credentials web h = Some (user, pass) \<longleftrightarrow>
      (\<exists>encoded. h = ''Basic '' @ encoded \<and> web_base64_decode web (trim encoded) = Some (user @ '':'' @ pass))" for h
  proof (cases "strip_prefix ''Basic '' h")
    case None
    then have "h \<noteq> ''Basic '' @ encoded" for encoded
      using strip_prefix_Some_iff [of "''Basic ''" h encoded] by (simp del: append.simps)
    with None show ?thesis by (simp add: parse_basic_credentials_def del: append.simps)
  next
    case (Some encoded)
    then have h: "h = ''Basic '' @ encoded" by (simp only: strip_prefix_Some_iff)
    have "parse_basic_credentials web h = Some (user, pass) \<longleftrightarrow>
        web_base64_decode web (trim encoded) = Some (user @ '':'' @ pass)"
      using Some assms(3) split by (auto simp: parse_basic_credentials_def split: option.splits)
    then show ?thesis by (simp add: h)
  qed
  have "metrics_authorized web env (hs ''authorization'') \<longleftrightarrow>
      (\<exists>h. hs ''authorization'' = Some h \<and> parse_basic_credentials web h = Some (user, pass))"
    using assms(1) by (auto simp: metrics_authorized_def bind_eq_Some_conv split: option.splits)
  also have "\<dots> \<longleftrightarrow> (\<exists>encoded. hs ''authorization'' = Some (''Basic '' @ encoded)
      \<and> web_base64_decode web (trim encoded) = Some (user @ '':'' @ pass))"
    unfolding parse by blast
  finally show ?thesis
    by (simp add: serve_def require_metrics_basic_auth_def http_metrics_def insert_header_def respond_def
        security_headers_def)
qed

theorem metrics_page_needs_credentials_witness:
  "resp_status (fst (serve calm_web (calm_env\<lparr>env_var := [''METRICS_BASIC_USER'' \<mapsto> ''u'', ''METRICS_BASIC_PASSWORD'' \<mapsto> ''p'']\<rparr>)
     [''authorization'' \<mapsto> ''Basic dTpw''] ReqMetrics (fresh_state open_world))) = 200"
proof -
  let ?env = "calm_env\<lparr>env_var := [''METRICS_BASIC_USER'' \<mapsto> ''u'', ''METRICS_BASIC_PASSWORD'' \<mapsto> ''p'']\<rparr>"
  have "metrics_credentials ?env = Some (''u'', ''p'')" by (simp add: metrics_credentials_def)
  moreover have "utf8_valid (''u'' @ '':'' @ ''p'')" by code_simp
  moreover have "web_base64_decode calm_web (trim ''dTpw'') = Some (''u'' @ '':'' @ ''p'')" by code_simp
  ultimately show ?thesis
    using metrics_page_needs_credentials [of ?env "''u''" "''p''" calm_web "[''authorization'' \<mapsto> ''Basic dTpw'']"]
    by auto
qed

text \<open>A user name with a colon can never log in, since the first colon ends the user name.\<close>

lemma colon_in_user_locks_out:
  assumes "metrics_credentials env = Some (user, pass)" and "CHR '':'' \<in> set user"
  shows "resp_status (fst (serve web env hs ReqMetrics s)) = 401"
proof -
  have "split_once CHR '':'' d \<noteq> Some (user, p)" for d p
    using assms(2) by (auto simp: split_once_def split: list.splits dest: set_takeWhileD)
  then have "parse_basic_credentials web h \<noteq> Some (user, pass)" for h
    by (auto simp: parse_basic_credentials_def split: option.splits if_splits)
  then have "\<not> metrics_authorized web env (hs ''authorization'')"
    using assms(1) by (auto simp: metrics_authorized_def bind_eq_Some_conv split: option.splits)
  then show ?thesis
    by (simp add: serve_def require_metrics_basic_auth_def insert_header_def respond_def security_headers_def)
qed

end
