(* ===== verification/Clients.thy ===== *)
theory Clients
  imports Config AuctionTypes
begin

text \<open>
  The clients of the wallet and the catalogue: \<^verbatim>\<open>client/http_service_client.rs\<close>,
  \<^verbatim>\<open>client/wallet_client.rs\<close> and \<^verbatim>\<open>client/catalog_client.rs\<close>. The libraries they stand on (URLs, sockets,
  HTTP, gRPC, JSON, the timer) are the record \<open>transport\<close>: its functions answer at a tick in any way.
  Each client is an implementation of its trait, the record of functions of a tick that
  \<^theory_text>\<open>Effects\<close> calls.
\<close>

section \<open>The libraries\<close>

text \<open>What is read of a parsed \<^verbatim>\<open>url::Url\<close>: \<open>url_known_port\<close> is \<^verbatim>\<open>port_or_known_default\<close>.\<close>

record url =
  url_scheme :: string
  url_host :: "string option"
  url_port :: "nat option"
  url_known_port :: "nat option"
  url_join :: "string \<Rightarrow> string + string"

record outgoing_request =
  rq_method :: string
  rq_uri :: string
  rq_headers :: "(string \<times> string) list"
  rq_body :: string

record service_response =
  sr_status :: nat
  sr_body :: string

datatype grpc_code =
    GrpcOk | Cancelled | Unknown | InvalidArgument | DeadlineExceeded | NotFound | AlreadyExists
  | PermissionDenied | ResourceExhausted | FailedPrecondition | Aborted | OutOfRange | Unimplemented
  | Internal | Unavailable | DataLoss | Unauthenticated

record grpc_status =
  gs_code :: grpc_code
  gs_message :: string

text \<open>A gRPC call: the path of the method, the metadata set by the client, the message.\<close>

record 'm grpc_request =
  gr_path :: string
  gr_metadata :: "(string \<times> string) list"
  gr_message :: 'm

record transport =
  tr_parse_url :: "string \<Rightarrow> string + url"
  tr_parse_uri :: "string \<Rightarrow> string + string"
  tr_build_error :: "outgoing_request \<Rightarrow> string option"
  tr_connect :: "nat \<Rightarrow> string \<Rightarrow> nat \<Rightarrow> string + unit"
  tr_handshake :: "nat \<Rightarrow> string + unit"
  tr_exchange :: "nat \<Rightarrow> outgoing_request \<Rightarrow> string + nat"
  tr_collect :: "nat \<Rightarrow> outgoing_request \<Rightarrow> string + string"
  tr_status_text :: "nat \<Rightarrow> string"
  tr_json_encode :: "json \<Rightarrow> string + string"
  tr_decode_hold :: "string \<Rightarrow> string + hold_response"
  tr_decode_listing :: "string \<Rightarrow> string + listing_summary"
  tr_elapsed :: "nat \<Rightarrow> nat \<Rightarrow> bool"
  tr_endpoint :: "string \<Rightarrow> string + unit"
  tr_metadata_value :: "string \<Rightarrow> string + string"
  tr_grpc_connect :: "nat \<Rightarrow> string \<Rightarrow> string + unit"
  tr_grpc_ready :: "nat \<Rightarrow> string + unit"
  tr_grpc_hold :: "nat \<Rightarrow> hold_funds_request grpc_request \<Rightarrow> grpc_status + hold_response"
  tr_grpc_empty :: "nat \<Rightarrow> string grpc_request \<Rightarrow> grpc_status + unit"
  tr_grpc_listing :: "nat \<Rightarrow> string grpc_request \<Rightarrow> grpc_status + listing_summary"

text \<open>\<^verbatim>\<open>r.map_err(f)?\<close> on plain results.\<close>

definition try_with :: "('e \<Rightarrow> 'f) \<Rightarrow> 'e + 'a \<Rightarrow> ('a \<Rightarrow> 'f + 'b) \<Rightarrow> 'f + 'b" where
  "try_with f r k = (case r of Inl e \<Rightarrow> Inl (f e) | Inr a \<Rightarrow> k a)"

definition require :: "'e \<Rightarrow> 'a option \<Rightarrow> ('a \<Rightarrow> 'e + 'b) \<Rightarrow> 'e + 'b" where
  "require e v k = (case v of None \<Rightarrow> Inl e | Some a \<Rightarrow> k a)"

definition is_success :: "nat \<Rightarrow> bool" where
  "is_success st \<longleftrightarrow> 200 \<le> st \<and> st < 300"

section \<open>HTTP service client\<close>

datatype http_client_error = HttpConfiguration string | HttpNetwork string | HttpRequest string

fun http_client_error_text :: "http_client_error \<Rightarrow> string" where
  "http_client_error_text (HttpConfiguration m) = m"
| "http_client_error_text (HttpNetwork m) = m"
| "http_client_error_text (HttpRequest m) = m"

record http_service_client =
  hc_base_url :: url
  hc_service_name :: string
  hc_internal_service_token :: "string option"
  hc_https :: bool

definition http_service_client_new :: "transport \<Rightarrow> string \<Rightarrow> string \<Rightarrow> http_client_error + http_service_client" where
  "http_service_client_new tr base_url service_name =
     try_with HttpConfiguration (tr_parse_url tr base_url) (\<lambda>u.
     if url_scheme u \<noteq> ''http'' \<and> url_scheme u \<noteq> ''https''
     then Inl (HttpConfiguration (''only http/https '' @ service_name @ '' URLs are supported''))
     else Inr \<lparr>hc_base_url = u, hc_service_name = service_name, hc_internal_service_token = None,
       hc_https = (url_scheme u = ''https'')\<rparr>)"

definition with_internal_service_token :: "string \<Rightarrow> http_service_client \<Rightarrow> http_service_client" where
  "with_internal_service_token token c =
     (if is_blank token then c else c\<lparr>hc_internal_service_token := Some token\<rparr>)"

definition host_header :: "string \<Rightarrow> nat option \<Rightarrow> string" where
  "host_header host port = (case port of Some p \<Rightarrow> host @ '':'' @ nat_to_dec p | None \<Rightarrow> host)"

definition missing_host :: "http_service_client \<Rightarrow> http_client_error" where
  "missing_host c = HttpConfiguration (hc_service_name c @ '' URL is missing host'')"

definition request_uri :: "transport \<Rightarrow> url \<Rightarrow> string \<Rightarrow> http_client_error + string" where
  "request_uri tr u path =
     (if url_scheme u = ''https'' then
        try_with HttpConfiguration (url_join u path) (\<lambda>joined.
        try_with HttpConfiguration (tr_parse_uri tr joined) Inr)
      else try_with HttpConfiguration (tr_parse_uri tr path) Inr)"

definition host_headers :: "http_service_client \<Rightarrow> http_client_error + (string \<times> string) list" where
  "host_headers c =
     (if url_scheme (hc_base_url c) = ''http'' then
        require (missing_host c) (url_host (hc_base_url c)) (\<lambda>host.
        Inr [(''host'', host_header host (url_port (hc_base_url c)))])
      else Inr [])"

definition build_request :: "transport \<Rightarrow> http_service_client \<Rightarrow> string \<Rightarrow> string \<Rightarrow> string \<Rightarrow> string option
    \<Rightarrow> http_client_error + outgoing_request" where
  "build_request tr c method path body content_type =
     try_with id (request_uri tr (hc_base_url c) path) (\<lambda>uri.
     try_with id (host_headers c) (\<lambda>host.
     let request = \<lparr>rq_method = method, rq_uri = uri,
           rq_headers = [(''accept'', ''application/json''), (''content-length'', nat_to_dec (length body))] @ host
             @ (case content_type of Some t \<Rightarrow> [(''content-type'', t)] | None \<Rightarrow> [])
             @ (case hc_internal_service_token c of Some t \<Rightarrow> [(''x-internal-service-token'', t)] | None \<Rightarrow> []),
           rq_body = body\<rparr>
     in (case tr_build_error tr request of Some m \<Rightarrow> Inl (HttpRequest m) | None \<Rightarrow> Inr request)))"

text \<open>The request is written and the answer read: status first, then the body.\<close>

definition exchange :: "transport \<Rightarrow> nat \<Rightarrow> outgoing_request \<Rightarrow> http_client_error + service_response" where
  "exchange tr n request =
     try_with HttpNetwork (tr_exchange tr n request) (\<lambda>status.
     try_with HttpNetwork (tr_collect tr n request) (\<lambda>body.
     Inr \<lparr>sr_status = status, sr_body = body\<rparr>))"

definition send_https :: "transport \<Rightarrow> nat \<Rightarrow> http_service_client \<Rightarrow> string \<Rightarrow> string \<Rightarrow> string \<Rightarrow> string option
    \<Rightarrow> http_client_error + service_response" where
  "send_https tr n c method path body content_type =
     (if \<not> hc_https c then Inl (HttpConfiguration (hc_service_name c @ '' HTTPS client is not configured''))
      else try_with id (build_request tr c method path body content_type) (exchange tr n))"

definition send_http :: "transport \<Rightarrow> nat \<Rightarrow> http_service_client \<Rightarrow> string \<Rightarrow> string \<Rightarrow> string \<Rightarrow> string option
    \<Rightarrow> http_client_error + service_response" where
  "send_http tr n c method path body content_type =
     require (missing_host c) (url_host (hc_base_url c)) (\<lambda>host.
     require (HttpConfiguration (hc_service_name c @ '' URL is missing port'')) (url_known_port (hc_base_url c)) (\<lambda>port.
     try_with HttpNetwork (tr_connect tr n host port) (\<lambda>_.
     try_with HttpNetwork (tr_handshake tr n) (\<lambda>_.
     try_with id (build_request tr c method path body content_type) (exchange tr n)))))"

definition send :: "transport \<Rightarrow> nat \<Rightarrow> http_service_client \<Rightarrow> string \<Rightarrow> string \<Rightarrow> string \<Rightarrow> string option
    \<Rightarrow> http_client_error + service_response" where
  "send tr n c method path body content_type =
     (if hc_https c then send_https tr n c method path body content_type
      else send_http tr n c method path body content_type)"

definition http_get :: "transport \<Rightarrow> nat \<Rightarrow> http_service_client \<Rightarrow> string \<Rightarrow> http_client_error + service_response" where
  "http_get tr n c path = send tr n c ''GET'' path [] None"

definition post_json :: "transport \<Rightarrow> nat \<Rightarrow> http_service_client \<Rightarrow> string \<Rightarrow> string
    \<Rightarrow> http_client_error + service_response" where
  "post_json tr n c path body = send tr n c ''POST'' path body (Some ''application/json'')"

section \<open>The wallet over HTTP\<close>

fun wallet_error_of_http :: "http_client_error \<Rightarrow> wallet_client_error" where
  "wallet_error_of_http (HttpConfiguration m) = WalletServiceError m"
| "wallet_error_of_http (HttpNetwork m) = WalletNetworkError m"
| "wallet_error_of_http (HttpRequest m) = WalletServiceError m"

definition DEFAULT_INTERNAL_SERVICE_TOKEN :: string where
  "DEFAULT_INTERNAL_SERVICE_TOKEN = ''bidmart-local-internal-token''"

definition internal_service_token :: "env \<Rightarrow> string" where
  "internal_service_token env = unwrap_or DEFAULT_INTERNAL_SERVICE_TOKEN (env_var env ''GATEWAY_INTERNAL_TOKEN'')"

definition http_wallet_client_new :: "transport \<Rightarrow> env \<Rightarrow> string \<Rightarrow> wallet_client_error + http_service_client" where
  "http_wallet_client_new tr env base_url =
     try_with wallet_error_of_http (http_service_client_new tr base_url ''wallet'') (\<lambda>c.
     Inr (with_internal_service_token (internal_service_token env) c))"

definition optional_json :: "string option \<Rightarrow> json" where
  "optional_json v = (case v of Some s \<Rightarrow> JStr s | None \<Rightarrow> JNull)"

definition hold_funds_json :: "hold_funds_request \<Rightarrow> json" where
  "hold_funds_json q = JObj
     [(''userId'', JStr (hf_user_id q)), (''role'', optional_json (hf_role q)), (''holdId'', JStr (hf_hold_id q)),
      (''auctionId'', JStr (hf_auction_id q)), (''bidId'', JStr (hf_bid_id q)), (''amount'', JInt (uint (hf_amount q))),
      (''expiresAt'', JStr (hf_expires_at q))]"

definition release_funds_json :: "string \<Rightarrow> json" where
  "release_funds_json hold_id = JObj [(''holdId'', JStr hold_id)]"

definition convert_funds_json :: "string \<Rightarrow> json" where
  "convert_funds_json hold_id = JObj [(''holdId'', JStr hold_id)]"

definition seller_escrow_json :: "string \<Rightarrow> u64 \<Rightarrow> string option \<Rightarrow> json" where
  "seller_escrow_json seller_id amount correlation_id = JObj
     [(''sellerId'', JStr seller_id), (''amount'', JInt (uint amount)), (''correlationId'', optional_json correlation_id)]"

definition wallet_post :: "transport \<Rightarrow> http_service_client \<Rightarrow> nat \<Rightarrow> string \<Rightarrow> json
    \<Rightarrow> (service_response \<Rightarrow> wallet_client_error + 'a) \<Rightarrow> wallet_client_error + 'a" where
  "wallet_post tr c n path request k =
     try_with WalletServiceError (tr_json_encode tr request) (\<lambda>body.
     try_with wallet_error_of_http (post_json tr n c path body) k)"

definition http_hold_funds :: "transport \<Rightarrow> http_service_client \<Rightarrow> nat \<Rightarrow> hold_funds_request
    \<Rightarrow> wallet_client_error + hold_response" where
  "http_hold_funds tr c n q =
     wallet_post tr c n ''/api/v1/wallet/hold'' (hold_funds_json q) (\<lambda>response.
     if is_success (sr_status response) then try_with WalletServiceError (tr_decode_hold tr (sr_body response)) Inr
     else
       (let message = from_utf8_lossy (sr_body response) in
        if sr_status response = 400 \<and> str_contains ''INSUFFICIENT'' message then Inl (InsufficientBalance message)
        else Inl (WalletServiceError
          (''wallet service returned '' @ tr_status_text tr (sr_status response) @ '': '' @ message))))"

definition http_release_hold :: "transport \<Rightarrow> http_service_client \<Rightarrow> nat \<Rightarrow> string \<Rightarrow> wallet_client_error + unit" where
  "http_release_hold tr c n hold_id =
     wallet_post tr c n ''/api/v1/wallet/release'' (release_funds_json hold_id) (\<lambda>response.
     if is_success (sr_status response) then Inr () else Inl (WalletServiceError ''Failed to release''))"

definition http_convert_hold :: "transport \<Rightarrow> http_service_client \<Rightarrow> nat \<Rightarrow> string \<Rightarrow> wallet_client_error + unit" where
  "http_convert_hold tr c n hold_id =
     wallet_post tr c n ''/api/v1/wallet/convert'' (convert_funds_json hold_id) (\<lambda>response.
     if is_success (sr_status response) then Inr ()
     else Inl (WalletServiceError (''Failed to convert: '' @ from_utf8_lossy (sr_body response))))"

definition http_credit_seller_escrow :: "transport \<Rightarrow> http_service_client \<Rightarrow> nat \<Rightarrow> string \<Rightarrow> u64 \<Rightarrow> string
    \<Rightarrow> wallet_client_error + unit" where
  "http_credit_seller_escrow tr c n seller_id amount correlation_id =
     wallet_post tr c n ''/api/v1/wallet/seller-escrow'' (seller_escrow_json seller_id amount (Some correlation_id)) (\<lambda>response.
     if is_success (sr_status response) then Inr ()
     else Inl (WalletServiceError (''Failed to credit seller escrow: '' @ from_utf8_lossy (sr_body response))))"

definition http_wallet :: "transport \<Rightarrow> http_service_client \<Rightarrow> wallet_client" where
  "http_wallet tr c = \<lparr>wc_hold_funds = http_hold_funds tr c, wc_release_hold = http_release_hold tr c,
     wc_convert_hold = http_convert_hold tr c, wc_credit_seller_escrow = http_credit_seller_escrow tr c\<rparr>"

section \<open>The timeout\<close>

definition wallet_timeout_ms :: "env \<Rightarrow> nat" where
  "wallet_timeout_ms env = (case parsed_u64 env ''WALLET_CLIENT_TIMEOUT_MS'' of
       Some v \<Rightarrow> if 0 < v then v else 3000
     | None \<Rightarrow> 3000)"

text \<open>\<^verbatim>\<open>guarded\<close>: the answer of the operation, unless the timer fires first.\<close>

definition guarded :: "transport \<Rightarrow> nat \<Rightarrow> nat \<Rightarrow> wallet_client_error + 'a \<Rightarrow> wallet_client_error + 'a" where
  "guarded tr timeout n r = (if tr_elapsed tr n timeout
     then Inl (WalletNetworkError ''wallet service unavailable or timed out'') else r)"

definition wallet_client_proxy :: "transport \<Rightarrow> nat \<Rightarrow> wallet_client \<Rightarrow> wallet_client" where
  "wallet_client_proxy tr timeout c =
     \<lparr>wc_hold_funds = (\<lambda>n q. guarded tr timeout n (wc_hold_funds c n q)),
      wc_release_hold = (\<lambda>n i. guarded tr timeout n (wc_release_hold c n i)),
      wc_convert_hold = (\<lambda>n i. guarded tr timeout n (wc_convert_hold c n i)),
      wc_credit_seller_escrow = (\<lambda>n i a k. guarded tr timeout n (wc_credit_seller_escrow c n i a k))\<rparr>"

section \<open>The wallet over gRPC\<close>

fun grpc_code_text :: "grpc_code \<Rightarrow> string" where
  "grpc_code_text GrpcOk = ''Ok''"
| "grpc_code_text Cancelled = ''Cancelled''"
| "grpc_code_text Unknown = ''Unknown''"
| "grpc_code_text InvalidArgument = ''InvalidArgument''"
| "grpc_code_text DeadlineExceeded = ''DeadlineExceeded''"
| "grpc_code_text NotFound = ''NotFound''"
| "grpc_code_text AlreadyExists = ''AlreadyExists''"
| "grpc_code_text PermissionDenied = ''PermissionDenied''"
| "grpc_code_text ResourceExhausted = ''ResourceExhausted''"
| "grpc_code_text FailedPrecondition = ''FailedPrecondition''"
| "grpc_code_text Aborted = ''Aborted''"
| "grpc_code_text OutOfRange = ''OutOfRange''"
| "grpc_code_text Unimplemented = ''Unimplemented''"
| "grpc_code_text Internal = ''Internal''"
| "grpc_code_text Unavailable = ''Unavailable''"
| "grpc_code_text DataLoss = ''DataLoss''"
| "grpc_code_text Unauthenticated = ''Unauthenticated''"

definition network_codes :: "grpc_code list" where
  "network_codes = [Unavailable, DeadlineExceeded, Cancelled, Unknown]"

definition grpc_error_text :: "grpc_status \<Rightarrow> string" where
  "grpc_error_text st = ''gRPC '' @ grpc_code_text (gs_code st) @ '': '' @ gs_message st"

definition wallet_error_of_grpc :: "grpc_status \<Rightarrow> wallet_client_error" where
  "wallet_error_of_grpc st =
     (if gs_code st = InvalidArgument \<and> str_contains ''INSUFFICIENT'' (gs_message st)
      then InsufficientBalance (gs_message st)
      else if gs_code st \<in> set network_codes then WalletNetworkError (gs_message st)
      else WalletServiceError (grpc_error_text st))"

record grpc_client =
  gc_endpoint :: string
  gc_internal_service_token :: "string option"

definition grpc_wallet_client_new :: "transport \<Rightarrow> env \<Rightarrow> string \<Rightarrow> wallet_client_error + grpc_client" where
  "grpc_wallet_client_new tr env endpoint =
     (let endpoint = trim endpoint in
      if endpoint = [] then Inl (WalletServiceError ''wallet gRPC endpoint is empty'')
      else
        try_with WalletServiceError (tr_endpoint tr endpoint) (\<lambda>_.
        try_with WalletServiceError (tr_metadata_value tr (internal_service_token env)) (\<lambda>token.
        Inr \<lparr>gc_endpoint = endpoint, gc_internal_service_token = Some token\<rparr>)))"

definition add_internal_token :: "grpc_client \<Rightarrow> string \<Rightarrow> 'm \<Rightarrow> 'm grpc_request" where
  "add_internal_token c path m = \<lparr>gr_path = path,
     gr_metadata = (case gc_internal_service_token c of Some t \<Rightarrow> [(''x-internal-service-token'', t)] | None \<Rightarrow> []),
     gr_message = m\<rparr>"

text \<open>Connect and wait until the channel is ready, as every method begins.\<close>

definition grpc_channel :: "transport \<Rightarrow> grpc_client \<Rightarrow> nat \<Rightarrow> (string \<Rightarrow> 'e) \<Rightarrow> (string \<Rightarrow> 'e) \<Rightarrow> 'e + 'a \<Rightarrow> 'e + 'a" where
  "grpc_channel tr c n network service k =
     try_with network (tr_grpc_connect tr n (gc_endpoint c)) (\<lambda>_.
     try_with service (tr_grpc_ready tr n) (\<lambda>_. k))"

definition grpc_hold_funds :: "transport \<Rightarrow> grpc_client \<Rightarrow> nat \<Rightarrow> hold_funds_request \<Rightarrow> wallet_client_error + hold_response" where
  "grpc_hold_funds tr c n q =
     grpc_channel tr c n WalletNetworkError WalletServiceError
       (try_with wallet_error_of_grpc
         (tr_grpc_hold tr n (add_internal_token c ''/wallet.v1.WalletService/HoldFunds'' q)) Inr)"

definition grpc_release_hold :: "transport \<Rightarrow> grpc_client \<Rightarrow> nat \<Rightarrow> string \<Rightarrow> wallet_client_error + unit" where
  "grpc_release_hold tr c n hold_id =
     grpc_channel tr c n WalletNetworkError WalletServiceError
       (try_with wallet_error_of_grpc
         (tr_grpc_empty tr n (add_internal_token c ''/wallet.v1.WalletService/ReleaseHold'' hold_id)) Inr)"

definition grpc_convert_hold :: "transport \<Rightarrow> grpc_client \<Rightarrow> nat \<Rightarrow> string \<Rightarrow> wallet_client_error + unit" where
  "grpc_convert_hold tr c n hold_id =
     grpc_channel tr c n WalletNetworkError WalletServiceError
       (try_with wallet_error_of_grpc
         (tr_grpc_empty tr n (add_internal_token c ''/wallet.v1.WalletService/ConvertHoldToPayment'' hold_id)) Inr)"

definition grpc_credit_seller_escrow :: "nat \<Rightarrow> string \<Rightarrow> u64 \<Rightarrow> string \<Rightarrow> wallet_client_error + unit" where
  "grpc_credit_seller_escrow n seller_id amount correlation_id =
     Inl (WalletServiceError ''credit_seller_escrow requires HTTP wallet client (set WALLET_SERVICE_URL)'')"

definition grpc_wallet :: "transport \<Rightarrow> grpc_client \<Rightarrow> wallet_client" where
  "grpc_wallet tr c = \<lparr>wc_hold_funds = grpc_hold_funds tr c, wc_release_hold = grpc_release_hold tr c,
     wc_convert_hold = grpc_convert_hold tr c, wc_credit_seller_escrow = grpc_credit_seller_escrow\<rparr>"

section \<open>The catalogue\<close>

fun catalog_error_of_http :: "http_client_error \<Rightarrow> catalog_client_error" where
  "catalog_error_of_http (HttpConfiguration m) = CatalogServiceError m"
| "catalog_error_of_http (HttpNetwork m) = CatalogNetworkError m"
| "catalog_error_of_http (HttpRequest m) = CatalogServiceError m"

definition http_catalog_client_new :: "transport \<Rightarrow> string \<Rightarrow> catalog_client_error + http_service_client" where
  "http_catalog_client_new tr base_url =
     try_with catalog_error_of_http (http_service_client_new tr base_url ''catalog'') Inr"

definition http_catalog :: "transport \<Rightarrow> http_service_client \<Rightarrow> catalog_client" where
  "http_catalog tr c n listing_id =
     try_with catalog_error_of_http (http_get tr n c (''/api/v1/catalogue/listings/'' @ listing_id @ ''/summary'')) (\<lambda>response.
     if sr_status response = 404 then Inl (ListingNotFound listing_id)
     else if \<not> is_success (sr_status response)
       then Inl (CatalogServiceError (''catalog service returned '' @ tr_status_text tr (sr_status response)))
     else try_with CatalogServiceError (tr_decode_listing tr (sr_body response)) Inr)"

definition catalog_error_of_grpc :: "grpc_status \<Rightarrow> catalog_client_error" where
  "catalog_error_of_grpc st =
     (if gs_code st = NotFound then ListingNotFound (gs_message st)
      else if gs_code st \<in> set network_codes then CatalogNetworkError (gs_message st)
      else CatalogServiceError (grpc_error_text st))"

definition grpc_catalog_client_new :: "transport \<Rightarrow> string \<Rightarrow> catalog_client_error + grpc_client" where
  "grpc_catalog_client_new tr endpoint =
     (let endpoint = trim endpoint in
      if endpoint = [] then Inl (CatalogServiceError ''catalog gRPC endpoint is empty'')
      else
        try_with CatalogServiceError (tr_endpoint tr endpoint) (\<lambda>_.
        Inr \<lparr>gc_endpoint = endpoint, gc_internal_service_token = None\<rparr>))"

definition grpc_catalog :: "transport \<Rightarrow> grpc_client \<Rightarrow> catalog_client" where
  "grpc_catalog tr c n listing_id =
     grpc_channel tr c n CatalogNetworkError CatalogServiceError
       (try_with catalog_error_of_grpc
         (tr_grpc_listing tr n (add_internal_token c ''/catalogue.v1.CatalogueService/GetListingSummary'' listing_id)) Inr)"

section \<open>A transport for concrete runs\<close>

text \<open>One wallet that answers every request with the given status and body, on the given URL.\<close>

definition lab_url :: url where
  "lab_url = \<lparr>url_scheme = ''http'', url_host = Some ''wallet'', url_port = Some 80, url_known_port = Some 80,
     url_join = Inr\<rparr>"

definition lab_transport :: "nat \<Rightarrow> string \<Rightarrow> transport" where
  "lab_transport status body =
     \<lparr>tr_parse_url = (\<lambda>_. Inr lab_url), tr_parse_uri = Inr, tr_build_error = (\<lambda>_. None),
      tr_connect = (\<lambda>_ _ _. Inr ()), tr_handshake = (\<lambda>_. Inr ()), tr_exchange = (\<lambda>_ _. Inr status),
      tr_collect = (\<lambda>_ _. Inr body), tr_status_text = nat_to_dec, tr_json_encode = (\<lambda>_. Inr ''{}''),
      tr_decode_hold = (\<lambda>_. Inr \<lparr>hr_id = ''h'', hr_status = ''HELD'', hr_amount = 1\<rparr>),
      tr_decode_listing = (\<lambda>_. Inr \<lparr>ls_id = ''l'', ls_seller_id = ''seller'', ls_status = ''ACTIVE''\<rparr>),
      tr_elapsed = (\<lambda>_ _. False), tr_endpoint = (\<lambda>_. Inr ()), tr_metadata_value = Inr,
      tr_grpc_connect = (\<lambda>_ _. Inr ()), tr_grpc_ready = (\<lambda>_. Inr ()),
      tr_grpc_hold = (\<lambda>_ _. Inl \<lparr>gs_code = Unavailable, gs_message = ''down''\<rparr>),
      tr_grpc_empty = (\<lambda>_ _. Inl \<lparr>gs_code = Unavailable, gs_message = ''down''\<rparr>),
      tr_grpc_listing = (\<lambda>_ _. Inr \<lparr>ls_id = ''l'', ls_seller_id = ''seller'', ls_status = ''ACTIVE''\<rparr>)\<rparr>"

definition lab_client :: http_service_client where
  "lab_client = \<lparr>hc_base_url = lab_url, hc_service_name = ''wallet'', hc_internal_service_token = Some ''token'',
     hc_https = False\<rparr>"

lemma lab_dec: "nat_to_dec (Suc (Suc 0)) = ''2''" "nat_to_dec 80 = ''80''"
  by code_simp+

lemma lab_json_request:
  "build_request (lab_transport st txt) lab_client m path ''{}'' ct = Inr \<lparr>rq_method = m, rq_uri = path,
      rq_headers = [(''accept'', ''application/json''), (''content-length'', ''2''), (''host'', ''wallet:80'')]
        @ (case ct of Some t \<Rightarrow> [(''content-type'', t)] | None \<Rightarrow> [])
        @ [(''x-internal-service-token'', ''token'')], rq_body = ''{}''\<rparr>"
  by (simp add: build_request_def request_uri_def host_headers_def host_header_def lab_transport_def lab_client_def
      lab_url_def try_with_def require_def Let_def lab_dec)

lemma lab_post: "post_json (lab_transport st txt) n lab_client path ''{}'' = Inr \<lparr>sr_status = st, sr_body = txt\<rparr>"
  by (simp add: post_json_def send_def send_http_def exchange_def try_with_def require_def lab_json_request)
    (simp add: lab_transport_def lab_client_def lab_url_def)

end
