(* ===== verification/Server.thy ===== *)
theory Server
  imports Clients
begin

text \<open>
  \<^verbatim>\<open>server.rs\<close>: the choice of the clients from the environment variables, the pool's size and the
  migrations; the constructors of \<^verbatim>\<open>AuctionService\<close> (\<^verbatim>\<open>service/auction_core.rs\<close>), which put the chosen
  clients into the environment the service's functions run in.
\<close>

section \<open>Clients from endpoints\<close>

text \<open>\<^verbatim>\<open>filter(|value| !value.trim().is_empty())\<close>\<close>

definition given :: "string option \<Rightarrow> string option" where
  "given v = (case v of Some s \<Rightarrow> if is_blank s then None else Some s | None \<Rightarrow> None)"

definition catalog_client_from_url :: "transport \<Rightarrow> string option \<Rightarrow> catalog_client_error + catalog_client option" where
  "catalog_client_from_url tr base_url =
     (case given base_url of
        None \<Rightarrow> Inr None
      | Some u \<Rightarrow> try_with id (http_catalog_client_new tr u) (\<lambda>c. Inr (Some (http_catalog tr c))))"

definition catalog_client_from_endpoints :: "transport \<Rightarrow> string option \<Rightarrow> string option
    \<Rightarrow> catalog_client_error + catalog_client option" where
  "catalog_client_from_endpoints tr grpc_endpoint http_base_url =
     (case given grpc_endpoint of
        Some e \<Rightarrow> try_with id (grpc_catalog_client_new tr e) (\<lambda>c. Inr (Some (grpc_catalog tr c)))
      | None \<Rightarrow>
          (case given http_base_url of
             Some u \<Rightarrow> try_with id (http_catalog_client_new tr u) (\<lambda>c. Inr (Some (http_catalog tr c)))
           | None \<Rightarrow> Inr None))"

definition wallet_client_from_url :: "transport \<Rightarrow> env \<Rightarrow> string option \<Rightarrow> wallet_client_error + wallet_client option" where
  "wallet_client_from_url tr env base_url =
     (case given base_url of
        None \<Rightarrow> Inr None
      | Some u \<Rightarrow> try_with id (http_wallet_client_new tr env u) (\<lambda>c.
          Inr (Some (wallet_client_proxy tr (wallet_timeout_ms env) (http_wallet tr c)))))"

definition wallet_client_from_endpoints :: "transport \<Rightarrow> env \<Rightarrow> string option \<Rightarrow> string option
    \<Rightarrow> wallet_client_error + wallet_client option" where
  "wallet_client_from_endpoints tr env grpc_endpoint http_base_url =
     (case given http_base_url of
        Some u \<Rightarrow> try_with id (http_wallet_client_new tr env u) (\<lambda>c.
          Inr (Some (wallet_client_proxy tr (wallet_timeout_ms env) (http_wallet tr c))))
      | None \<Rightarrow>
          (case given grpc_endpoint of
             Some e \<Rightarrow> try_with id (grpc_wallet_client_new tr env e) (\<lambda>c.
               Inr (Some (wallet_client_proxy tr (wallet_timeout_ms env) (grpc_wallet tr c))))
           | None \<Rightarrow> Inr None))"

section \<open>The service\<close>

definition new_with_clients :: "wallet_client option \<Rightarrow> catalog_client option \<Rightarrow> env \<Rightarrow> env" where
  "new_with_clients wallet catalog env = env\<lparr>env_wallet := wallet, env_catalog := catalog\<rparr>"

definition new_service :: "env \<Rightarrow> env" where
  "new_service env = new_with_clients None None env"

definition new_with_wallet :: "wallet_client \<Rightarrow> env \<Rightarrow> env" where
  "new_with_wallet wallet env = new_with_clients (Some wallet) None env"

definition new_with_catalog :: "catalog_client \<Rightarrow> env \<Rightarrow> env" where
  "new_with_catalog catalog env = new_with_clients None (Some catalog) env"

text \<open>\<^verbatim>\<open>build_router\<close> up to the routes: the service with its clients, or the message of the panic.\<close>

definition build_service :: "transport \<Rightarrow> env \<Rightarrow> string + env" where
  "build_service tr env =
     try_with (\<lambda>_. ''CATALOGUE_GRPC_URL or CATALOGUE_SERVICE_URL must be valid'')
       (catalog_client_from_endpoints tr (env_var env ''CATALOGUE_GRPC_URL'') (env_var env ''CATALOGUE_SERVICE_URL'')) (\<lambda>catalog.
     try_with (\<lambda>_. ''WALLET_GRPC_URL or WALLET_SERVICE_URL must be valid'')
       (wallet_client_from_endpoints tr env (env_var env ''WALLET_GRPC_URL'') (env_var env ''WALLET_SERVICE_URL'')) (\<lambda>wallet.
     Inr (new_with_clients wallet catalog env)))"

section \<open>Pool and migrations\<close>

definition max_connections :: "string \<Rightarrow> nat" where
  "max_connections database_url = (if database_url = ''sqlite::memory:'' then 1 else 5)"

definition is_duplicate_column_error :: "string \<Rightarrow> bool" where
  "is_duplicate_column_error error =
     (let message = to_ascii_lowercase error in
      str_contains ''duplicate column'' message \<or> str_contains ''already exists'' message
        \<or> str_contains ''duplicate_column'' message)"

definition is_deferred_additive_schema_error :: "string \<Rightarrow> string \<Rightarrow> bool" where
  "is_deferred_additive_schema_error stmt_text error =
     (let normalized = to_ascii_lowercase stmt_text; message = to_ascii_lowercase error in
      str_contains ''outbox_events_claim_idx'' normalized
        \<and> (str_contains ''next_attempt_at'' message \<or> str_contains ''locked_until'' message))"

text \<open>A database executes a statement's text: \<open>None\<close> is success, \<open>Some\<close> the text of the error.\<close>

type_synonym 'd executor = "string \<Rightarrow> 'd \<Rightarrow> string option \<times> 'd"

fun run_tolerant :: "'d executor \<Rightarrow> (string \<Rightarrow> string \<Rightarrow> bool) \<Rightarrow> string list \<Rightarrow> 'd \<Rightarrow> (string + unit) \<times> 'd" where
  "run_tolerant exec tolerated [] d = (Inr (), d)"
| "run_tolerant exec tolerated (q # qs) d =
     (case exec q d of
        (None, d1) \<Rightarrow> run_tolerant exec tolerated qs d1
      | (Some e, d1) \<Rightarrow> if tolerated q e then run_tolerant exec tolerated qs d1 else (Inl e, d1))"

definition init_statements :: "string \<Rightarrow> string list" where
  "init_statements sql = filter (\<lambda>q. q \<noteq> []) (map trim (split_at CHR '';'' sql))"

definition additive_columns :: "string list" where
  "additive_columns =
     [''ALTER TABLE outbox_events ADD COLUMN attempts INTEGER NOT NULL DEFAULT 0'',
      ''ALTER TABLE outbox_events ADD COLUMN next_attempt_at INTEGER NOT NULL DEFAULT 0'',
      ''ALTER TABLE outbox_events ADD COLUMN locked_until INTEGER'',
      ''ALTER TABLE outbox_events ADD COLUMN locked_by TEXT'',
      ''ALTER TABLE outbox_events ADD COLUMN last_error TEXT'']"

definition indented :: "string \<Rightarrow> nat \<Rightarrow> string" where
  "indented line n = [CHR 0x0A] @ replicate n CHR '' '' @ line"

definition additive_objects :: "string list" where
  "additive_objects =
     [''CREATE INDEX IF NOT EXISTS outbox_events_claim_idx ON outbox_events(published, next_attempt_at, locked_until, created_at)'',
      ''CREATE TABLE IF NOT EXISTS auction_closure_jobs ('' @ indented ''auction_id TEXT PRIMARY KEY,'' 12
        @ indented ''due_at INTEGER NOT NULL,'' 12
        @ indented (''status TEXT NOT NULL DEFAULT '' @ [CHR 0x27] @ ''PENDING'' @ [CHR 0x27] @ '','') 12
        @ indented ''attempts INTEGER NOT NULL DEFAULT 0,'' 12 @ indented ''locked_until INTEGER,'' 12
        @ indented ''locked_by TEXT,'' 12 @ indented ''last_error TEXT,'' 12
        @ indented ''created_at INTEGER NOT NULL,'' 12 @ indented ''updated_at INTEGER NOT NULL'' 12 @ indented '')'' 8,
      ''CREATE INDEX IF NOT EXISTS auction_closure_jobs_due_idx ON auction_closure_jobs(status, due_at, locked_until)'']"

definition ensure_additive_runtime_schema :: "'d executor \<Rightarrow> 'd \<Rightarrow> (string + unit) \<times> 'd" where
  "ensure_additive_runtime_schema exec d =
     (case run_tolerant exec (\<lambda>_. is_duplicate_column_error) additive_columns d of
        (Inl e, d1) \<Rightarrow> (Inl e, d1)
      | (Inr _, d1) \<Rightarrow> run_tolerant exec (\<lambda>_ _. False) additive_objects d1)"

definition run_migrations :: "'d executor \<Rightarrow> string \<Rightarrow> 'd \<Rightarrow> (string + unit) \<times> 'd" where
  "run_migrations exec init_sql d =
     (case run_tolerant exec is_deferred_additive_schema_error (init_statements init_sql) d of
        (Inl e, d1) \<Rightarrow> (Inl e, d1)
      | (Inr _, d1) \<Rightarrow> ensure_additive_runtime_schema exec d1)"

end
