(* ===== verification/ClientFacts.thy ===== *)
theory ClientFacts
  imports Server BidOutcome
begin

text \<open>
  What the clients guarantee: well-formed requests that carry the internal token, the meaning of each
  outcome of a hold, the choice of transports at start, the migrations, and what an unreachable wallet
  means for bids.
\<close>

lemma try_with_Inr: "try_with f r k = Inr b \<longleftrightarrow> (\<exists>a. r = Inr a \<and> k a = Inr b)"
  by (cases r) (simp_all add: try_with_def)

lemma try_with_Inl: "try_with f r k = Inl e \<longleftrightarrow> (\<exists>d. r = Inl d \<and> e = f d) \<or> (\<exists>a. r = Inr a \<and> k a = Inl e)"
  by (cases r) (auto simp: try_with_def)

lemma require_Inr: "require e v k = Inr b \<longleftrightarrow> (\<exists>a. v = Some a \<and> k a = Inr b)"
  by (cases v) (simp_all add: require_def)

lemma require_Inl: "require d v k = Inl e \<longleftrightarrow> (v = None \<and> e = d) \<or> (\<exists>a. v = Some a \<and> k a = Inl e)"
  by (cases v) (auto simp: require_def)

lemmas try_simps = try_with_Inr try_with_Inl require_Inr require_Inl

section \<open>A transport for concrete runs\<close>

section \<open>Requests\<close>

text \<open>Every HTTP request the service sends is well formed: no header twice, the length of the body
  announced, the internal token present whenever the client has one, and over plain HTTP the host of
  the configured URL with its port.\<close>

theorem outgoing_requests_well_formed:
  assumes "build_request tr c method path body content_type = Inr r"
  shows "distinct (map fst (rq_headers r)) \<and> rq_method r = method \<and> rq_body r = body
    \<and> map_of (rq_headers r) ''content-length'' = Some (nat_to_dec (length body))
    \<and> map_of (rq_headers r) ''x-internal-service-token'' = hc_internal_service_token c
    \<and> map_of (rq_headers r) ''content-type'' = content_type
    \<and> map_of (rq_headers r) ''host'' = (if url_scheme (hc_base_url c) = ''http''
        then map_option (\<lambda>h. host_header h (url_port (hc_base_url c))) (url_host (hc_base_url c)) else None)"
  using assms
  by (cases content_type; cases "hc_internal_service_token c")
    (auto simp: build_request_def try_simps host_headers_def Let_def split: option.splits if_splits)

theorem outgoing_requests_well_formed_witness:
  "map_of (rq_headers \<lparr>rq_method = ''POST'', rq_uri = ''/p'', rq_headers =
      [(''accept'', ''application/json''), (''content-length'', ''2''), (''host'', ''wallet:80''),
       (''x-internal-service-token'', ''token'')], rq_body = ''{}''\<rparr>) ''x-internal-service-token'' = Some ''token''"
proof -
  have "build_request (lab_transport 200 '''') lab_client ''POST'' ''/p'' ''{}'' None = Inr \<lparr>rq_method = ''POST'', rq_uri = ''/p'',
      rq_headers = [(''accept'', ''application/json''), (''content-length'', ''2''), (''host'', ''wallet:80''),
       (''x-internal-service-token'', ''token'')], rq_body = ''{}''\<rparr>"
    by (simp add: lab_json_request)
  from outgoing_requests_well_formed [OF this] show ?thesis by (simp add: lab_client_def)
qed

section \<open>Holds\<close>

text \<open>The wallet answered this request over HTTP, in time.\<close>

definition hold_answered :: "transport \<Rightarrow> nat \<Rightarrow> http_service_client \<Rightarrow> nat \<Rightarrow> hold_funds_request \<Rightarrow> service_response \<Rightarrow> bool" where
  "hold_answered tr timeout c n q resp \<longleftrightarrow> \<not> tr_elapsed tr n timeout \<and>
     (\<exists>body. tr_json_encode tr (hold_funds_json q) = Inr body \<and> post_json tr n c ''/api/v1/wallet/hold'' body = Inr resp)"

lemma not_insufficient [simp]:
  "wallet_error_of_http e \<noteq> InsufficientBalance m" "InsufficientBalance m \<noteq> wallet_error_of_http e"
  by (cases e; simp)+

lemma hold_unanswered:
  assumes "\<And>resp. \<not> hold_answered tr timeout c n q resp"
  shows "\<exists>e. wc_hold_funds (wallet_client_proxy tr timeout (http_wallet tr c)) n q = Inl e \<and> (\<forall>m. e \<noteq> InsufficientBalance m)"
  using assms
  by (cases "tr_json_encode tr (hold_funds_json q)"; cases "post_json tr n c ''/api/v1/wallet/hold'' (projr (tr_json_encode tr (hold_funds_json q)))")
    (auto simp: wallet_client_proxy_def guarded_def http_wallet_def http_hold_funds_def wallet_post_def try_with_def
      hold_answered_def)

lemma hold_verdict:
  assumes "hold_answered tr timeout c n q resp"
  shows "wc_hold_funds (wallet_client_proxy tr timeout (http_wallet tr c)) n q =
    (if is_success (sr_status resp) then try_with WalletServiceError (tr_decode_hold tr (sr_body resp)) Inr
     else let message = from_utf8_lossy (sr_body resp) in
       if sr_status resp = 400 \<and> str_contains ''INSUFFICIENT'' message then Inl (InsufficientBalance message)
       else Inl (WalletServiceError (''wallet service returned '' @ tr_status_text tr (sr_status resp) @ '': '' @ message)))"
  using assms
  by (auto simp: wallet_client_proxy_def guarded_def http_wallet_def http_hold_funds_def wallet_post_def try_with_def
      hold_answered_def)

lemma hold_answered_unique: "hold_answered tr timeout c n q resp \<Longrightarrow> hold_answered tr timeout c n q resp1 \<Longrightarrow> resp1 = resp"
  by (auto simp: hold_answered_def)

text \<open>C36: what a hold over HTTP means to the service. It is granted exactly if the wallet answered in
  time with a 2xx response that reads as a hold, which is the result; the balance is insufficient
  exactly if the wallet answered in time with 400 and a text that says so. So a hold that timed out is
  neither, whatever the wallet did.\<close>

theorem hold_outcomes:
  fixes tr timeout c
  defines "hold \<equiv> wc_hold_funds (wallet_client_proxy tr timeout (http_wallet tr c))"
  shows "(hold n q = Inr r \<longleftrightarrow> (\<exists>resp. hold_answered tr timeout c n q resp \<and> is_success (sr_status resp)
        \<and> tr_decode_hold tr (sr_body resp) = Inr r))
    \<and> (hold n q = Inl (InsufficientBalance m) \<longleftrightarrow> (\<exists>resp. hold_answered tr timeout c n q resp \<and> sr_status resp = 400
        \<and> m = from_utf8_lossy (sr_body resp) \<and> str_contains ''INSUFFICIENT'' m))"
proof (cases "\<exists>resp. hold_answered tr timeout c n q resp")
  case False
  with hold_unanswered [of tr timeout c n q] show ?thesis unfolding hold_def by auto
next
  case True
  then obtain resp where a: "hold_answered tr timeout c n q resp" by blast
  have u: "(\<exists>resp1. hold_answered tr timeout c n q resp1 \<and> P resp1) \<longleftrightarrow> P resp" for P
    using a hold_answered_unique [OF a] by blast
  have "is_success 400 = False" by (simp add: is_success_def)
  then show ?thesis
    unfolding hold_def hold_verdict [OF a] u by (auto simp: try_simps Let_def)
qed

section \<open>Without a wallet that answers\<close>

text \<open>The service never returns from \<open>m\<close> with success.\<close>

definition never_returns :: "('e, 'a) svc \<Rightarrow> bool" where
  "never_returns m \<longleftrightarrow> (\<forall>w. wp m (\<lambda>_ _. False) (\<lambda>_ _. True) w)"

lemma never_bind1: "never_returns m \<Longrightarrow> never_returns (bindS m f)"
  unfolding never_returns_def wp_bindS by (blast intro: wp_mono)

lemma never_bind2: "(\<And>a. never_returns (f a)) \<Longrightarrow> never_returns (bindS m f)"
  unfolding never_returns_def wp_bindS by (auto intro: wpI)

lemma hold_never_returns:
  assumes "env_wallet env = Some c" and "\<And>k q. isl (wc_hold_funds c k q)"
  shows "never_returns (hold_for_bid env u i b n t)"
  using assms(2) unfolding never_returns_def hold_for_bid_def assms(1)
  by (auto simp: wp_simps split: sum.split) (metis Inr_not_Inl isl_def)

lemma accept_never_returns:
  assumes "env_wallet env = Some c" and "\<And>k q. isl (wc_hold_funds c k q)"
  shows "never_returns (accept_bid env i a u t prev res st)"
  unfolding accept_bid_def Let_def
  by (rule never_bind2, rule never_bind2, rule never_bind1, rule hold_never_returns [OF assms])

lemma place_new_never_returns:
  assumes "env_wallet env = Some c" and "\<And>k q. isl (wc_hold_funds c k q)"
  shows "never_returns (place_new_bid env i a u t mode prev)"
  unfolding place_new_bid_def
  by (rule never_bind2, rule never_bind2, rule never_bind2, rule never_bind2, rule never_bind2,
      rule accept_never_returns [OF assms])

lemma built_wallet_is_guarded:
  assumes "build_service tr env0 = Inr env" and "env_wallet env = Some c"
  shows "\<exists>inner. c = wallet_client_proxy tr (wallet_timeout_ms env0) inner"
  using assms
  by (auto simp: build_service_def new_with_clients_def wallet_client_from_endpoints_def try_simps split: option.splits)

text \<open>C35: in a service built with a wallet, whichever transport it got, no bid is accepted while every call
  to the wallet times out: the only success is a bid that was stored before, and it changes nothing.\<close>

theorem no_wallet_no_bid:
  assumes "build_service tr env0 = Inr env" and "env_wallet env = Some c"
    and "\<And>k. tr_elapsed tr k (wallet_timeout_ms env0)"
    and "place_bid_and_persist env i u n t w = (Inr b, w1)"
  shows "b \<in> set (bids (db w)) \<and> db w1 = db w \<and> wallet_log w1 = wallet_log w"
proof -
  have down: "isl (wc_hold_funds c k q)" for k q
    using built_wallet_is_guarded [OF assms(1,2)] assms(3) by (auto simp: wallet_client_proxy_def guarded_def)
  have new: "wp (place_new_bid env j a u t (Standard n) prev) Q (\<lambda>_ _. True) w1" for j a prev Q w1
    by (rule wp_mono [of _ "\<lambda>_ _. False" "\<lambda>_ _. True"])
      (use place_new_never_returns [OF assms(2) down] in \<open>auto simp: never_returns_def\<close>)
  have "wp (place_bid_internal env i u t (Standard n)) (\<lambda>b w1. b \<in> set (bids (db w)) \<and> unchanged w w1) (\<lambda>_ _. True) w"
    by (rule wp_place_bid_internal) (auto intro: new)
  then show ?thesis using assms(4) by (auto simp: bid_entry_defs unchanged_def dest: wp_InrD)
qed

definition down_transport :: transport where
  "down_transport = (lab_transport 200 [])\<lparr>tr_elapsed := \<lambda>_ _. True\<rparr>"

definition down_env :: env where
  "down_env = calm_env\<lparr>env_var := [''WALLET_SERVICE_URL'' \<mapsto> ''http'']\<rparr>"

lemma bid_world_repeat:
  assumes "\<And>k. env_db_fault env k = None"
  shows "\<exists>b w1. place_bid_and_persist env ''a1'' ''u1'' 3000 500 bid_world = (Inr b, w1)"
  by (simp add: bid_entry_defs place_bid_internal_def resolve_record_def existing_standard_bid_def bindS_def map_err_def
      run_query_def run_stmt_def sql_query_def assms find_by_id_def find_by_listing_id_def find_matching_bid_def
      bid_world_def sample_listing_def first_row_def ok_or_def ret_def next_tick_def)

theorem no_wallet_no_bid_witness:
  "\<exists>env c. build_service down_transport down_env = Inr env \<and> env_wallet env = Some c
    \<and> db (snd (place_bid_and_persist env ''a1'' ''u1'' 3000 500 bid_world)) = db bid_world"
proof -
  have blank: "\<not> is_blank ''http''" by code_simp
  have "\<exists>env c. build_service down_transport down_env = Inr env \<and> env_wallet env = Some c \<and> env_db_fault env = (\<lambda>_. None)"
    by (simp add: build_service_def catalog_client_from_endpoints_def wallet_client_from_endpoints_def given_def
        down_env_def blank try_with_def http_wallet_client_new_def http_service_client_new_def down_transport_def
        lab_transport_def lab_url_def new_with_clients_def calm_env_def)
  then obtain env c where e: "build_service down_transport down_env = Inr env" "env_wallet env = Some c"
      "\<And>k. env_db_fault env k = None" by auto
  moreover obtain b w1 where r: "place_bid_and_persist env ''a1'' ''u1'' 3000 500 bid_world = (Inr b, w1)"
    using bid_world_repeat [OF e(3)] by blast
  have "db w1 = db bid_world"
    using no_wallet_no_bid [OF e(1,2) _ r] by (simp add: down_transport_def)
  ultimately show ?thesis using r by auto
qed

section \<open>Endpoints\<close>

text \<open>With only a gRPC endpoint for the wallet the seller's escrow can never be credited.\<close>

lemma escrow_needs_http:
  assumes "wallet_client_from_endpoints tr env grpc http = Inr (Some c)" and "given http = None"
  shows "isl (wc_credit_seller_escrow c n seller amount k)"
  using assms
  by (auto simp: wallet_client_from_endpoints_def try_simps wallet_client_proxy_def guarded_def grpc_wallet_def
      grpc_credit_seller_escrow_def split: option.splits)

text \<open>Both endpoints given: the wallet is reached over HTTP, the catalogue over gRPC.\<close>

lemma both_endpoints:
  assumes "given grpc = Some g" and "given http = Some h"
  shows "wallet_client_from_endpoints tr env grpc http = wallet_client_from_url tr env http"
    and "catalog_client_from_endpoints tr grpc http = catalog_client_from_endpoints tr grpc None"
  using assms
  by (simp_all add: wallet_client_from_endpoints_def wallet_client_from_url_def catalog_client_from_endpoints_def)

section \<open>Migrations\<close>

definition executed :: "'d executor \<Rightarrow> string list \<Rightarrow> 'd \<Rightarrow> 'd" where
  "executed exec qs d = fold (\<lambda>q d. snd (exec q d)) qs d"

lemma executed_simps [simp]:
  "executed exec [] d = d" "executed exec (q # qs) d = executed exec qs (snd (exec q d))"
  "executed exec (qs @ rs) d = executed exec rs (executed exec qs d)"
  by (simp_all add: executed_def)

lemma run_tolerant_Inr: "run_tolerant exec tolerated qs d = (Inr x, d1) \<Longrightarrow> d1 = executed exec qs d"
  by (induction qs arbitrary: d) (auto split: prod.splits option.splits if_splits)

lemma run_tolerant_Inl:
  "run_tolerant exec tolerated qs d = (Inl e, d1) \<Longrightarrow>
    \<exists>pre q post. qs = pre @ q # post \<and> exec q (executed exec pre d) = (Some e, d1) \<and> \<not> tolerated q e"
proof (induction qs arbitrary: d)
  case (Cons q qs)
  obtain r d2 where x: "exec q d = (r, d2)" by fastforce
  show ?case
  proof (cases "run_tolerant exec tolerated qs d2 = (Inl e, d1)")
    case True
    from Cons.IH [OF this] obtain pre q1 post where
      "qs = pre @ q1 # post" "exec q1 (executed exec pre d2) = (Some e, d1)" "\<not> tolerated q1 e" by blast
    then have "q # qs = (q # pre) @ q1 # post \<and> exec q1 (executed exec (q # pre) d) = (Some e, d1) \<and> \<not> tolerated q1 e"
      using x by simp
    then show ?thesis by blast
  next
    case False
    with Cons.prems x have "q # qs = [] @ q # qs \<and> exec q (executed exec [] d) = (Some e, d1) \<and> \<not> tolerated q e"
      by (auto split: option.splits if_splits)
    then show ?thesis by blast
  qed
qed simp

definition migration_statements :: "string \<Rightarrow> string list" where
  "migration_statements sql = init_statements sql @ additive_columns @ additive_objects"

text \<open>A migration that fails does so with the error of one statement, after all before it and none after.\<close>

lemma migrations_stop_at_an_error:
  assumes "run_migrations exec sql d = (Inl e, d1)"
  shows "\<exists>pre q post. migration_statements sql = pre @ q # post \<and> exec q (executed exec pre d) = (Some e, d1)"
proof (cases "run_tolerant exec is_deferred_additive_schema_error (init_statements sql) d")
  case (Pair r d2)
  show ?thesis
  proof (cases r)
    case (Inl e1)
    with assms Pair have "run_tolerant exec is_deferred_additive_schema_error (init_statements sql) d = (Inl e, d1)"
      by (simp add: run_migrations_def)
    from run_tolerant_Inl [OF this] obtain pre q post where
      init: "init_statements sql = pre @ q # post" and "exec q (executed exec pre d) = (Some e, d1)" by blast
    moreover have "migration_statements sql = pre @ q # (post @ additive_columns @ additive_objects)"
      by (simp add: migration_statements_def init)
    ultimately show ?thesis by blast
  next
    case (Inr x)
    have d2: "d2 = executed exec (init_statements sql) d" using run_tolerant_Inr Pair Inr by metis
    obtain r3 d3 where 3: "run_tolerant exec (\<lambda>_. is_duplicate_column_error) additive_columns d2 = (r3, d3)" by fastforce
    show ?thesis
    proof (cases r3)
      case (Inl e1)
      with assms Pair Inr 3 have "run_tolerant exec (\<lambda>_. is_duplicate_column_error) additive_columns d2 = (Inl e, d1)"
        by (simp add: run_migrations_def ensure_additive_runtime_schema_def)
      from run_tolerant_Inl [OF this] obtain pre q post where
        "additive_columns = pre @ q # post" "exec q (executed exec pre d2) = (Some e, d1)" by blast
      then have "migration_statements sql = (init_statements sql @ pre) @ q # post @ additive_objects"
          "exec q (executed exec (init_statements sql @ pre) d) = (Some e, d1)"
        by (simp_all add: migration_statements_def d2)
      then show ?thesis by blast
    next
      case (Inr y)
      have d3: "d3 = executed exec additive_columns d2" using run_tolerant_Inr 3 Inr by metis
      have "run_tolerant exec (\<lambda>_ _. False) additive_objects d3 = (Inl e, d1)"
        using assms Pair \<open>r = Inr x\<close> 3 Inr by (simp add: run_migrations_def ensure_additive_runtime_schema_def)
      from run_tolerant_Inl [OF this] obtain pre q post where
        "additive_objects = pre @ q # post" "exec q (executed exec pre d3) = (Some e, d1)" by blast
      then have "migration_statements sql = (init_statements sql @ additive_columns @ pre) @ q # post"
          "exec q (executed exec (init_statements sql @ additive_columns @ pre) d) = (Some e, d1)"
        by (simp_all add: migration_statements_def d2 d3)
      then show ?thesis by blast
    qed
  qed
qed

lemma run_tolerant_ok:
  "(\<And>q d e. q \<in> set qs \<Longrightarrow> fst (exec q d) = Some e \<Longrightarrow> tolerated q e)
    \<Longrightarrow> run_tolerant exec tolerated qs d = (Inr (), executed exec qs d)"
  by (induction qs arbitrary: d) (auto split: prod.splits option.splits, (metis fst_conv)+)

text \<open>Migrations survive restarts. On a database that executes the script and creates tables and
  indexes, and that either adds a column or reports it as a duplicate, the migrations succeed, and all
  their statements were executed in order.\<close>

theorem migrations_survive_restarts:
  assumes "\<And>q d. q \<in> set (init_statements sql @ additive_objects) \<Longrightarrow> fst (exec q d) = None"
    and "\<And>q d e. q \<in> set additive_columns \<Longrightarrow> fst (exec q d) = Some e \<Longrightarrow> is_duplicate_column_error e"
  shows "run_migrations exec sql d = (Inr (), executed exec (migration_statements sql) d)"
proof -
  have "run_tolerant exec is_deferred_additive_schema_error (init_statements sql) d1 = (Inr (), executed exec (init_statements sql) d1)"
    and "run_tolerant exec (\<lambda>_. is_duplicate_column_error) additive_columns d1 = (Inr (), executed exec additive_columns d1)"
    and "run_tolerant exec (\<lambda>_ _. False) additive_objects d1 = (Inr (), executed exec additive_objects d1)" for d1
    using assms by (auto intro!: run_tolerant_ok)
  then show ?thesis
    by (simp add: run_migrations_def ensure_additive_runtime_schema_def migration_statements_def)
qed

text \<open>A database that knows every column already.\<close>

definition migrated_db :: "nat executor" where
  "migrated_db q n = (if q \<in> set additive_columns then Some ''duplicate column name: attempts'' else None, Suc n)"

theorem migrations_survive_restarts_witness:
  "run_migrations migrated_db ''CREATE TABLE IF NOT EXISTS bids ( id TEXT ); '' 0 = (Inr (), 9)"
proof -
  let ?sql = "''CREATE TABLE IF NOT EXISTS bids ( id TEXT ); ''"
  have init: "init_statements ?sql = [''CREATE TABLE IF NOT EXISTS bids ( id TEXT )'']" by code_simp
  have "is_duplicate_column_error ''duplicate column name: attempts''" by code_simp
  then have "run_migrations migrated_db ?sql 0 = (Inr (), executed migrated_db (migration_statements ?sql) 0)"
    by (intro migrations_survive_restarts)
      (auto simp: migrated_db_def init additive_columns_def additive_objects_def split: if_splits)
  also have "executed migrated_db (migration_statements ?sql) 0 = 9"
    by (simp add: migration_statements_def init additive_columns_def additive_objects_def migrated_db_def executed_def)
  finally show ?thesis .
qed

end
