(* ===== verification/Publishers.thy ===== *)
theory Publishers
  imports OutboxFacts Clients
begin

text \<open>
  The two publishers of outbox events: over HTTP (\<^verbatim>\<open>HttpOutboxPublisher\<close> of
  \<^verbatim>\<open>scheduler/outbox_scheduler.rs\<close>) and over AMQP (\<^verbatim>\<open>scheduler/rabbitmq_outbox_publisher.rs\<close>), which
  keeps its connection between events; the relay's loop with a publisher that has a state, and the
  polling tasks. The AMQP library is the record \<open>amqp\<close>, each function of the tick.
\<close>

section \<open>Over HTTP\<close>

record http_outbox_publisher =
  hop_client :: http_service_client
  hop_path :: string

definition http_outbox_publisher_new :: "transport \<Rightarrow> string \<Rightarrow> string \<Rightarrow> string + http_outbox_publisher" where
  "http_outbox_publisher_new tr base_url path =
     try_with http_client_error_text (http_service_client_new tr base_url ''outbox relay'') (\<lambda>c.
     Inr \<lparr>hop_client = c, hop_path = path\<rparr>)"

definition http_outbox_envelope :: "env \<Rightarrow> outbox_event_record \<Rightarrow> json" where
  "http_outbox_envelope env e = JObj
     [(''id'', JStr (oe_id e)), (''aggregate_id'', JStr (oe_aggregate_id e)), (''event_type'', JStr (oe_event_type e)),
      (''payload'', event_payload env e), (''created_at'', JInt (oe_created_at e))]"

definition map_http_error :: "http_client_error \<Rightarrow> string" where
  "map_http_error e = http_client_error_text e"

definition http_outbox_publish :: "transport \<Rightarrow> env \<Rightarrow> http_outbox_publisher \<Rightarrow> publisher" where
  "http_outbox_publish tr env p n e =
     try_with id (tr_json_encode tr (http_outbox_envelope env e)) (\<lambda>body.
     try_with map_http_error (post_json tr n (hop_client p) (hop_path p) body) (\<lambda>response.
     if \<not> is_success (sr_status response)
     then Inl (''outbox relay returned '' @ tr_status_text tr (sr_status response))
     else Inr ()))"

section \<open>Over AMQP\<close>

record amqp_message =
  am_exchange :: string
  am_routing_key :: string
  am_body :: string
  am_content_type :: string
  am_delivery_mode :: nat

record ('c, 'h) amqp =
  amqp_connect :: "nat \<Rightarrow> string \<Rightarrow> string + 'c"
  amqp_create_channel :: "nat \<Rightarrow> 'c \<Rightarrow> string + 'h"
  amqp_connected :: "nat \<Rightarrow> 'h \<Rightarrow> bool"
  amqp_publish :: "nat \<Rightarrow> 'h \<Rightarrow> amqp_message \<Rightarrow> string + unit"
  amqp_confirm :: "nat \<Rightarrow> 'h \<Rightarrow> amqp_message \<Rightarrow> string + unit"

record rabbitmq_publisher =
  rmq_amqp_url :: string
  rmq_exchange :: string

text \<open>The publisher's state: the connection with its channel; beside it a clock for the library's answers,
  the number of connections opened and the messages that were sent: published, and the wait for the
  confirmation ended without an error. The channel is never put into confirm mode, so that wait says
  that the library took the message, not that the broker stored it.\<close>

record ('c, 'h) amqp_state =
  as_channel :: "('c \<times> 'h) option"
  as_tick :: nat
  as_connects :: nat
  as_confirmed :: "amqp_message list"

definition amqp_tick :: "('c, 'h) amqp_state \<Rightarrow> ('c, 'h) amqp_state" where
  "amqp_tick st = st\<lparr>as_tick := Suc (as_tick st)\<rparr>"

definition new_amqp_state :: "('c, 'h) amqp_state" where
  "new_amqp_state = \<lparr>as_channel = None, as_tick = 0, as_connects = 0, as_confirmed = []\<rparr>"

text \<open>The check that both the fast path and, under the write lock, the slow path make.\<close>

definition open_channel :: "('c, 'h) amqp \<Rightarrow> ('c, 'h) amqp_state \<Rightarrow> 'h option" where
  "open_channel am st = (case as_channel st of
       Some (conn, ch) \<Rightarrow> if amqp_connected am (as_tick st) ch then Some ch else None
     | None \<Rightarrow> None)"

definition amqp_reconnect :: "('c, 'h) amqp \<Rightarrow> rabbitmq_publisher \<Rightarrow> ('c, 'h) amqp_state
    \<Rightarrow> (string + 'h) \<times> ('c, 'h) amqp_state" where
  "amqp_reconnect am p st =
     (case amqp_connect am (as_tick st) (rmq_amqp_url p) of
        Inl m \<Rightarrow> (Inl (''AMQP connect: '' @ m), amqp_tick st)
      | Inr conn \<Rightarrow>
          let st1 = (amqp_tick st)\<lparr>as_connects := as_connects st + 1\<rparr> in
          (case amqp_create_channel am (as_tick st1) conn of
             Inl m \<Rightarrow> (Inl (''AMQP channel: '' @ m), amqp_tick st1)
           | Inr ch \<Rightarrow> (Inr ch, (amqp_tick st1)\<lparr>as_channel := Some (conn, ch)\<rparr>)))"

definition rmq_channel :: "('c, 'h) amqp \<Rightarrow> rabbitmq_publisher \<Rightarrow> ('c, 'h) amqp_state
    \<Rightarrow> (string + 'h) \<times> ('c, 'h) amqp_state" where
  "rmq_channel am p st =
     (case open_channel am st of
        Some ch \<Rightarrow> (Inr ch, amqp_tick st)
      | None \<Rightarrow>
          (case open_channel am (amqp_tick st) of
             Some ch \<Rightarrow> (Inr ch, amqp_tick (amqp_tick st))
           | None \<Rightarrow> amqp_reconnect am p (amqp_tick (amqp_tick st))))"

definition amqp_message_of :: "transport \<Rightarrow> env \<Rightarrow> rabbitmq_publisher \<Rightarrow> outbox_event_record \<Rightarrow> string + amqp_message" where
  "amqp_message_of tr env p e =
     (let routing_key = event_type_to_routing_key (oe_event_type e) in
      try_with (\<lambda>m. ''JSON serialize: '' @ m) (tr_json_encode tr (build_event_envelope env e routing_key)) (\<lambda>body.
      Inr \<lparr>am_exchange = rmq_exchange p, am_routing_key = routing_key, am_body = body,
           am_content_type = ''application/json'', am_delivery_mode = 2\<rparr>))"

definition rmq_publish :: "transport \<Rightarrow> env \<Rightarrow> ('c, 'h) amqp \<Rightarrow> rabbitmq_publisher \<Rightarrow> outbox_event_record
    \<Rightarrow> ('c, 'h) amqp_state \<Rightarrow> (string + unit) \<times> ('c, 'h) amqp_state" where
  "rmq_publish tr env am p e st =
     (case rmq_channel am p st of
        (Inl m, st1) \<Rightarrow> (Inl m, st1)
      | (Inr ch, st1) \<Rightarrow>
          (case amqp_message_of tr env p e of
             Inl m \<Rightarrow> (Inl m, st1)
           | Inr msg \<Rightarrow>
               (case amqp_publish am (as_tick st1) ch msg of
                  Inl m \<Rightarrow> (Inl (''AMQP publish: '' @ m), amqp_tick st1)
                | Inr _ \<Rightarrow>
                    (case amqp_confirm am (Suc (as_tick st1)) ch msg of
                       Inl m \<Rightarrow> (Inl (''AMQP confirm: '' @ m), amqp_tick (amqp_tick st1))
                     | Inr _ \<Rightarrow> (Inr (), (amqp_tick (amqp_tick st1))\<lparr>as_confirmed := as_confirmed st1 @ [msg]\<rparr>)))))"

section \<open>The relay with a publisher that has a state\<close>

type_synonym 'p stateful_publisher = "outbox_event_record \<Rightarrow> 'p \<Rightarrow> (string + unit) \<times> 'p"

text \<open>What the loop stores for the result of one event.\<close>

definition settle_event :: "env \<Rightarrow> outbox_event_record \<Rightarrow> string + unit \<Rightarrow> outbox_publish_report
    \<Rightarrow> (string, outbox_publish_report) svc" where
  "settle_event env e r report =
     (case r of
        Inr _ \<Rightarrow>
          bindS (utc_now env) (\<lambda>published_at.
          bindS (run_stmt env (mark_published (oe_id e) published_at)) (\<lambda>_.
          ret (report\<lparr>opr_published := opr_published report + 1\<rparr>)))
      | Inl err \<Rightarrow>
          bindS (utc_now env) (\<lambda>now.
          bindS (run_stmt env (mark_publish_failed (oe_id e) now
            (i64_add now (retry_delay_seconds (opr_failed report + 1))) err)) (\<lambda>_.
          ret (report\<lparr>opr_failed := opr_failed report + 1\<rparr>))))"

fun relay_events :: "env \<Rightarrow> 'p stateful_publisher \<Rightarrow> outbox_event_record list \<Rightarrow> outbox_publish_report
    \<Rightarrow> world \<Rightarrow> 'p \<Rightarrow> (string + outbox_publish_report) \<times> world \<times> 'p" where
  "relay_events env publish [] report w p = (Inr report, w, p)"
| "relay_events env publish (e # es) report w p =
     (case publish e p of (r, p1) \<Rightarrow>
       (case settle_event env e r report (next_tick w) of
          (Inl m, w1) \<Rightarrow> (Inl m, w1, p1)
        | (Inr report1, w1) \<Rightarrow> relay_events env publish es report1 w1 p1))"

definition relay_pending :: "env \<Rightarrow> i64 \<Rightarrow> 'p stateful_publisher \<Rightarrow> world \<Rightarrow> 'p
    \<Rightarrow> (string + outbox_publish_report) \<times> world \<times> 'p" where
  "relay_pending env limit publish w p =
     (let now = env_clock env (tick w) in
      case claim_pending env limit now (i64_add now 60) (''outbox-'' @ env_pid env) (next_tick w) of
        (Inl m, w1) \<Rightarrow> (Inl m, w1, p)
      | (Inr events, w1) \<Rightarrow>
          relay_events env publish events \<lparr>opr_attempted = length events, opr_published = 0, opr_failed = 0\<rparr> w1 p)"

text \<open>\<^verbatim>\<open>spawn_polling\<close>: the first \<open>n\<close> turns of its loop, each in the environment of its time; the sleeps in
  between change nothing.\<close>

fun relay_polling :: "env list \<Rightarrow> i64 \<Rightarrow> (env \<Rightarrow> 'p stateful_publisher) \<Rightarrow> world \<Rightarrow> 'p \<Rightarrow> world \<times> 'p" where
  "relay_polling [] limit publish w p = (w, p)"
| "relay_polling (env # envs) limit publish w p =
     (case relay_pending env limit (publish env) w p of (_, w1, p1) \<Rightarrow> relay_polling envs limit publish w1 p1)"

end
