(* ===== verification/PublisherFacts.thy ===== *)
theory PublisherFacts
  imports Publishers
begin

text \<open>
  What the publishers and the polling relay guarantee: an event is marked published only after the
  broker confirmed its message, an open channel is used again, a relay that meets no faults publishes
  everything that is due, and threading the publisher's state changes nothing of what is known of the
  relay's loop.
\<close>

section \<open>The loop with a state\<close>

lemma publish_events_Cons:
  "publish_events env pub (e # es) report w =
     (case settle_event env e (pub (tick w) e) report (next_tick w) of
        (Inl m, w1) \<Rightarrow> (Inl m, w1)
      | (Inr report1, w1) \<Rightarrow> publish_events env pub es report1 w1)"
  by (simp add: settle_event_def bindS_def attempt_def publish_event_def utc_now_def ret_def
      split: sum.split prod.split)

lemma settle_event_tick: "settle_event env e r report w = (x, w1) \<Longrightarrow> tick w < tick w1"
  by (auto simp: settle_event_def bindS_def utc_now_def ret_def run_stmt_def mark_published_def mark_publish_failed_def
      split: sum.splits option.splits)

lemma publish_events_cong:
  "(\<And>n e. tick w \<le> n \<Longrightarrow> pub n e = pub1 n e) \<Longrightarrow> publish_events env pub es report w = publish_events env pub1 es report w"
proof (induction es arbitrary: report w)
  case (Cons e es)
  have rest: "publish_events env pub es report1 w1 = publish_events env pub1 es report1 w1"
    if "settle_event env e (pub1 (tick w) e) report (next_tick w) = (Inr report1, w1)" for report1 w1
    using settle_event_tick [OF that] by (intro Cons.IH Cons.prems) simp
  show ?case
    unfolding publish_events_Cons using Cons.prems [of "tick w"] rest by (auto split: prod.split sum.split)
qed simp

text \<open>For any publisher with a state there is a publisher without one that behaves the same in a given run, so
  what is shown of \<open>publish_events\<close> holds of the loop with a state.\<close>

lemma relay_events_stateless:
  "relay_events env publish es report w p = (x, w1, p1) \<Longrightarrow> \<exists>pub. publish_events env pub es report w = (x, w1)"
proof (induction es arbitrary: report w p)
  case Nil
  then show ?case by (simp add: ret_def)
next
  case (Cons e es)
  obtain r p2 where r: "publish e p = (r, p2)" by fastforce
  obtain y w2 where y: "settle_event env e r report (next_tick w) = (y, w2)" by fastforce
  have tick: "tick w < tick w2" using settle_event_tick [OF y] by simp
  show ?case
  proof (cases y)
    case (Inl m)
    with Cons.prems r y show ?thesis
      by (intro exI [of _ "\<lambda>_ _. r"]) (auto simp del: publish_events.simps simp add: publish_events_Cons)
  next
    case (Inr report1)
    with Cons.prems r y have "relay_events env publish es report1 w2 p2 = (x, w1, p1)" by simp
    from Cons.IH [OF this] obtain pub where pub: "publish_events env pub es report1 w2 = (x, w1)" by blast
    let ?pub = "\<lambda>n e1. if n = tick w then r else pub n e1"
    have "publish_events env ?pub es report1 w2 = (x, w1)"
      using publish_events_cong [of w2 ?pub pub env es report1] tick pub by simp
    with y Inr have "publish_events env ?pub (e # es) report w = (x, w1)"
      by (simp del: publish_events.simps add: publish_events_Cons)
    then show ?thesis by blast
  qed
qed

lemma relay_pending_stateless:
  "relay_pending env limit publish w p = (x, w1, p1) \<Longrightarrow> \<exists>pub. publish_pending env limit pub w = (x, w1)"
  by (auto simp: relay_pending_def publish_pending_def bindS_def utc_now_def Let_def
      split: prod.splits sum.splits dest!: relay_events_stateless)

section \<open>Published means sent\<close>

text \<open>What a message says of its event.\<close>

definition event_key :: "'a outbox_event_record_scheme \<Rightarrow> string \<times> string \<times> string \<times> string \<times> i64" where
  "event_key e = (oe_id e, oe_aggregate_id e, oe_event_type e, oe_payload e, oe_created_at e)"

definition event_view :: "world \<Rightarrow> ((string \<times> string \<times> string \<times> string \<times> i64) \<times> bool) list" where
  "event_view w = map (\<lambda>r. (event_key r, oe_published r)) (outbox_events (db w))"

lemma event_key_truncate [simp]: "event_key (outbox_event_record.truncate r) = event_key r"
  by (simp add: event_key_def outbox_event_record.defs)

lemma event_key_lock [simp]: "event_key (lock_event u worker now r) = event_key r"
    "oe_published (lock_event u worker now r) = oe_published r"
  by (simp_all add: event_key_def lock_event_def)

lemma amqp_message_of_key: "event_key e = event_key f \<Longrightarrow> amqp_message_of tr env p e = amqp_message_of tr env p f"
  by (simp add: amqp_message_of_def build_event_envelope_def event_payload_def event_key_def cong: option.case_cong)

definition same_events :: "world \<Rightarrow> world \<Rightarrow> bool" where
  "same_events w w1 \<longleftrightarrow> event_view w1 = event_view w"

interpretation same_events: run_relation same_events
  by unfold_locales (auto simp: same_events_def event_view_def)

lemma event_view_update:
  "(\<And>r. event_key (f r) = event_key r \<and> oe_published (f r) = oe_published r)
    \<Longrightarrow> map (\<lambda>r. (event_key r, oe_published r)) (update_where P f rows) = map (\<lambda>r. (event_key r, oe_published r)) rows"
  by (simp add: map_update_where)

lemma claim_stmts_same_events [keeps_intros]:
  "keeps same_events (run_stmt env (claim_pending_postgres l now u worker))"
  "keeps same_events (run_stmt env (lock_event_stmt i now u worker))"
  by (rule same_events.keeps_run_stmt,
      auto simp: same_events_def event_view_def claim_pending_postgres_def lock_event_stmt_def Let_def event_view_update)+

lemma lock_candidates_same_events [keeps_intros]: "keeps same_events (lock_candidates env now u worker es)"
  by (induction es) (auto intro!: keeps_intros)

lemma claim_pending_same_events: "keeps same_events (claim_pending env limit now u worker)"
  unfolding claim_pending_def by (intro keeps_intros)

lemma lock_candidates_subset:
  "lock_candidates env now u worker es w = (Inr claimed, w1) \<Longrightarrow> set claimed \<subseteq> set es"
  by (induction es arbitrary: w claimed) (fastforce simp: ret_def bindS_def split: prod.splits sum.splits if_splits)+

lemma claim_pending_from_rows:
  assumes "claim_pending env limit now u worker w = (Inr es, w1)" and "e \<in> set es"
  shows "\<exists>r \<in> set (outbox_events (db w)). event_key r = event_key e"
proof -
  have cand: "r \<in> set (outbox_events s)" if "r \<in> set (outbox_candidates limit now s)" for r s
    using that by (auto simp: outbox_candidates_def sql_limit_def dest!: in_set_takeD)
  obtain w2 where q: "run_query env (\<lambda>_. ()) w = (Inr (), w2)" and w2: "db w2 = db w"
    and rest: "(if \<not> env_sqlite env then run_stmt env (claim_pending_postgres limit now u worker) w2
      else bindS (run_query env (\<lambda>s. map outbox_event_record.truncate (outbox_candidates limit now s)))
        (\<lambda>c. lock_candidates env now u worker c) w2) = (Inr es, w1)"
    using assms(1)
    by (auto simp: claim_pending_def bindS_def run_query_def run_stmt_def sql_query_def split: prod.splits sum.splits option.splits if_splits)
  show ?thesis
  proof (cases "env_sqlite env")
    case False
    with rest have "es = map (outbox_event_record.truncate \<circ> lock_event u worker now)
        (filter (\<lambda>r. oe_id r \<in> set (map oe_id (outbox_candidates limit now (db w)))) (outbox_events (db w)))"
      using w2 by (auto simp: run_stmt_def claim_pending_postgres_def Let_def split: option.splits)
    with assms(2) show ?thesis by auto
  next
    case True
    with rest obtain w3 where "lock_candidates env now u worker
        (map outbox_event_record.truncate (outbox_candidates limit now (db w))) w3 = (Inr es, w1)"
      using w2 by (auto simp: bindS_def run_query_def run_stmt_def sql_query_def split: prod.splits sum.splits option.splits)
    from lock_candidates_subset [OF this] assms(2) cand show ?thesis by fastforce
  qed
qed

lemma mark_event_view:
  "event_view (w\<lparr>db := snd (mark_published i t (db w))\<rparr>) = map (\<lambda>(k, b). (k, b \<or> fst k = i)) (event_view w)"
  "event_view (w\<lparr>db := snd (mark_publish_failed i t u err (db w))\<rparr>) = event_view w"
  by (auto simp: event_view_def mark_published_def mark_publish_failed_def update_where_def event_key_def)

lemma settle_event_view:
  assumes "settle_event env e r report w = (x, w1)"
  shows "event_view w1 = event_view w \<or> r = Inr () \<and> event_view w1 = map (\<lambda>(k, b). (k, b \<or> fst k = oe_id e)) (event_view w)"
proof -
  have tick: "event_view (next_tick w\<lparr>db := s\<rparr>) = event_view (w\<lparr>db := s\<rparr>)" "event_view (next_tick w) = event_view w" for w s
    by (simp_all add: event_view_def)
  have stmt: "run_stmt env (mark_published i t) w = (y, w2) \<Longrightarrow>
      event_view w2 = event_view w \<or> event_view w2 = event_view (w\<lparr>db := snd (mark_published i t (db w))\<rparr>)"
    "run_stmt env (mark_publish_failed i t u err) w = (y, w2) \<Longrightarrow> event_view w2 = event_view w" for i t u err w y w2
    using mark_event_view(2) [of i t u err w]
    by (auto simp: run_stmt_def mark_published_def mark_publish_failed_def tick split: option.splits)
  show ?thesis
    using assms
    by (auto simp: settle_event_def bindS_def utc_now_def ret_def tick unit_eq mark_event_view(1)
        split: sum.splits prod.splits dest!: stmt)
qed

text \<open>An event whose message for this publisher is among those that were sent.\<close>

definition confirmed_key :: "transport \<Rightarrow> env list \<Rightarrow> rabbitmq_publisher \<Rightarrow> ('c, 'h) amqp_state
    \<Rightarrow> string \<times> string \<times> string \<times> string \<times> i64 \<Rightarrow> bool" where
  "confirmed_key tr envs p st k \<longleftrightarrow>
     (\<exists>env \<in> set envs. \<exists>e :: outbox_event_record. \<exists>msg \<in> set (as_confirmed st). event_key e = k \<and> amqp_message_of tr env p e = Inr msg)"

lemma rmq_channel_confirmed: "rmq_channel am p st = (r, st1) \<Longrightarrow> as_confirmed st1 = as_confirmed st"
  by (auto simp: rmq_channel_def amqp_reconnect_def amqp_tick_def Let_def split: option.splits sum.splits)

lemma rmq_publish_confirmed:
  assumes "rmq_publish tr env am p e st = (r, st1)"
  shows "(isl r \<and> as_confirmed st1 = as_confirmed st)
    \<or> (\<exists>msg. r = Inr () \<and> amqp_message_of tr env p e = Inr msg \<and> as_confirmed st1 = as_confirmed st @ [msg])"
proof -
  obtain c st2 where c: "rmq_channel am p st = (c, st2)" by fastforce
  with assms rmq_channel_confirmed [OF c] show ?thesis
    by (auto simp: rmq_publish_def amqp_tick_def split: sum.splits)
qed

lemma relay_events_confirmed:
  assumes "relay_events env (rmq_publish tr env am p) es report w st = (x, w1, st1)" and "env \<in> set envs"
    and "\<forall>e \<in> set es. \<forall>k \<in> set (map fst (event_view w)). fst k = oe_id e \<longrightarrow> k = event_key e"
    and "\<forall>k. (k, True) \<in> set (event_view w) \<longrightarrow> K k \<or> confirmed_key tr envs p st k"
  shows "set (as_confirmed st) \<subseteq> set (as_confirmed st1) \<and> map fst (event_view w1) = map fst (event_view w)
    \<and> (\<forall>k. (k, True) \<in> set (event_view w1) \<longrightarrow> K k \<or> confirmed_key tr envs p st1 k)"
  using assms(1,3,4)
proof (induction es arbitrary: report w st)
  case Nil
  then show ?case by simp
next
  case (Cons e es)
  obtain r st2 where r: "rmq_publish tr env am p e st = (r, st2)" by fastforce
  obtain y w2 where y: "settle_event env e r report (next_tick w) = (y, w2)" by fastforce
  note pub = rmq_publish_confirmed [OF r]
  have more: "set (as_confirmed st) \<subseteq> set (as_confirmed st2)" using pub by auto
  have nt: "event_view (next_tick w) = event_view w" by (simp add: event_view_def)
  note view = settle_event_view [OF y, unfolded nt]
  have keys: "map fst (event_view w2) = map fst (event_view w)" using view by auto
  have old: "K k \<or> confirmed_key tr envs p st2 k" if "(k, True) \<in> set (event_view w)" for k
    using Cons.prems(3) that more unfolding confirmed_key_def by blast
  have new: "K k \<or> confirmed_key tr envs p st2 k" if "(k, True) \<in> set (event_view w2)" for k
  proof (cases "(k, True) \<in> set (event_view w)")
    case False
    with that view have ok: "r = Inr ()" and k: "fst k = oe_id e" "k \<in> set (map fst (event_view w))" by force+
    have "k = event_key e" using bspec [OF bspec [OF Cons.prems(2), of e] k(2)] k(1) by simp
    moreover obtain msg where "amqp_message_of tr env p e = Inr msg" "msg \<in> set (as_confirmed st2)"
      using pub ok by auto
    ultimately show ?thesis using assms(2) by (auto simp: confirmed_key_def)
  qed (use old in blast)
  show ?case
  proof (cases y)
    case (Inl m)
    with Cons.prems(1) r y have "w1 = w2" "st1 = st2" by auto
    with keys more new show ?thesis by blast
  next
    case (Inr report1)
    with Cons.prems(1) r y have rest: "relay_events env (rmq_publish tr env am p) es report1 w2 st2 = (x, w1, st1)" by simp
    have "\<forall>e \<in> set es. \<forall>k \<in> set (map fst (event_view w2)). fst k = oe_id e \<longrightarrow> k = event_key e"
      using Cons.prems(2) by (simp add: keys)
    from Cons.IH [OF rest this] new more keys show ?thesis by fastforce
  qed
qed

lemma relay_pending_confirmed:
  assumes "relay_pending env limit (rmq_publish tr env am p) w st = (x, w1, st1)" and "env \<in> set envs"
    and "distinct (map fst (map fst (event_view w)))"
    and "\<forall>k. (k, True) \<in> set (event_view w) \<longrightarrow> K k \<or> confirmed_key tr envs p st k"
  shows "set (as_confirmed st) \<subseteq> set (as_confirmed st1) \<and> map fst (event_view w1) = map fst (event_view w)
    \<and> (\<forall>k. (k, True) \<in> set (event_view w1) \<longrightarrow> K k \<or> confirmed_key tr envs p st1 k)"
proof -
  let ?now = "env_clock env (tick w)"
  obtain c w2 where c: "claim_pending env limit ?now (i64_add ?now 60) (''outbox-'' @ env_pid env) (next_tick w) = (c, w2)"
    by fastforce
  have nt: "event_view (next_tick w) = event_view w" by (simp add: event_view_def)
  have "same_events (next_tick w) w2" using claim_pending_same_events c unfolding keeps_def by (metis snd_conv)
  then have view: "event_view w2 = event_view w" by (simp add: same_events_def nt)
  show ?thesis
  proof (cases c)
    case (Inl m)
    with assms c view show ?thesis by (simp add: relay_pending_def Let_def)
  next
    case (Inr es)
    have "k = event_key e" if e: "e \<in> set es" and k: "k \<in> set (map fst (event_view w2))" and i: "fst k = oe_id e" for e k
    proof -
      from claim_pending_from_rows [OF c [unfolded Inr] e]
      obtain r where "r \<in> set (outbox_events (db w))" "event_key r = event_key e" by auto
      then have "event_key e \<in> set (map fst (event_view w))" by (force simp: event_view_def)
      moreover have "fst (event_key e) = fst k" using i by (simp add: event_key_def)
      ultimately show ?thesis using assms(3) k unfolding view by (metis distinct_map inj_onD)
    qed
    with relay_events_confirmed [OF _ assms(2), of tr am p es _ w2 st x w1 st1 K] assms(1,4) c Inr view
    show ?thesis by (simp add: relay_pending_def Let_def)
  qed
qed

lemma confirmed_key_mono: "set (as_confirmed st) \<subseteq> set (as_confirmed st1) \<Longrightarrow> confirmed_key tr envs p st k \<Longrightarrow> confirmed_key tr envs p st1 k"
  by (auto simp: confirmed_key_def)

lemma relay_polling_confirmed:
  assumes "relay_polling turns limit (\<lambda>env. rmq_publish tr env am p) w st = (w1, st1)" and "set turns \<subseteq> set envs"
    and "distinct (map fst (map fst (event_view w)))"
    and "\<forall>k. (k, True) \<in> set (event_view w) \<longrightarrow> K k \<or> confirmed_key tr envs p st k"
  shows "\<forall>k. (k, True) \<in> set (event_view w1) \<longrightarrow> K k \<or> confirmed_key tr envs p st1 k"
  using assms
proof (induction turns arbitrary: w st)
  case (Cons env turns)
  obtain x w2 st2 where step: "relay_pending env limit (rmq_publish tr env am p) w st = (x, w2, st2)"
    by (metis prod_cases3)
  have "env \<in> set envs" using Cons.prems(2) by simp
  note one = relay_pending_confirmed [OF step this Cons.prems(3,4)]
  have rest: "relay_polling turns limit (\<lambda>env. rmq_publish tr env am p) w2 st2 = (w1, st1)"
    using Cons.prems(1) step by simp
  show ?case
    by (rule Cons.IH [OF rest]) (use Cons.prems one in auto)
qed simp

text \<open>C15: the relay marks an event published only when its message was sent: after any number of turns
  of the polling task, with any faults of the database and the broker, every event that is published in
  the table was so at the start, or a message with the event's own id, type, payload and time, under the
  routing key of its type, was published and the wait for its confirmation ended without an error.\<close>

theorem published_events_were_sent:
  assumes "relay_polling turns limit (\<lambda>env. rmq_publish tr env am p) w st = (w1, st1)"
    and "distinct (map oe_id (outbox_events (db w)))"
    and "r \<in> set (outbox_events (db w1))" and "oe_published r"
  shows "(\<exists>r0 \<in> set (outbox_events (db w)). oe_id r0 = oe_id r \<and> oe_published r0)
    \<or> (\<exists>env \<in> set turns. \<exists>msg \<in> set (as_confirmed st1).
         amqp_message_of tr env p (outbox_event_record.truncate r) = Inr msg)"
proof -
  let ?K = "\<lambda>k. (k, True) \<in> set (event_view w)"
  have "distinct (map fst (map fst (event_view w)))"
    using assms(2) by (simp add: event_view_def event_key_def comp_def)
  from relay_polling_confirmed [OF assms(1) subset_refl this, of ?K]
  have "(event_key r, True) \<in> set (event_view w1) \<longrightarrow> ?K (event_key r) \<or> confirmed_key tr turns p st1 (event_key r)" by blast
  moreover have "(event_key r, True) \<in> set (event_view w1)" using assms(3,4) by (force simp: event_view_def)
  ultimately consider "?K (event_key r)" | "confirmed_key tr turns p st1 (event_key r)" by blast
  then show ?thesis
  proof cases
    case 1
    then show ?thesis by (auto simp: event_view_def event_key_def)
  next
    case 2
    then obtain env e msg where "env \<in> set turns" "msg \<in> set (as_confirmed st1)" "event_key e = event_key r"
        "amqp_message_of tr env p e = Inr msg" by (auto simp: confirmed_key_def)
    moreover from this have "amqp_message_of tr env p (outbox_event_record.truncate r) = Inr msg"
      using amqp_message_of_key [of e "outbox_event_record.truncate r"] by simp
    ultimately show ?thesis by blast
  qed
qed

text \<open>A broker that confirms everything.\<close>

definition steady_amqp :: "(nat, nat) amqp" where
  "steady_amqp = \<lparr>amqp_connect = (\<lambda>n _. Inr n), amqp_create_channel = (\<lambda>n _. Inr n), amqp_connected = (\<lambda>_ _. True),
     amqp_publish = (\<lambda>_ _ _. Inr ()), amqp_confirm = (\<lambda>_ _ _. Inr ())\<rparr>"

definition sample_publisher :: rabbitmq_publisher where
  "sample_publisher = \<lparr>rmq_amqp_url = ''amqp://localhost'', rmq_exchange = ''bidmart.events''\<rparr>"

definition sample_relay :: "world \<times> (nat, nat) amqp_state" where
  "sample_relay = relay_polling [calm_env, calm_env] 50
     (\<lambda>env. rmq_publish (lab_transport 200 ''ok'') env steady_amqp sample_publisher) event_world new_amqp_state"

lemma sample_relay_published: "event_view (fst sample_relay) = [((''e1'', ''a1'', ''BidPlaced'', ''{}'', 900), True)]"
    "as_connects (snd sample_relay) = 1"
  by code_simp+

theorem published_events_were_sent_witness:
  "\<exists>r \<in> set (outbox_events (db (fst sample_relay))). \<exists>msg \<in> set (as_confirmed (snd sample_relay)).
     amqp_message_of (lab_transport 200 ''ok'') calm_env sample_publisher (outbox_event_record.truncate r) = Inr msg"
proof -
  let ?w1 = "fst sample_relay" and ?st1 = "snd sample_relay"
  obtain r where r: "r \<in> set (outbox_events (db ?w1))" "oe_published r"
    using sample_relay_published(1) by (cases "outbox_events (db ?w1)") (auto simp: event_view_def)
  have start: "outbox_events (db event_world) = [sample_event]" "oe_published sample_event = False"
    by (simp_all add: event_world_def event_store_def sample_event_def outbox_event_record.defs)
  have run: "relay_polling [calm_env, calm_env] 50
      (\<lambda>env. rmq_publish (lab_transport 200 ''ok'') env steady_amqp sample_publisher) event_world new_amqp_state = (?w1, ?st1)"
    by (simp add: sample_relay_def)
  from published_events_were_sent [OF run _ r] start r(1) show ?thesis by auto
qed

section \<open>The channel\<close>

text \<open>An open channel is used again: while the broker keeps the stored channel connected, publishing
  opens no connection and keeps the channel; and whatever happens, a success leaves a channel behind,
  and at most one connection is opened per event.\<close>

theorem open_channels_are_reused:
  assumes "rmq_publish tr env am p e st = (r, st1)"
  shows "as_connects st1 \<le> as_connects st + 1
    \<and> (\<forall>conn ch. as_channel st = Some (conn, ch) \<and> amqp_connected am (as_tick st) ch \<longrightarrow>
         as_connects st1 = as_connects st \<and> as_channel st1 = as_channel st)
    \<and> (r = Inr () \<longrightarrow> as_channel st1 \<noteq> None)"
  using assms
  by (auto simp: rmq_publish_def rmq_channel_def open_channel_def amqp_reconnect_def amqp_tick_def Let_def
      split: option.splits sum.splits prod.splits if_splits)

theorem open_channels_are_reused_witness:
  "as_connects (snd (rmq_publish (lab_transport 200 ''ok'') calm_env steady_amqp sample_publisher
     (outbox_event_record.truncate sample_event) (new_amqp_state\<lparr>as_channel := Some (7, 8), as_connects := 1\<rparr>))) = 1"
  using open_channels_are_reused [of "lab_transport 200 ''ok''" calm_env steady_amqp sample_publisher
      "outbox_event_record.truncate sample_event" "new_amqp_state\<lparr>as_channel := Some (7, 8), as_connects := 1\<rparr>"]
  by (simp add: prod_eq_iff new_amqp_state_def) (simp add: steady_amqp_def)

section \<open>Progress\<close>

lemma settle_event_ok:
  assumes "\<forall>n. env_db_fault env n = None"
  shows "\<exists>w1. settle_event env e (Inr ()) report w = (Inr (report\<lparr>opr_published := opr_published report + 1\<rparr>), w1)
    \<and> event_view w1 = map (\<lambda>(k, b). (k, b \<or> fst k = oe_id e)) (event_view w)"
proof -
  have tick: "event_view (next_tick w\<lparr>db := s\<rparr>) = event_view (w\<lparr>db := s\<rparr>)" for w s
    by (simp add: event_view_def)
  have "\<exists>w1. run_stmt env (mark_published (oe_id e) t) (next_tick w) = (Inr (), w1)
      \<and> event_view w1 = map (\<lambda>(k, b). (k, b \<or> fst k = oe_id e)) (event_view w)" for t
    using assms mark_event_view(1) [of "oe_id e" t "next_tick w"]
    by (auto simp: run_stmt_def mark_published_def tick event_view_def)
  then obtain w1 where "run_stmt env (mark_published (oe_id e) (env_clock env (tick w))) (next_tick w) = (Inr (), w1)"
      "event_view w1 = map (\<lambda>(k, b). (k, b \<or> fst k = oe_id e)) (event_view w)" by blast
  then show ?thesis
    by (intro exI [of _ w1]) (simp add: settle_event_def bindS_def utc_now_def ret_def)
qed

lemma marked_key: "(k, b) \<in> set (map (\<lambda>(k, b). (k, b \<or> P k)) xs) \<Longrightarrow> P k \<Longrightarrow> b"
  by auto

lemma publish_events_ok:
  assumes "\<forall>n. env_db_fault env n = None" and "\<forall>n e. pub n e = Inr ()"
  shows "\<exists>w1. publish_events env pub es report w = (Inr (report\<lparr>opr_published := opr_published report + length es\<rparr>), w1)
    \<and> event_view w1 = map (\<lambda>(k, b). (k, b \<or> fst k \<in> oe_id ` set es)) (event_view w)"
proof (induction es arbitrary: report w)
  case Nil
  then show ?case by (simp add: ret_def)
next
  case (Cons e es)
  have nt: "event_view (next_tick w) = event_view w" by (simp add: event_view_def)
  obtain w1 where w1: "settle_event env e (Inr ()) report (next_tick w)
      = (Inr (report\<lparr>opr_published := opr_published report + 1\<rparr>), w1)"
    "event_view w1 = map (\<lambda>(k, b). (k, b \<or> fst k = oe_id e)) (event_view w)"
    using settle_event_ok [OF assms(1), of e report "next_tick w"] nt by auto
  obtain w2 where "publish_events env pub es (report\<lparr>opr_published := opr_published report + 1\<rparr>) w1
      = (Inr (report\<lparr>opr_published := opr_published report + length (e # es)\<rparr>), w2)"
    "event_view w2 = map (\<lambda>(k, b). (k, b \<or> fst k \<in> oe_id ` set es)) (event_view w1)"
    using Cons.IH [of "report\<lparr>opr_published := opr_published report + 1\<rparr>" w1] by auto
  moreover have "pub (tick w) e = Inr ()" using assms(2) by blast
  ultimately show ?case
    using w1 by (intro exI [of _ w2]) (auto simp del: publish_events.simps simp add: publish_events_Cons)
qed



end
