(* ===== verification/BidLock.thy ===== *)
theory BidLock
  imports Prelude
begin

text \<open>
  The bid locks of \<^verbatim>\<open>service/auction_bid_lock.rs\<close>: a map from auctions to shared mutexes, filled on first
  use; a handler that places a bid takes the mutex of its auction and drops it at its end. The mutex is
  tokio's and a parameter: the record \<open>mutex\<close> with the queue of the tasks that asked for it, the first of
  which owns it. Tasks interleave as steps of a relation; the invariant of its reachable states gives
  mutual exclusion and bounded waiting.
\<close>

section \<open>The mutex\<close>

record 'm mutex =
  mx_new :: 'm
  mx_lock :: "nat \<Rightarrow> 'm \<Rightarrow> 'm"
  mx_unlock :: "'m \<Rightarrow> 'm"
  mx_queue :: "'m \<Rightarrow> nat list"

text \<open>What tokio documents of \<^verbatim>\<open>Mutex\<close>: the calls of \<^verbatim>\<open>lock\<close> complete in the order they were made, each when
  the guard before it is dropped.\<close>

definition fifo_mutex :: "'m mutex \<Rightarrow> bool" where
  "fifo_mutex mx \<longleftrightarrow> mx_queue mx (mx_new mx) = []
     \<and> (\<forall>t m. mx_queue mx (mx_lock mx t m) = mx_queue mx m @ [t])
     \<and> (\<forall>m. mx_queue mx (mx_unlock mx m) = tl (mx_queue mx m))"

section \<open>The map of locks\<close>

text \<open>An \<^verbatim>\<open>Arc\<close> is an address; a task that called \<^verbatim>\<open>auction_bid_guard\<close> keeps its auction and its address
  until it drops the guard.\<close>

record 'm lock_state =
  bid_locks :: "string \<Rightarrow> nat option"
  lock_heap :: "nat \<Rightarrow> 'm"
  next_address :: nat
  guards :: "nat \<Rightarrow> (string \<times> nat) option"

definition no_locks :: "'m mutex \<Rightarrow> 'm lock_state" where
  "no_locks mx = \<lparr>bid_locks = (\<lambda>_. None), lock_heap = (\<lambda>_. mx_new mx), next_address = 0, guards = (\<lambda>_. None)\<rparr>"

text \<open>\<^verbatim>\<open>entry(auction).or_insert_with(new mutex).clone()\<close>\<close>

definition lock_of :: "'m mutex \<Rightarrow> string \<Rightarrow> 'm lock_state \<Rightarrow> nat \<times> 'm lock_state" where
  "lock_of mx auction s =
     (case bid_locks s auction of
        Some h \<Rightarrow> (h, s)
      | None \<Rightarrow>
          (next_address s, s\<lparr>bid_locks := (bid_locks s)(auction \<mapsto> next_address s),
             lock_heap := (lock_heap s)(next_address s := mx_new mx), next_address := Suc (next_address s)\<rparr>))"

definition auction_bid_guard :: "'m mutex \<Rightarrow> nat \<Rightarrow> string \<Rightarrow> 'm lock_state \<Rightarrow> 'm lock_state" where
  "auction_bid_guard mx task auction s =
     (case lock_of mx auction s of (h, s1) \<Rightarrow>
        s1\<lparr>lock_heap := (lock_heap s1)(h := mx_lock mx task (lock_heap s1 h)), guards := (guards s1)(task \<mapsto> (auction, h))\<rparr>)"

definition drop_guard :: "'m mutex \<Rightarrow> nat \<Rightarrow> nat \<Rightarrow> 'm lock_state \<Rightarrow> 'm lock_state" where
  "drop_guard mx task h s =
     s\<lparr>lock_heap := (lock_heap s)(h := mx_unlock mx (lock_heap s h)), guards := (guards s)(task := None)\<rparr>"

text \<open>The tasks at the lock a task waits for or holds; the first holds it.\<close>

definition queue_at :: "'m mutex \<Rightarrow> 'm lock_state \<Rightarrow> nat \<Rightarrow> nat list" where
  "queue_at mx s h = mx_queue mx (lock_heap s h)"

definition owns :: "'m mutex \<Rightarrow> 'm lock_state \<Rightarrow> nat \<Rightarrow> string \<Rightarrow> bool" where
  "owns mx s task auction \<longleftrightarrow> (\<exists>h. guards s task = Some (auction, h) \<and> queue_at mx s h \<noteq> [] \<and> hd (queue_at mx s h) = task)"

lemma ownsI: "guards s t = Some (a, h) \<Longrightarrow> queue_at mx s h = t # ts \<Longrightarrow> owns mx s t a"
  by (force simp: owns_def)

section \<open>Interleavings\<close>

text \<open>A handler asks for one guard, and drops it only once it has it.\<close>

datatype lock_event = Asks nat string | Drops nat string

inductive lock_step :: "'m mutex \<Rightarrow> 'm lock_state \<Rightarrow> lock_event \<Rightarrow> 'm lock_state \<Rightarrow> bool" for mx where
  ask: "guards s task = None \<Longrightarrow> lock_step mx s (Asks task auction) (auction_bid_guard mx task auction s)"
| drop: "guards s task = Some (auction, h) \<Longrightarrow> owns mx s task auction
    \<Longrightarrow> lock_step mx s (Drops task auction) (drop_guard mx task h s)"

inductive_cases lock_stepE: "lock_step mx s e s1"

inductive lock_reachable :: "'m mutex \<Rightarrow> 'm lock_state \<Rightarrow> bool" for mx where
  start: "lock_reachable mx (no_locks mx)"
| step: "lock_reachable mx s \<Longrightarrow> lock_step mx s e s1 \<Longrightarrow> lock_reachable mx s1"

text \<open>Every guard stands at the one lock of its auction, two auctions have two locks, and the queue of a lock
  holds exactly the tasks with a guard on it, each once.\<close>

definition locks_ok :: "'m mutex \<Rightarrow> 'm lock_state \<Rightarrow> bool" where
  "locks_ok mx s \<longleftrightarrow>
     (\<forall>a h. bid_locks s a = Some h \<longrightarrow> h < next_address s)
     \<and> (\<forall>a b h. bid_locks s a = Some h \<longrightarrow> bid_locks s b = Some h \<longrightarrow> a = b)
     \<and> (\<forall>t a h. guards s t = Some (a, h) \<longrightarrow> bid_locks s a = Some h)
     \<and> (\<forall>h. distinct (queue_at mx s h) \<and> (h < next_address s \<longrightarrow> set (queue_at mx s h) = {t. \<exists>a. guards s t = Some (a, h)}))"

lemma locks_okD:
  assumes "locks_ok mx s"
  shows "bid_locks s a = Some h \<Longrightarrow> h < next_address s"
    and "bid_locks s a = Some h \<Longrightarrow> bid_locks s b = Some h \<Longrightarrow> a = b"
    and "guards s t = Some (a, h) \<Longrightarrow> bid_locks s a = Some h"
    and "distinct (queue_at mx s h)"
    and "h < next_address s \<Longrightarrow> t \<in> set (queue_at mx s h) \<longleftrightarrow> (\<exists>a. guards s t = Some (a, h))"
  using assms unfolding locks_ok_def by blast+

lemma locks_okI:
  assumes "\<And>a h. bid_locks s a = Some h \<Longrightarrow> h < next_address s"
    and "\<And>a b h. bid_locks s a = Some h \<Longrightarrow> bid_locks s b = Some h \<Longrightarrow> a = b"
    and "\<And>t a h. guards s t = Some (a, h) \<Longrightarrow> bid_locks s a = Some h"
    and "\<And>h. distinct (queue_at mx s h)"
    and "\<And>t h. h < next_address s \<Longrightarrow> t \<in> set (queue_at mx s h) \<longleftrightarrow> (\<exists>a. guards s t = Some (a, h))"
  shows "locks_ok mx s"
  unfolding locks_ok_def using assms by blast

lemma locks_ok_start: "fifo_mutex mx \<Longrightarrow> locks_ok mx (no_locks mx)"
  by (simp add: locks_ok_def no_locks_def queue_at_def fifo_mutex_def)

lemma locks_ok_lock_of:
  assumes "fifo_mutex mx" and "locks_ok mx s" and "lock_of mx auction s = (h, s1)"
  shows "locks_ok mx s1" and "bid_locks s1 auction = Some h" and "guards s1 = guards s"
    and "bid_locks s b = Some k \<Longrightarrow> queue_at mx s1 k = queue_at mx s k"
proof -
  note ok = locks_okD [OF assms(2)]
  show "bid_locks s1 auction = Some h" "guards s1 = guards s"
    using assms(3) by (auto simp: lock_of_def split: option.splits)
  show "bid_locks s b = Some k \<Longrightarrow> queue_at mx s1 k = queue_at mx s k"
    using assms(3) ok(1) [of b k] by (auto simp: lock_of_def queue_at_def split: option.splits)
  show "locks_ok mx s1"
  proof (cases "bid_locks s auction")
    case (Some k)
    with assms(2,3) show ?thesis by (simp add: lock_of_def)
  next
    case None
    let ?n = "next_address s"
    have s1: "bid_locks s1 = (bid_locks s)(auction \<mapsto> ?n)" "next_address s1 = Suc ?n" "guards s1 = guards s"
        "queue_at mx s1 k = (if k = ?n then [] else queue_at mx s k)" for k
      using assms(1,3) None by (auto simp: lock_of_def queue_at_def fifo_mutex_def)
    have below: "bid_locks s a = Some k \<Longrightarrow> k < ?n" for a k by (rule ok(1))
    have fresh: "guards s t \<noteq> Some (a, ?n)" for t a using below ok(3) by blast
    show ?thesis
    proof (rule locks_okI)
      show "k < next_address s1" if "bid_locks s1 a = Some k" for a k
        using that below [of a k] by (auto simp: s1 split: if_splits)
      show "a = b" if "bid_locks s1 a = Some k" "bid_locks s1 b = Some k" for a b k
        using that ok(2) [of a k b] below [of a k] below [of b k] by (auto simp: s1 split: if_splits)
      show "bid_locks s1 a = Some k" if "guards s1 t = Some (a, k)" for t a k
        using that ok(3) [of t a k] None by (auto simp: s1)
      show "distinct (queue_at mx s1 k)" for k using ok(4) by (simp add: s1)
      show "t \<in> set (queue_at mx s1 k) \<longleftrightarrow> (\<exists>a. guards s1 t = Some (a, k))" if "k < next_address s1" for t k
        using that ok(5) [of k t] fresh by (auto simp: s1)
    qed
  qed
qed

lemma locks_ok_ask:
  assumes "fifo_mutex mx" and "locks_ok mx s" and "guards s task = None"
  shows "locks_ok mx (auction_bid_guard mx task auction s)"
proof -
  obtain h s1 where l: "lock_of mx auction s = (h, s1)" by fastforce
  note lock = locks_ok_lock_of [OF assms(1,2) l]
  note ok = locks_okD [OF lock(1)]
  let ?s = "auction_bid_guard mx task auction s"
  have s: "bid_locks ?s = bid_locks s1" "next_address ?s = next_address s1" "guards ?s = (guards s1)(task \<mapsto> (auction, h))"
      "queue_at mx ?s k = (if k = h then queue_at mx s1 h @ [task] else queue_at mx s1 k)" for k
    using assms(1) l by (auto simp: auction_bid_guard_def queue_at_def fifo_mutex_def)
  have h: "h < next_address s1" using lock(2) ok(1) by blast
  have none: "guards s1 task = None" using assms(3) lock(3) by simp
  then have out: "task \<notin> set (queue_at mx s1 h)" using ok(5) [OF h] by simp
  show ?thesis
  proof (rule locks_okI)
    show "distinct (queue_at mx ?s k)" for k using ok(4) out by (simp add: s)
    show "t \<in> set (queue_at mx ?s k) \<longleftrightarrow> (\<exists>a. guards ?s t = Some (a, k))" if "k < next_address ?s" for t k
      using that ok(5) [of k t] none by (auto simp: s)
    show "bid_locks ?s a = Some k" if "guards ?s t = Some (a, k)" for t a k
      using that ok(3) [of t a k] lock(2) by (auto simp: s split: if_splits)
  qed (use ok(1,2) in \<open>auto simp: s\<close>)
qed

lemma locks_ok_drop:
  assumes "fifo_mutex mx" and "locks_ok mx s" and "guards s task = Some (auction, h)" and "owns mx s task auction"
  shows "locks_ok mx (drop_guard mx task h s)" and "queue_at mx s h = task # queue_at mx (drop_guard mx task h s) h"
    and "k \<noteq> h \<Longrightarrow> queue_at mx (drop_guard mx task h s) k = queue_at mx s k"
proof -
  note ok = locks_okD [OF assms(2)]
  let ?s = "drop_guard mx task h s"
  have s: "bid_locks ?s = bid_locks s" "next_address ?s = next_address s" "guards ?s = (guards s)(task := None)"
      "queue_at mx ?s k = (if k = h then tl (queue_at mx s h) else queue_at mx s k)" for k
    using assms(1) by (auto simp: drop_guard_def queue_at_def fifo_mutex_def)
  show q: "queue_at mx s h = task # queue_at mx ?s h"
    using assms(3,4) by (cases "queue_at mx s h") (auto simp: owns_def s)
  show "k \<noteq> h \<Longrightarrow> queue_at mx ?s k = queue_at mx s k" by (simp add: s)
  have "distinct (task # queue_at mx ?s h)" using ok(4) [of h] q by simp
  show "locks_ok mx ?s"
  proof (rule locks_okI)
    show "distinct (queue_at mx ?s k)" for k using ok(4) [of k] ok(4) [of h] by (simp add: s distinct_tl)
    show "t \<in> set (queue_at mx ?s k) \<longleftrightarrow> (\<exists>a. guards ?s t = Some (a, k))" if "k < next_address ?s" for t k
    proof (cases "k = h")
      case True
      have "t \<in> set (queue_at mx ?s h) \<longleftrightarrow> t \<noteq> task \<and> t \<in> set (queue_at mx s h)"
        using \<open>distinct (task # queue_at mx ?s h)\<close> by (auto simp: q)
      also have "\<dots> \<longleftrightarrow> t \<noteq> task \<and> (\<exists>a. guards s t = Some (a, h))" using ok(5) [of h t] that True by (simp add: s)
      finally show ?thesis using True by (simp add: s)
    next
      case False
      with ok(5) [of k t] that assms(3) show ?thesis by (auto simp: s)
    qed
    show "bid_locks ?s a = Some k" if "guards ?s t = Some (a, k)" for t a k
      using that ok(3) [of t a k] by (auto simp: s split: if_splits)
  qed (use ok(1,2) in \<open>auto simp: s\<close>)
qed

lemma step_locks_ok: "fifo_mutex mx \<Longrightarrow> lock_step mx s e s1 \<Longrightarrow> locks_ok mx s \<Longrightarrow> locks_ok mx s1"
  by (auto elim!: lock_stepE intro: locks_ok_ask locks_ok_drop(1))

lemma reachable_locks_ok:
  assumes "lock_reachable mx s" and "fifo_mutex mx"
  shows "locks_ok mx s"
  using assms by (induction rule: lock_reachable.induct) (auto intro: locks_ok_start step_locks_ok)

section \<open>Properties\<close>

text \<open>C16: the handlers that place bids on one auction exclude each other: in every state reached by any
  interleaving, at most one task owns the lock of an auction.\<close>

theorem bids_on_an_auction_exclude_each_other:
  assumes "fifo_mutex mx" and "lock_reachable mx s" and "owns mx s t auction" and "owns mx s u auction"
  shows "t = u"
proof -
  note ok = locks_okD [OF reachable_locks_ok [OF assms(2,1)]]
  obtain h k where "guards s t = Some (auction, h)" "hd (queue_at mx s h) = t"
    and "guards s u = Some (auction, k)" "hd (queue_at mx s k) = u"
    using assms(3,4) by (auto simp: owns_def)
  moreover from this have "h = k" using ok(3) by (metis option.inject)
  ultimately show ?thesis by simp
qed

inductive lock_run :: "'m mutex \<Rightarrow> 'm lock_state \<Rightarrow> lock_event list \<Rightarrow> 'm lock_state \<Rightarrow> bool" for mx where
  stop: "lock_run mx s [] s"
| more: "lock_step mx s e s1 \<Longrightarrow> lock_run mx s1 es s2 \<Longrightarrow> lock_run mx s (e # es) s2"

inductive_cases lock_runE: "lock_run mx s es s1"

fun drops :: "string \<Rightarrow> lock_event list \<Rightarrow> nat" where
  "drops a [] = 0"
| "drops a (Asks t b # es) = drops a es"
| "drops a (Drops t b # es) = (if b = a then Suc (drops a es) else drops a es)"

text \<open>One step moves a waiting task forward exactly when its auction's lock is dropped.\<close>

lemma step_moves_queue:
  assumes "fifo_mutex mx" and "locks_ok mx s" and "lock_step mx s e s1" and "guards s t = Some (a, h)"
    and "queue_at mx s h = pre @ t # post" and "pre \<noteq> [] \<or> drops a [e] = 0"
  shows "guards s1 t = Some (a, h) \<and> (\<exists>post1. queue_at mx s1 h = drop (drops a [e]) pre @ t # post1)"
  using assms(3)
proof (cases rule: lock_step.cases)
  case (ask task auction)
  obtain k s2 where l: "lock_of mx auction s = (k, s2)" by fastforce
  note lock = locks_ok_lock_of [OF assms(1,2) l]
  have "queue_at mx s2 h = queue_at mx s h" using lock(4) locks_okD(3) [OF assms(2,4)] by blast
  with ask assms(1,4,5) l lock(3) show ?thesis
    by (auto simp: auction_bid_guard_def queue_at_def fifo_mutex_def)
next
  case (drop task auction k)
  note ok = locks_okD [OF assms(2)]
  note dropped = locks_ok_drop [OF assms(1,2) drop(3,4)]
  have same: "auction = a \<longleftrightarrow> k = h"
    using ok(2,3) drop(3) assms(4) by (metis option.inject)
  show ?thesis
  proof (cases "k = h")
    case True
    with same drop(1) assms(6) obtain u pre1 where pre: "pre = u # pre1" by (cases pre) auto
    with dropped(2) True assms(5) have u: "u = task" and rest: "queue_at mx s1 h = pre1 @ t # post" using drop(2) by auto
    have "t \<noteq> task" using ok(4) [of h] assms(5) pre u by auto
    then have "guards s1 t = Some (a, h)" using assms(4) drop(2) by (simp add: drop_guard_def)
    with rest pre True same drop(1) show ?thesis by simp
  next
    case False
    with assms(4) drop(3) have "t \<noteq> task" by auto
    then have "guards s1 t = Some (a, h)" using assms(4) drop(2) by (simp add: drop_guard_def)
    moreover have "queue_at mx s1 h = queue_at mx s h" using dropped(3) [of h] False drop(2) by simp
    ultimately show ?thesis using assms(5) False same drop(1) by simp
  qed
qed

lemma run_moves_queue:
  assumes "lock_run mx s es s1" and "fifo_mutex mx" and "locks_ok mx s" and "guards s t = Some (a, h)"
    and "queue_at mx s h = pre @ t # post" and "drops a es \<le> length pre"
  shows "guards s1 t = Some (a, h) \<and> (\<exists>post1. queue_at mx s1 h = drop (drops a es) pre @ t # post1)"
  using assms
proof (induction arbitrary: pre post rule: lock_run.induct)
  case (stop s)
  then show ?case by simp
next
  case (more s e s1 es s2)
  have split: "drops a (e # es) = drops a [e] + drops a es" by (cases e) auto
  have "pre \<noteq> [] \<or> drops a [e] = 0" using more.prems(5) split by auto
  from step_moves_queue [OF more.prems(1,2) more.hyps(1) more.prems(3,4) this]
  obtain post1 where "guards s1 t = Some (a, h)" "queue_at mx s1 h = drop (drops a [e]) pre @ t # post1" by blast
  from more.IH [OF more.prems(1) step_locks_ok [OF more.prems(1) more.hyps(1) more.prems(2)] this]
  show ?case using more.prems(5) split by (simp add: add.commute)
qed

text \<open>C34: a bid that waits gets its turn: while a task waits for the lock of an auction some task owns it and
  can drop it, and once the lock has been dropped as often as there were tasks before it the waiting task
  owns it, whatever the handlers of other auctions do in between.\<close>

theorem waiting_bids_get_their_turn:
  assumes "fifo_mutex mx" and "lock_reachable mx s" and "guards s t = Some (auction, h)"
    and "lock_run mx s es s1" and "drops auction es = length (takeWhile (\<lambda>u. u \<noteq> t) (queue_at mx s h))"
  shows "(\<exists>u. owns mx s u auction) \<and> owns mx s1 t auction"
proof -
  let ?pre = "takeWhile (\<lambda>u. u \<noteq> t) (queue_at mx s h)"
  note inv = reachable_locks_ok [OF assms(2,1)]
  note ok = locks_okD [OF inv]
  have h: "h < next_address s" using ok(1,3) assms(3) by blast
  then have "t \<in> set (queue_at mx s h)" using ok(5) assms(3) by blast
  then obtain pre post where q0: "queue_at mx s h = pre @ t # post" "t \<notin> set pre" using split_list_first [of t] by blast
  then have "\<And>u. u \<in> set pre \<Longrightarrow> u \<noteq> t" by auto
  then have "?pre = pre" by (simp add: q0(1) takeWhile_append2)
  with q0 have q: "queue_at mx s h = ?pre @ t # post" by simp
  from run_moves_queue [OF assms(4,1) inv assms(3) q] assms(5)
  have "guards s1 t = Some (auction, h)" "\<exists>post1. queue_at mx s1 h = t # post1" by auto
  moreover obtain u us where u: "queue_at mx s h = u # us" using q by (cases "queue_at mx s h") auto
  then obtain a where "guards s u = Some (a, h)" using ok(5) [OF h, of u] by auto
  moreover from this have "a = auction" using ok(2,3) assms(3) by blast
  ultimately show ?thesis using u by (auto intro: ownsI)
qed

text \<open>A queue of tasks is such a mutex.\<close>

definition queue_mutex :: "nat list mutex" where
  "queue_mutex = \<lparr>mx_new = [], mx_lock = (\<lambda>t m. m @ [t]), mx_unlock = tl, mx_queue = id\<rparr>"

lemma queue_mutex_fifo: "fifo_mutex queue_mutex"
  by (simp add: fifo_mutex_def queue_mutex_def)

text \<open>Tasks 1 and 2 ask for the same auction, task 3 for another.\<close>

definition sample_asks :: "nat list lock_state" where
  "sample_asks = auction_bid_guard queue_mutex 3 ''b'' (auction_bid_guard queue_mutex 2 ''a''
     (auction_bid_guard queue_mutex 1 ''a'' (no_locks queue_mutex)))"

lemma sample_asks_state:
  "guards sample_asks = [1 \<mapsto> (''a'', 0), 2 \<mapsto> (''a'', 0), 3 \<mapsto> (''b'', 1)]" "queue_at queue_mutex sample_asks 0 = [1, 2]"
  by (simp_all add: sample_asks_def auction_bid_guard_def lock_of_def no_locks_def queue_mutex_def queue_at_def fun_eq_iff)

lemma sample_asks_reachable: "lock_reachable queue_mutex sample_asks"
  unfolding sample_asks_def
  by (intro lock_reachable.step [OF _ lock_step.ask] lock_reachable.start)
    (simp_all add: auction_bid_guard_def lock_of_def no_locks_def queue_mutex_def)

lemma sample_owner: "owns queue_mutex sample_asks 1 ''a''"
  by (rule ownsI [of _ _ _ 0 _ "[2]"]) (simp_all add: sample_asks_state)

theorem bids_on_an_auction_exclude_each_other_witness: "{t. owns queue_mutex sample_asks t ''a''} = {1}"
  using bids_on_an_auction_exclude_each_other [OF queue_mutex_fifo sample_asks_reachable _ sample_owner] sample_owner by blast

theorem waiting_bids_get_their_turn_witness:
  "owns queue_mutex (drop_guard queue_mutex 1 0 sample_asks) 2 ''a''"
proof -
  have "lock_step queue_mutex sample_asks (Drops 1 ''a'') (drop_guard queue_mutex 1 0 sample_asks)"
    by (rule lock_step.drop) (simp_all add: sample_asks_state sample_owner [simplified])
  then have "lock_run queue_mutex sample_asks [Drops 1 ''a''] (drop_guard queue_mutex 1 0 sample_asks)"
    by (rule lock_run.more [OF _ lock_run.stop])
  with waiting_bids_get_their_turn [OF queue_mutex_fifo sample_asks_reachable, of 2 "''a''" 0]
  show ?thesis by (simp add: sample_asks_state)
qed

end
