(* ===== verification/Rows.thy ===== *)
theory Rows
  imports Models
begin

text \<open>
  The decoding of rows in \<^verbatim>\<open>persistence/models.rs\<close> (\<^verbatim>\<open>FromRow\<close>). A row is what the sources use of
  \<^verbatim>\<open>sqlx::AnyRow\<close>: \<^verbatim>\<open>try_get\<close> at the three types the records need, each a function of the column's name
  that answers a value or an error. An error is the decoding error of a column, with the text of its
  source, or any other.
\<close>

datatype sqlx_error = ColumnDecode string | OtherSqlxError string

record any_row =
  get_string :: "string \<Rightarrow> sqlx_error + string"
  get_i64 :: "string \<Rightarrow> sqlx_error + i64"
  get_bool :: "string \<Rightarrow> sqlx_error + bool"

text \<open>\<^verbatim>\<open>?\<close>, \<^verbatim>\<open>or_else\<close>.\<close>

definition decoded :: "'e + 'a \<Rightarrow> ('a \<Rightarrow> 'e + 'b) \<Rightarrow> 'e + 'b" where
  "decoded r f = (case r of Inl e \<Rightarrow> Inl e | Inr a \<Rightarrow> f a)"

definition or_else :: "'e + 'a \<Rightarrow> 'e + 'a \<Rightarrow> 'e + 'a" where
  "or_else r other = (case r of Inl _ \<Rightarrow> other | Inr a \<Rightarrow> Inr a)"

text \<open>The error that stands for \<^verbatim>\<open>NULL\<close>.\<close>

definition is_null_error :: "sqlx_error \<Rightarrow> bool" where
  "is_null_error e = (case e of ColumnDecode source \<Rightarrow> str_contains ''SQL type `NULL`'' source | OtherSqlxError _ \<Rightarrow> False)"

definition optional_i64 :: "any_row \<Rightarrow> string \<Rightarrow> sqlx_error + i64 option" where
  "optional_i64 row column = (case get_i64 row column of
       Inr v \<Rightarrow> Inr (Some v)
     | Inl e \<Rightarrow> if is_null_error e then Inr None else Inl e)"

definition optional_string :: "any_row \<Rightarrow> string \<Rightarrow> sqlx_error + string option" where
  "optional_string row column = (case get_string row column of
       Inr v \<Rightarrow> Inr (Some v)
     | Inl e \<Rightarrow> if is_null_error e then Inr None else Inl e)"

definition bool_from_row :: "any_row \<Rightarrow> string \<Rightarrow> sqlx_error + bool" where
  "bool_from_row row column = (case get_bool row column of
       Inr v \<Rightarrow> Inr v
     | Inl _ \<Rightarrow> decoded (get_i64 row column) (\<lambda>v. Inr (v \<noteq> 0)))"

definition listing_from_row :: "any_row \<Rightarrow> sqlx_error + listing_record" where
  "listing_from_row row =
     decoded (get_string row ''id'') (\<lambda>i.
     let listing_id = (case get_string row ''listing_id'' of Inr l \<Rightarrow> l | Inl _ \<Rightarrow> i) in
     decoded (or_else (get_string row ''status'') (get_string row ''lifecycle_state'')) (\<lambda>status.
     decoded (get_string row ''seller_id'') (\<lambda>seller_id.
     decoded (get_string row ''auction_type'') (\<lambda>auction_type.
     decoded (get_i64 row ''starting_price_cents'') (\<lambda>starting.
     decoded (get_i64 row ''reserve_price_cents'') (\<lambda>reserve.
     decoded (optional_i64 row ''current_highest_bid_cents'') (\<lambda>highest.
     decoded (get_i64 row ''minimum_increment_cents'') (\<lambda>increment.
     decoded (get_i64 row ''start_time'') (\<lambda>start_time.
     decoded (get_i64 row ''end_time'') (\<lambda>end_time.
     decoded (get_i64 row ''created_at'') (\<lambda>created_at.
     decoded (get_i64 row ''updated_at'') (\<lambda>updated_at.
     Inr \<lparr>lr_id = i, lr_listing_id = listing_id, lr_seller_id = seller_id, lr_auction_type = auction_type,
          lr_starting_price_cents = starting, lr_reserve_price_cents = reserve,
          lr_current_highest_bid_cents = highest, lr_minimum_increment_cents = increment, lr_status = status,
          lr_start_time = start_time, lr_end_time = end_time, lr_created_at = created_at,
          lr_updated_at = updated_at\<rparr>))))))))))))"

definition bid_from_row :: "any_row \<Rightarrow> sqlx_error + bid_record" where
  "bid_from_row row =
     decoded (or_else (get_string row ''auction_id'') (get_string row ''listing_id'')) (\<lambda>auction_id.
     decoded (get_string row ''id'') (\<lambda>i.
     decoded (get_string row ''bidder_id'') (\<lambda>bidder_id.
     decoded (get_i64 row ''bid_amount_cents'') (\<lambda>amount.
     decoded (get_i64 row ''bid_time'') (\<lambda>bid_time.
     decoded (optional_string row ''wallet_hold_id'') (\<lambda>hold.
     Inr \<lparr>br_id = i, br_auction_id = auction_id, br_bidder_id = bidder_id, br_bid_amount_cents = amount,
          br_bid_time = bid_time, br_wallet_hold_id = hold\<rparr>))))))"

definition outbox_event_from_row :: "any_row \<Rightarrow> sqlx_error + outbox_event_record" where
  "outbox_event_from_row row =
     decoded (get_string row ''id'') (\<lambda>i.
     decoded (get_string row ''aggregate_id'') (\<lambda>aggregate_id.
     decoded (get_string row ''event_type'') (\<lambda>event_type.
     decoded (get_string row ''payload'') (\<lambda>payload.
     decoded (bool_from_row row ''published'') (\<lambda>published.
     decoded (optional_i64 row ''published_at'') (\<lambda>published_at.
     decoded (get_i64 row ''created_at'') (\<lambda>created_at.
     decoded (get_i64 row ''updated_at'') (\<lambda>updated_at.
     Inr \<lparr>oe_id = i, oe_aggregate_id = aggregate_id, oe_event_type = event_type, oe_payload = payload,
          oe_published = published, oe_published_at = published_at, oe_created_at = created_at,
          oe_updated_at = updated_at\<rparr>))))))))"

definition proxy_bid_from_row :: "any_row \<Rightarrow> sqlx_error + proxy_bid_record" where
  "proxy_bid_from_row row =
     decoded (or_else (get_string row ''auction_id'') (get_string row ''listing_id'')) (\<lambda>auction_id.
     decoded (get_string row ''bidder_id'') (\<lambda>bidder_id.
     decoded (get_i64 row ''max_bid_amount_cents'') (\<lambda>max_amount.
     decoded (get_i64 row ''created_at'') (\<lambda>created_at.
     decoded (get_i64 row ''updated_at'') (\<lambda>updated_at.
     Inr \<lparr>pr_auction_id = auction_id, pr_bidder_id = bidder_id, pr_max_bid_amount_cents = max_amount,
          pr_created_at = created_at, pr_updated_at = updated_at\<rparr>)))))"

definition closure_job_from_row :: "any_row \<Rightarrow> sqlx_error + closure_job_record" where
  "closure_job_from_row row =
     decoded (get_string row ''auction_id'') (\<lambda>auction_id.
     decoded (get_i64 row ''due_at'') (\<lambda>due_at.
     decoded (get_string row ''status'') (\<lambda>status.
     decoded (get_i64 row ''attempts'') (\<lambda>attempts.
     decoded (optional_i64 row ''locked_until'') (\<lambda>locked_until.
     decoded (optional_string row ''locked_by'') (\<lambda>locked_by.
     decoded (optional_string row ''last_error'') (\<lambda>last_error.
     decoded (get_i64 row ''created_at'') (\<lambda>created_at.
     decoded (get_i64 row ''updated_at'') (\<lambda>updated_at.
     Inr \<lparr>job_auction_id = auction_id, job_due_at = due_at, job_status = status, job_attempts = attempts,
          job_locked_until = locked_until, job_locked_by = locked_by, job_last_error = last_error,
          job_created_at = created_at, job_updated_at = updated_at\<rparr>)))))))))"

section \<open>What a row of the statements decodes to\<close>

datatype sql_value = SqlNull | SqlInt i64 | SqlText string

definition sql_optional :: "('a \<Rightarrow> sql_value) \<Rightarrow> 'a option \<Rightarrow> sql_value" where
  "sql_optional f v = (case v of None \<Rightarrow> SqlNull | Some a \<Rightarrow> f a)"

text \<open>What is used of sqlx: text reads as a string and an integer as an \<^verbatim>\<open>i64\<close>, an integer as a
  boolean, if at all, by its being non-zero, \<^verbatim>\<open>NULL\<close> as a decoding error that names it, a column that is not there not at all.\<close>

definition row_shows :: "(string \<Rightarrow> sql_value option) \<Rightarrow> any_row \<Rightarrow> bool" where
  "row_shows columns row \<longleftrightarrow>
     (\<forall>c v. columns c = Some (SqlText v) \<longrightarrow> get_string row c = Inr v)
     \<and> (\<forall>c n. columns c = Some (SqlInt n) \<longrightarrow> get_i64 row c = Inr n \<and> (isl (get_bool row c) \<or> get_bool row c = Inr (n \<noteq> 0)))
     \<and> (\<forall>c. columns c = Some SqlNull \<longrightarrow>
          (\<exists>e. get_i64 row c = Inl e \<and> is_null_error e) \<and> (\<exists>e. get_string row c = Inl e \<and> is_null_error e))
     \<and> (\<forall>c. columns c = None \<longrightarrow> isl (get_string row c) \<and> isl (get_i64 row c) \<and> isl (get_bool row c))"

text \<open>The columns of the statements that return each kind of record.\<close>

definition listing_columns :: "string \<Rightarrow> listing_record \<Rightarrow> string \<Rightarrow> sql_value option" where
  "listing_columns state_column r = map_of
     [(''id'', SqlText (lr_id r)), (''listing_id'', SqlText (lr_listing_id r)), (''seller_id'', SqlText (lr_seller_id r)),
      (''auction_type'', SqlText (lr_auction_type r)), (''starting_price_cents'', SqlInt (lr_starting_price_cents r)),
      (''reserve_price_cents'', SqlInt (lr_reserve_price_cents r)),
      (''current_highest_bid_cents'', sql_optional SqlInt (lr_current_highest_bid_cents r)),
      (''minimum_increment_cents'', SqlInt (lr_minimum_increment_cents r)), (state_column, SqlText (lr_status r)),
      (''start_time'', SqlInt (lr_start_time r)), (''end_time'', SqlInt (lr_end_time r)),
      (''created_at'', SqlInt (lr_created_at r)), (''updated_at'', SqlInt (lr_updated_at r))]"

definition bid_columns :: "bid_record \<Rightarrow> string \<Rightarrow> sql_value option" where
  "bid_columns b = map_of
     [(''id'', SqlText (br_id b)), (''auction_id'', SqlText (br_auction_id b)), (''bidder_id'', SqlText (br_bidder_id b)),
      (''bid_amount_cents'', SqlInt (br_bid_amount_cents b)), (''bid_time'', SqlInt (br_bid_time b)),
      (''wallet_hold_id'', sql_optional SqlText (br_wallet_hold_id b))]"

definition proxy_bid_columns :: "proxy_bid_record \<Rightarrow> string \<Rightarrow> sql_value option" where
  "proxy_bid_columns p = map_of
     [(''auction_id'', SqlText (pr_auction_id p)), (''bidder_id'', SqlText (pr_bidder_id p)),
      (''max_bid_amount_cents'', SqlInt (pr_max_bid_amount_cents p)), (''created_at'', SqlInt (pr_created_at p)),
      (''updated_at'', SqlInt (pr_updated_at p))]"

definition outbox_event_columns :: "outbox_event_record \<Rightarrow> string \<Rightarrow> sql_value option" where
  "outbox_event_columns e = map_of
     [(''id'', SqlText (oe_id e)), (''aggregate_id'', SqlText (oe_aggregate_id e)), (''event_type'', SqlText (oe_event_type e)),
      (''payload'', SqlText (oe_payload e)), (''published'', SqlInt (if oe_published e then 1 else 0)),
      (''published_at'', sql_optional SqlInt (oe_published_at e)), (''created_at'', SqlInt (oe_created_at e)),
      (''updated_at'', SqlInt (oe_updated_at e))]"

definition closure_job_columns :: "closure_job_record \<Rightarrow> string \<Rightarrow> sql_value option" where
  "closure_job_columns j = map_of
     [(''auction_id'', SqlText (job_auction_id j)), (''due_at'', SqlInt (job_due_at j)), (''status'', SqlText (job_status j)),
      (''attempts'', SqlInt (job_attempts j)), (''locked_until'', sql_optional SqlInt (job_locked_until j)),
      (''locked_by'', sql_optional SqlText (job_locked_by j)), (''last_error'', sql_optional SqlText (job_last_error j)),
      (''created_at'', SqlInt (job_created_at j)), (''updated_at'', SqlInt (job_updated_at j))]"

lemma decoded_simps [simp]: "decoded (Inr a) f = f a" "decoded (Inl e) f = Inl e"
  by (simp_all add: decoded_def)

lemma row_shows_text: "row_shows columns row \<Longrightarrow> columns c = Some (SqlText v) \<Longrightarrow> get_string row c = Inr v"
  by (simp add: row_shows_def)

lemma row_shows_int: "row_shows columns row \<Longrightarrow> columns c = Some (SqlInt n) \<Longrightarrow> get_i64 row c = Inr n"
  by (simp add: row_shows_def)

lemma row_shows_missing: "row_shows columns row \<Longrightarrow> columns c = None \<Longrightarrow> \<exists>e. get_string row c = Inl e"
  by (auto simp: row_shows_def isl_def)

lemma row_shows_optional_int:
  "row_shows columns row \<Longrightarrow> columns c = Some (sql_optional SqlInt v) \<Longrightarrow> optional_i64 row c = Inr v"
  by (cases v) (fastforce simp: row_shows_def optional_i64_def sql_optional_def)+

lemma row_shows_optional_text:
  "row_shows columns row \<Longrightarrow> columns c = Some (sql_optional SqlText v) \<Longrightarrow> optional_string row c = Inr v"
  by (cases v) (fastforce simp: row_shows_def optional_string_def sql_optional_def)+

lemma row_shows_bool:
  assumes "row_shows columns row" and "columns c = Some (SqlInt n)"
  shows "bool_from_row row c = Inr (n \<noteq> 0)"
proof -
  have "get_i64 row c = Inr n" "isl (get_bool row c) \<or> get_bool row c = Inr (n \<noteq> 0)"
    using assms unfolding row_shows_def by blast+
  then show ?thesis by (auto simp: bool_from_row_def isl_def)
qed

lemmas row_shows_simps = row_shows_text row_shows_int row_shows_optional_int row_shows_optional_text row_shows_bool

lemma listing_roundtrip:
  assumes "row_shows (listing_columns state_column r) row" and "state_column = ''status'' \<or> state_column = ''lifecycle_state''"
  shows "listing_from_row row = Inr r"
  using assms(2) row_shows_missing [OF assms(1), of "''status''"]
  by (auto simp: listing_from_row_def or_else_def row_shows_simps [OF assms(1)] listing_columns_def Let_def)

lemma bid_roundtrip: "row_shows (bid_columns b) row \<Longrightarrow> bid_from_row row = Inr b"
  by (simp add: bid_from_row_def or_else_def row_shows_simps [of "bid_columns b"] bid_columns_def)

lemma proxy_bid_roundtrip: "row_shows (proxy_bid_columns p) row \<Longrightarrow> proxy_bid_from_row row = Inr p"
  by (simp add: proxy_bid_from_row_def or_else_def row_shows_simps [of "proxy_bid_columns p"] proxy_bid_columns_def)

lemma outbox_event_roundtrip: "row_shows (outbox_event_columns e) row \<Longrightarrow> outbox_event_from_row row = Inr e"
  by (simp add: outbox_event_from_row_def row_shows_simps [of "outbox_event_columns e"] outbox_event_columns_def)

lemma closure_job_roundtrip: "row_shows (closure_job_columns j) row \<Longrightarrow> closure_job_from_row row = Inr j"
  by (simp add: closure_job_from_row_def row_shows_simps [of "closure_job_columns j"] closure_job_columns_def)

text \<open>C38: what the statements return is decoded without loss: a row that shows the columns of a record,
  with \<^verbatim>\<open>NULL\<close> for an absent value, a flag as 0 or 1, and the state of a listing under either of its two
  names, decodes to exactly that record, for all five tables.\<close>

theorem rows_decode_to_their_records:
  assumes "row_shows (listing_columns ''status'' l) listing_row \<or> row_shows (listing_columns ''lifecycle_state'' l) listing_row"
    and "row_shows (bid_columns b) bid_row" and "row_shows (proxy_bid_columns p) proxy_row"
    and "row_shows (outbox_event_columns e) event_row" and "row_shows (closure_job_columns j) job_row"
  shows "listing_from_row listing_row = Inr l \<and> bid_from_row bid_row = Inr b \<and> proxy_bid_from_row proxy_row = Inr p
    \<and> outbox_event_from_row event_row = Inr e \<and> closure_job_from_row job_row = Inr j"
  using assms listing_roundtrip bid_roundtrip proxy_bid_roundtrip outbox_event_roundtrip closure_job_roundtrip by blast

text \<open>A row that shows given columns.\<close>

definition row_of :: "(string \<Rightarrow> sql_value option) \<Rightarrow> any_row" where
  "row_of columns =
     (let null = ColumnDecode ''unexpected null; SQL type `NULL`''; other = OtherSqlxError ''no such value'' in
     \<lparr>get_string = (\<lambda>c. case columns c of Some (SqlText v) \<Rightarrow> Inr v | Some SqlNull \<Rightarrow> Inl null | _ \<Rightarrow> Inl other),
      get_i64 = (\<lambda>c. case columns c of Some (SqlInt n) \<Rightarrow> Inr n | Some SqlNull \<Rightarrow> Inl null | _ \<Rightarrow> Inl other),
      get_bool = (\<lambda>_. Inl other)\<rparr>)"

lemma row_shows_row_of: "row_shows columns (row_of columns)"
  by (auto simp: row_shows_def row_of_def Let_def is_null_error_def)

definition sample_listing_row :: listing_record where
  "sample_listing_row = \<lparr>lr_id = ''a1'', lr_listing_id = ''l1'', lr_seller_id = ''s'', lr_auction_type = ''ENGLISH'',
     lr_starting_price_cents = 1000, lr_reserve_price_cents = 2000, lr_current_highest_bid_cents = None,
     lr_minimum_increment_cents = 100, lr_status = ''ACTIVE'', lr_start_time = 0, lr_end_time = 100, lr_created_at = 0,
     lr_updated_at = 0\<rparr>"

definition sample_bid_row :: bid_record where
  "sample_bid_row = \<lparr>br_id = ''b1'', br_auction_id = ''a1'', br_bidder_id = ''u'', br_bid_amount_cents = 1000,
     br_bid_time = 1, br_wallet_hold_id = Some ''h1''\<rparr>"

definition sample_proxy_row :: proxy_bid_record where
  "sample_proxy_row = \<lparr>pr_auction_id = ''a1'', pr_bidder_id = ''u'', pr_max_bid_amount_cents = 3000,
     pr_created_at = 0, pr_updated_at = 0\<rparr>"

definition sample_event_row :: outbox_event_record where
  "sample_event_row = \<lparr>oe_id = ''e1'', oe_aggregate_id = ''a1'', oe_event_type = ''BidPlaced'', oe_payload = ''{}'',
     oe_published = True, oe_published_at = Some 5, oe_created_at = 0, oe_updated_at = 5\<rparr>"

definition sample_job_row :: closure_job_record where
  "sample_job_row = \<lparr>job_auction_id = ''a1'', job_due_at = 100, job_status = ''PENDING'', job_attempts = 0,
     job_locked_until = None, job_locked_by = None, job_last_error = None, job_created_at = 0, job_updated_at = 0\<rparr>"

theorem rows_decode_to_their_records_witness:
  "listing_from_row (row_of (listing_columns ''lifecycle_state'' sample_listing_row)) = Inr sample_listing_row
    \<and> closure_job_from_row (row_of (closure_job_columns sample_job_row)) = Inr sample_job_row"
  using rows_decode_to_their_records [OF disjI2 [OF row_shows_row_of] row_shows_row_of row_shows_row_of row_shows_row_of
      row_shows_row_of, of sample_listing_row sample_bid_row sample_proxy_row sample_event_row sample_job_row]
  by blast

end
