(* ===== verification/QueueRounds.thy ===== *)
theory QueueRounds
  imports Settlement Lifecycle CreateFacts
begin

text \<open>
  One round of \<^verbatim>\<open>process_one_pending_closure\<close> on the closure queue: with a database that answers it takes one
  job out of the way, whatever the wallet does.
\<close>

section \<open>Time passes\<close>

definition ticking :: "world \<Rightarrow> world \<Rightarrow> bool" where
  "ticking w w1 \<longleftrightarrow> tick w \<le> tick w1"

interpretation ticking: wallet_relation ticking
  by unfold_locales (auto simp: ticking_def)

lemma ticking_stmt [keeps_intros]: "keeps ticking (run_stmt env q)"
  by (rule ticking.keeps_run_stmt) (simp add: ticking_def)

lemma ticking_settle [keeps_intros]: "keeps ticking (settle env a bs now)"
proof -
  have "keeps ticking (release_holds wallet bs)" for wallet by (induction bs) (auto intro!: keeps_intros)
  then show ?thesis
    unfolding settle_def execute_post_closure_side_effects_def by (intro keeps_intros)
qed

section \<open>The queue\<close>

text \<open>The jobs that are worked off before time \<open>d\<close>, and the auctions that will get such a job.\<close>

definition waiting_job :: "i64 \<Rightarrow> closure_job_record \<Rightarrow> bool" where
  "waiting_job d j \<longleftrightarrow> job_status j \<in> {''PENDING'', ''SETTLING''} \<and> job_due_at j \<le> d"

definition lacks_job :: "i64 \<Rightarrow> store \<Rightarrow> listing_record \<Rightarrow> bool" where
  "lacks_job d s r \<longleftrightarrow> awaits_closure d r \<and> lr_id r \<notin> job_auction_id ` set (closure_jobs s)"

definition queue_before :: "i64 \<Rightarrow> store \<Rightarrow> nat" where
  "queue_before d s = length (filter (waiting_job d) (closure_jobs s)) + length (filter (lacks_job d s) (listings s))"

text \<open>Jobs that wait are not locked, and the two identifiers of a listing agree, as \<^verbatim>\<open>create_auction\<close>
  stores them.\<close>

definition queue_ok :: "store \<Rightarrow> bool" where
  "queue_ok s \<longleftrightarrow> store_ok s \<and> (\<forall>r \<in> set (listings s). lr_listing_id r = lr_id r)
     \<and> (\<forall>j \<in> set (closure_jobs s). job_status j \<in> {''PENDING'', ''SETTLING''} \<longrightarrow> job_locked_until j = None)"

text \<open>The auction \<open>i\<close> is past its end and undecided, and its job, if it has one, waits.\<close>

definition in_queue :: "string \<Rightarrow> i64 \<Rightarrow> store \<Rightarrow> bool" where
  "in_queue i d s \<longleftrightarrow> (\<exists>a \<in> set (listings s). lr_id a = i \<and> awaits_closure d a)
     \<and> (\<forall>j \<in> set (closure_jobs s). job_auction_id j = i \<longrightarrow> job_status j = ''PENDING'' \<and> job_due_at j \<le> d)"

definition decided_in :: "string \<Rightarrow> store \<Rightarrow> bool" where
  "decided_in i s \<longleftrightarrow> (\<exists>r \<in> set (listings s). lr_id r = i \<and> lr_status r \<in> {''WON'', ''UNSOLD''})"

lemma found_for_update:
  assumes "queue_ok s" and "r \<in> set (listings s)"
  shows "find_by_id_for_update (lr_id r) s = Some r"
proof -
  have "find (\<lambda>x. lr_id x = lr_id r \<or> lr_listing_id x = lr_id r) (listings s) = find (\<lambda>x. lr_id x = lr_id r) (listings s)"
    using assms(1) by (intro find_cong) (auto simp: queue_ok_def)
  then show ?thesis
    using assms find_distinct_key [of lr_id "listings s" r]
    by (simp add: find_by_id_for_update_def queue_ok_def store_ok_def keys_ok_def)
qed

lemma job_has_listing:
  assumes "queue_ok s" and "j \<in> set (closure_jobs s)"
  obtains r where "r \<in> set (listings s)" "lr_id r = job_auction_id j"
  using assms by (auto simp: queue_ok_def store_ok_def refs_ok_def listing_ids_def image_subset_iff)

section \<open>One round\<close>

lemma update_where_twice:
  "(\<And>r. P (f r) = P r) \<Longrightarrow> update_where P g (update_where P f rows) = update_where P (\<lambda>r. g (f r)) rows"
  by (induction rows) auto

text \<open>What a round does to the job of the auction \<open>k\<close> and to its row: the job leaves the queue or waits
  for a time after \<open>now\<close>, and the row is decided unless there is nothing to decide yet.\<close>

definition off_queue :: "i64 \<Rightarrow> (closure_job_record \<Rightarrow> closure_job_record) \<Rightarrow> bool" where
  "off_queue now f \<longleftrightarrow> (\<forall>j. job_auction_id (f j) = job_auction_id j
     \<and> (job_status (f j) \<in> {''PENDING'', ''SETTLING''} \<longrightarrow> job_locked_until (f j) = None \<and> now < job_due_at (f j)))"

definition round_done :: "string \<Rightarrow> i64 \<Rightarrow> store \<Rightarrow> store \<Rightarrow> bool" where
  "round_done k now s s1 \<longleftrightarrow>
     (\<exists>f. off_queue now f \<and> closure_jobs s1 = update_where (\<lambda>j. job_auction_id j = k) f (closure_jobs s))
     \<and> (listings s1 = listings s \<and> (\<forall>r \<in> set (listings s). lr_id r = k \<longrightarrow> \<not> awaits_closure now r)
        \<or> (\<exists>st h. st \<in> {''WON'', ''UNSOLD''} \<and> listings s1 = update_where (\<lambda>r. lr_id r = k)
              (\<lambda>r. r\<lparr>lr_status := st, lr_current_highest_bid_cents := h, lr_updated_at := now\<rparr>) (listings s)))"

text \<open>No identifier the environment has still to give is taken by an event.\<close>

definition fresh_ids :: "env set \<Rightarrow> world \<Rightarrow> bool" where
  "fresh_ids envs w \<longleftrightarrow> (\<forall>e \<in> envs. \<forall>n. tick w \<le> n \<longrightarrow> env_uuid e n \<notin> oe_id ` set (outbox_events (db w)))"

definition new_events :: "env \<Rightarrow> world \<Rightarrow> world \<Rightarrow> bool" where
  "new_events env w w1 \<longleftrightarrow> tick w \<le> tick w1
     \<and> oe_id ` set (outbox_events (db w1)) \<subseteq> oe_id ` set (outbox_events (db w)) \<union> env_uuid env ` {tick w..<tick w1}"

lemma wp_execute_faultless:
  assumes "\<And>n. env_db_fault env n = None" and "b \<in> set (listings s)"
    and "\<And>n. tick w \<le> n \<Longrightarrow> env_uuid env n \<notin> oe_id ` set (outbox_events s)"
  shows "wp (execute_auction_closure env b s now)
     (\<lambda>r w1. db w1 = db w \<and> lr_id (fst (fst r)) = lr_id b
        \<and> listings (snd r) = update_where (\<lambda>r. lr_id r = lr_id b) (\<lambda>r. r\<lparr>lr_status := fst (closing_decision b s),
              lr_current_highest_bid_cents := snd (closing_decision b s), lr_updated_at := now\<rparr>) (listings s)
        \<and> closure_jobs (snd r) = closure_jobs s \<and> tick w \<le> tick w1
        \<and> oe_id ` set (outbox_events (snd r)) \<subseteq> oe_id ` set (outbox_events s) \<union> env_uuid env ` {tick w..<tick w1})
     (\<lambda>_ _. False) w"
proof -
  obtain x where x: "find (\<lambda>r. lr_id r = lr_id b) (listings s) = Some x"
    using assms(2) by (metis (mono_tags) find_None_iff option.exhaust)
  then have "lr_id x = lr_id b" by (auto dest: find_SomeD)
  with x assms(1,3) show ?thesis
    by (auto simp: execute_auction_closure_def publish_auction_ended_event_with_tx_def closure_workflow_for_auction_def
        determine_closure_decision wp_simps sql_query_def Let_def update_lifecycle_status_def listing_update_def
        fetch_one_def outbox_insert_def has_key_iff new_outbox_event_def outbox_event_record.defs)
qed

text \<open>A settlement, granted or refused, takes the job off the queue.\<close>

definition job_taken :: "string \<Rightarrow> i64 \<Rightarrow> store \<Rightarrow> world \<Rightarrow> world \<Rightarrow> bool" where
  "job_taken k now s w w1 \<longleftrightarrow> (\<exists>f. off_queue now f
       \<and> closure_jobs (db w1) = update_where (\<lambda>j. job_auction_id j = k) f (closure_jobs s))
     \<and> listings (db w1) = listings s \<and> outbox_events (db w1) = outbox_events s \<and> tick w \<le> tick w1"

lemma job_takenI:
  assumes "off_queue now f" and "closure_jobs (db w1) = update_where (\<lambda>j. job_auction_id j = k) f (closure_jobs s)"
    and "listings (db w1) = listings s" and "outbox_events (db w1) = outbox_events s" and "tick w \<le> tick w1"
  shows "job_taken k now s w w1"
  using assms unfolding job_taken_def by blast

lemma wp_settle_faultless:
  assumes "\<And>n. env_db_fault env n = None" and "now < i64_add now 30"
  shows "wp (settle env a bs now) (\<lambda>_. job_taken (lr_id a) now (db w) w) (\<lambda>_. job_taken (lr_id a) now (db w) w) w"
proof -
  let ?m = "execute_post_closure_side_effects env a bs"
  have same: "wp ?m (\<lambda>_ w1. db w1 = db w) (\<lambda>_ w1. db w1 = db w) w"
    by (rule wp_mono [OF wp_side_effects]) auto
  have "keeps ticking (release_holds wallet bs)" for wallet by (induction bs) (auto intro!: keeps_intros)
  then have "keeps ticking ?m" unfolding execute_post_closure_side_effects_def by (intro keeps_intros)
  then have "wp ?m (\<lambda>_. ticking w) (\<lambda>_. ticking w) w" by (simp add: keeps_iff_wp)
  from wp_conj [OF same this] have
    both: "wp ?m (\<lambda>_ w1. db w1 = db w \<and> tick w \<le> tick w1) (\<lambda>_ w1. db w1 = db w \<and> tick w \<le> tick w1) w"
    by (simp add: ticking_def)
  show ?thesis
    unfolding settle_def wp_bindS wp_attempt
    apply (rule wp_mono [OF both])
     apply (simp add: wp_simps assms(1) mark_done_def job_update_def)
     apply (rule job_takenI, simp_all add: off_queue_def)
    apply (simp add: wp_simps assms(1) mark_settlement_failed_def job_update_def)
    apply (rule job_takenI [where f = "fail_job ''SETTLING'' now (i64_add now 30) e" for e], simp_all add: off_queue_def fail_job_def assms(2))
    done
qed

lemma upsert_existing: "key row \<in> key ` set rows \<Longrightarrow>
    upsert key merge row rows = update_where (\<lambda>r. key r = key row) (\<lambda>old. merge old row) rows"
  by (simp add: upsert_def has_key_iff)

lemma job_row_id [simp]: "job_auction_id (job_row i due st now) = i"
  by (simp add: job_row_def)

lemma merged_id [simp]: "job_auction_id (merge_pending old new) = job_auction_id old"
    "job_auction_id (merge_settling old new) = job_auction_id old"
  by (simp_all add: merge_pending_def merge_settling_def)

lemma off_queue_after: "off_queue now f \<Longrightarrow> (\<And>j. job_auction_id (g j) = job_auction_id j) \<Longrightarrow> off_queue now (\<lambda>j. f (g j))"
  by (simp add: off_queue_def)

lemma off_queue_done: "off_queue now (\<lambda>j. j\<lparr>job_status := ''DONE'', job_locked_until := l, job_locked_by := b,
    job_last_error := e, job_updated_at := u\<rparr>)"
  by (simp add: off_queue_def)

lemma off_queue_rescheduled: "now < due \<Longrightarrow> off_queue now (\<lambda>j. merge_pending j (job_row i due ''PENDING'' now))"
  by (simp add: off_queue_def merge_pending_def job_row_def)

definition round_end :: "env \<Rightarrow> string \<Rightarrow> i64 \<Rightarrow> world \<Rightarrow> world \<Rightarrow> bool" where
  "round_end env k now w w1 \<longleftrightarrow> round_done k now (db w) (db w1) \<and> new_events env w w1"

lemma round_end_skipped:
  assumes "off_queue now f" and "closure_jobs (db w1) = update_where (\<lambda>j. job_auction_id j = k) f (closure_jobs (db w))"
    and "listings (db w1) = listings (db w)" and "outbox_events (db w1) = outbox_events (db w)" and "tick w \<le> tick w1"
    and "\<And>r. r \<in> set (listings (db w)) \<Longrightarrow> lr_id r = k \<Longrightarrow> \<not> awaits_closure now r"
  shows "round_end env k now w w1"
  unfolding round_end_def round_done_def new_events_def
  using assms(1,2) by (simp add: assms(3-6)) blast

text \<open>The tables after the transaction of a closure of \<open>b\<close> that ran from tick \<open>m\<close> to tick \<open>n\<close>.\<close>

definition committed :: "env \<Rightarrow> listing_record \<Rightarrow> i64 \<Rightarrow> store \<Rightarrow> nat \<Rightarrow> nat \<Rightarrow> store \<Rightarrow> bool" where
  "committed env b now s0 m n s \<longleftrightarrow>
     listings s = update_where (\<lambda>r. lr_id r = lr_id b) (\<lambda>r. r\<lparr>lr_status := fst (closing_decision b s0),
       lr_current_highest_bid_cents := snd (closing_decision b s0), lr_updated_at := now\<rparr>) (listings s0)
     \<and> closure_jobs s = closure_jobs s0
     \<and> oe_id ` set (outbox_events s) \<subseteq> oe_id ` set (outbox_events s0) \<union> env_uuid env ` {m..<n}"

definition settling_store :: "string \<Rightarrow> i64 \<Rightarrow> store \<Rightarrow> store" where
  "settling_store k now s = s\<lparr>closure_jobs := update_where (\<lambda>j. job_auction_id j = k)
     (\<lambda>j. merge_settling j (job_row k now ''SETTLING'' now)) (closure_jobs s)\<rparr>"

lemma round_end_settled:
  assumes t: "committed env b now (db w0) m (tick w1) s" "tick w0 \<le> m" "m \<le> tick w1" "tick w1 \<le> tick w2"
    and b: "lr_id b = k" and taken: "job_taken k now (settling_store k now s) w2 w3"
  shows "round_end env k now w0 w3"
proof -
  have st: "fst (closing_decision b (db w0)) \<in> {''WON'', ''UNSOLD''}" by (auto simp: closing_decision_def Let_def)
  obtain f where f: "off_queue now f" "closure_jobs (db w3) = update_where (\<lambda>j. job_auction_id j = k)
      (\<lambda>j. f (merge_settling j (job_row k now ''SETTLING'' now))) (closure_jobs (db w0))"
    and rest: "listings (db w3) = listings s" "outbox_events (db w3) = outbox_events s" "tick w2 \<le> tick w3"
    using t(1) taken unfolding job_taken_def committed_def settling_store_def by (auto simp: update_where_twice)
  have "off_queue now (\<lambda>j. f (merge_settling j (job_row k now ''SETTLING'' now)))"
    by (rule off_queue_after [OF f(1)]) simp
  moreover have "env_uuid env ` {m..<tick w1} \<subseteq> env_uuid env ` {tick w0..<tick w3}"
    using t(2,4) rest(3) by (intro image_mono) auto
  ultimately show ?thesis
    using f(2) rest t st b unfolding committed_def round_end_def round_done_def new_events_def by auto
qed

lemma committed_listing:
  assumes "committed env b now s0 m n s" and "b \<in> set (listings s0)"
  shows "lr_id b \<in> lr_id ` set (listings s)"
proof -
  have "map lr_id (listings s) = map lr_id (listings s0)" using assms(1) by (simp add: committed_def map_update_where)
  then show ?thesis using assms(2) by (metis imageI list.set_map)
qed

lemma wp_close_claimed_faultless:
  assumes calm: "\<And>n. env_db_fault env n = None" "now < i64_add now 30"
    and b: "b \<in> set (listings (db w0))" "lr_id b = k" and k: "k \<in> job_auction_id ` set (closure_jobs (db w0))"
    and fresh: "fresh_ids {env} w0" and w: "db w = db w0" "tick w0 \<le> tick w"
  shows "wp (close_claimed_auction env job b (db w0) now) (\<lambda>_. round_end env k now w0) (\<lambda>_. round_end env k now w0) w"
proof -
  have ids: "\<And>n. tick w \<le> n \<Longrightarrow> env_uuid env n \<notin> oe_id ` set (outbox_events (db w0))"
    using fresh w(2) by (simp add: fresh_ids_def)
  show ?thesis
    unfolding close_claimed_auction_def wp_bindS wp_attempt
  proof (rule wp_mono [OF wp_execute_faultless [OF calm(1) b(1) ids]], assumption)
    fix r :: "(listing_record \<times> bid_record list) \<times> store" and w1 :: world
    assume "db w1 = db w \<and> lr_id (fst (fst r)) = lr_id b
        \<and> listings (snd r) = update_where (\<lambda>r. lr_id r = lr_id b) (\<lambda>r. r\<lparr>lr_status := fst (closing_decision b (db w0)),
              lr_current_highest_bid_cents := snd (closing_decision b (db w0)), lr_updated_at := now\<rparr>) (listings (db w0))
        \<and> closure_jobs (snd r) = closure_jobs (db w0) \<and> tick w \<le> tick w1
        \<and> oe_id ` set (outbox_events (snd r)) \<subseteq> oe_id ` set (outbox_events (db w0)) \<union> env_uuid env ` {tick w..<tick w1}"
    then have r: "committed env b now (db w0) (tick w) (tick w1) (snd r)" "lr_id (fst (fst r)) = lr_id b" "tick w \<le> tick w1"
      by (simp_all add: committed_def)
    let ?w2 = "(next_tick (next_tick w1\<lparr>db := snd r\<rparr>))\<lparr>db := settling_store k now (snd r)\<rparr>"
    have end_of: "job_taken k now (settling_store k now (snd r)) ?w2 w3 \<Longrightarrow> round_end env k now w0 w3" for w3
      by (rule round_end_settled [OF r(1) w(2) r(3) _ b(2)]) simp_all
    have "wp (settle env (fst (fst r)) (snd (fst r)) now) (\<lambda>_. round_end env k now w0) (\<lambda>_. round_end env k now w0) ?w2"
      by (rule wp_mono [OF wp_settle_faultless [OF calm]]) (use r(2) b(2) end_of in auto)
    moreover have "closure_jobs (snd r) = closure_jobs (db w0)" using r(1) by (simp add: committed_def)
    ultimately show "wp (case Inr r of
          Inl e \<Rightarrow> bindS (ignore_result (rollback_tx env)) (\<lambda>_.
            bindS (close_db_err (run_stmt env (mark_failed (job_auction_id job) now (i64_add now 30) (close_session_error_text e)))) (\<lambda>_. throw e))
        | Inr r \<Rightarrow> let updated = fst (fst r); bs = snd (fst r) in
            bindS (close_db_err (commit_tx env (snd r))) (\<lambda>_.
            bindS (close_db_err (run_stmt env (mark_settling (lr_id updated) now now))) (\<lambda>_.
            bindS (settle env updated bs now) (\<lambda>_. ret (Some updated)))))
        (\<lambda>_. round_end env k now w0) (\<lambda>_. round_end env k now w0) w1"
      using r(2) committed_listing [OF r(1) b(1)] k
      by (simp add: wp_simps calm(1) Let_def mark_settling_def b(2) upsert_existing listing_exists_def has_key_iff settling_store_def)
  qed simp
qed

lemma same_listing: "queue_ok s \<Longrightarrow> r \<in> set (listings s) \<Longrightarrow> x \<in> set (listings s) \<Longrightarrow> lr_id r = lr_id x \<Longrightarrow> r = x"
  by (metis found_for_update option.inject)

lemma wp_process_claimed_faultless:
  assumes calm: "\<And>n. env_db_fault env n = None" "now < i64_add now 30"
    and ok: "queue_ok (db w0)" and k: "job_auction_id job = k" "k \<in> job_auction_id ` set (closure_jobs (db w0))"
    and st: "job_status job \<noteq> ''SETTLING''" and fresh: "fresh_ids {env} w0"
  shows "wp (process_claimed_job env job now) (\<lambda>_. round_end env k now w0) (\<lambda>_. round_end env k now w0) w0"
proof -
  obtain j where j: "j \<in> set (closure_jobs (db w0))" "job_auction_id j = k" using k(2) by blast
  obtain b where b: "b \<in> set (listings (db w0))" "lr_id b = k" using job_has_listing [OF ok j(1)] j(2) by blast
  have found: "find_by_id_for_update k (db w0) = Some b" using found_for_update [OF ok b(1)] b(2) by simp
  have only: "r = b" if "r \<in> set (listings (db w0))" "lr_id r = k" for r
    using same_listing [OF ok that(1) b(1)] that(2) b(2) by simp
  have skipped: "round_end env k now w0 w1"
    if "off_queue now f" "closure_jobs (db w1) = update_where (\<lambda>j. job_auction_id j = k) f (closure_jobs (db w0))"
      "listings (db w1) = listings (db w0)" "outbox_events (db w1) = outbox_events (db w0)" "tick w0 \<le> tick w1"
      "\<not> awaits_closure now b" for f w1
    by (rule round_end_skipped [OF that(1-5)]) (use only that(6) in blast)
  let ?w2 = "next_tick (next_tick w0)"
  let ?Q = "\<lambda>_. round_end env k now w0"
  consider (decided) "lr_status b = ''WON'' \<or> lr_status b = ''UNSOLD'' \<or> lr_status b = ''CANCELLED''"
    | (running) "\<not> (lr_status b = ''WON'' \<or> lr_status b = ''UNSOLD'' \<or> lr_status b = ''CANCELLED'')" "now < lr_end_time b"
    | (ended) "\<not> (lr_status b = ''WON'' \<or> lr_status b = ''UNSOLD'' \<or> lr_status b = ''CANCELLED'')" "\<not> now < lr_end_time b"
    by blast
  then show ?thesis
  proof cases
    case decided
    then have "\<not> awaits_closure now b" by (auto simp: awaits_closure_def)
    with decided st b(2) show ?thesis
      by (simp add: process_claimed_job_def wp_simps sql_query_def calm(1) k(1) found mark_done_def job_update_def)
        (rule skipped [OF off_queue_done]; simp)
  next
    case running
    then have "\<not> awaits_closure now b" by (auto simp: awaits_closure_def)
    moreover have "listing_exists k (db w0)" using b by (auto simp: listing_exists_def has_row_iff)
    moreover obtain j0 where "find (\<lambda>r. job_auction_id r = k) (closure_jobs (db w0)) = Some j0"
      using j by (metis (mono_tags, lifting) find_None_iff option.exhaust)
    then have "find_job k (db w0\<lparr>closure_jobs := update_where (\<lambda>r. job_auction_id r = k)
        (\<lambda>old. merge_pending old (job_row k (lr_end_time b) ''PENDING'' now)) (closure_jobs (db w0))\<rparr>)
        = Some (merge_pending j0 (job_row k (lr_end_time b) ''PENDING'' now))"
      by (simp add: find_job_def find_update_where_same)
    ultimately show ?thesis using running st b(2) k(2)
      by (simp add: process_claimed_job_def wp_simps sql_query_def calm(1) k(1) found upsert_pending_def
          upsert_existing fetch_one_def Let_def)
        (rule skipped [OF off_queue_rescheduled]; simp)
  next
    case ended
    have "wp (close_claimed_auction env job b (db w0) now) ?Q ?Q ?w2"
      by (rule wp_close_claimed_faultless [OF calm b k(2) fresh]) simp_all
    with ended st show ?thesis
      by (simp add: process_claimed_job_def wp_simps sql_query_def calm(1) k(1) found)
  qed
qed

section \<open>The queue moves\<close>

lemma filter_update_where_le:
  assumes "\<And>r. P r \<Longrightarrow> \<not> Q (f r)"
  shows "length (filter Q (update_where P f rows)) \<le> length (filter Q rows)"
  using assms by (induction rows) auto

lemma filter_update_where_less:
  assumes "\<And>r. P r \<Longrightarrow> \<not> Q (f r)" and "r \<in> set rows" and "P r" and "Q r"
  shows "length (filter Q (update_where P f rows)) < length (filter Q rows)"
  using assms
proof (induction rows)
  case (Cons x xs)
  then show ?case using filter_update_where_le [of P Q f xs] by auto
qed simp

lemma waiting_off: "off_queue now f \<Longrightarrow> d \<le> now \<Longrightarrow> \<not> waiting_job d (f j)"
  by (auto simp: off_queue_def waiting_job_def)

lemma lacks_job_same: "job_auction_id ` set (closure_jobs s1) = job_auction_id ` set (closure_jobs s) \<Longrightarrow> lacks_job d s1 = lacks_job d s"
  by (simp add: lacks_job_def fun_eq_iff)

lemma updated_ids: "(\<And>j. job_auction_id (f j) = job_auction_id j) \<Longrightarrow> closure_jobs s1 = update_where P f (closure_jobs s)
    \<Longrightarrow> job_auction_id ` set (closure_jobs s1) = job_auction_id ` set (closure_jobs s)"
  by (metis list.set_map map_update_where)

lemma queue_reconciled:
  assumes "d \<le> now" and "reconcile_missing_pending_jobs now s = (Inr n, s1)" and "queue_ok s"
  shows "queue_ok s1" and "queue_before d s1 = queue_before d s"
    and "in_queue i d s \<Longrightarrow> in_queue i d s1 \<and> i \<in> job_auction_id ` set (closure_jobs s1)"
proof -
  define missing where "missing = filter (\<lambda>r. awaits_closure now r \<and> lr_id r \<notin> job_auction_id ` set (closure_jobs s)) (listings s)"
  have s1: "s1 = s\<lparr>closure_jobs := closure_jobs s @ map (\<lambda>r. job_row (lr_id r) (lr_end_time r) ''PENDING'' now) missing\<rparr>"
    using assms(2) by (simp add: reconcile_missing_pending_jobs_def Let_def missing_def)
  have "store_ok s1" using assms(2,3) step_store_ok [OF step_reconcile] by (auto simp: queue_ok_def)
  with assms(3) show "queue_ok s1" by (auto simp: queue_ok_def s1 job_row_def)
  have none: "\<not> lacks_job d s1 r" if "r \<in> set (listings s)" for r
  proof
    assume l: "lacks_job d s1 r"
    then have "r \<notin> set missing" by (auto simp: lacks_job_def s1 image_Un image_image)
    moreover have "awaits_closure now r" "lr_id r \<notin> job_auction_id ` set (closure_jobs s)"
      using l assms(1) by (auto simp: lacks_job_def s1 awaits_closure_def)
    ultimately show False using that by (simp add: missing_def)
  qed
  have "filter (\<lambda>r. lr_end_time r \<le> d) missing = filter (lacks_job d s) (listings s)"
    unfolding missing_def filter_filter using assms(1)
    by (intro filter_cong refl) (auto simp: lacks_job_def awaits_closure_def)
  moreover have "filter (lacks_job d s1) (listings s1) = []" using none by (simp add: filter_empty_conv s1)
  ultimately show "queue_before d s1 = queue_before d s"
    by (simp add: queue_before_def s1 filter_map comp_def waiting_job_def job_row_def)
  show "in_queue i d s1 \<and> i \<in> job_auction_id ` set (closure_jobs s1)" if q: "in_queue i d s"
  proof -
    obtain a where a: "a \<in> set (listings s)" "lr_id a = i" "awaits_closure d a" using q by (auto simp: in_queue_def)
    have due: "lr_end_time r \<le> d" if "r \<in> set missing" "lr_id r = i" for r
    proof -
      have "r = a" using same_listing [OF assms(3), of r a] that a by (simp add: missing_def)
      with a(3) show ?thesis by (simp add: awaits_closure_def)
    qed
    have "i \<in> job_auction_id ` set (closure_jobs s1)" using none [OF a(1)] a(2,3) by (auto simp: lacks_job_def)
    with q due show ?thesis by (auto simp: in_queue_def s1 job_row_def)
  qed
qed

lemma queue_claimed:
  assumes "queue_ok s" and "in_queue i d s" and "i \<in> job_auction_id ` set (closure_jobs s)" and "d \<le> now"
    and "claim_due_postgres now until worker s = (Inr jo, s1)"
  obtains j where "jo = Some j" "job_status j = ''PROCESSING''" "job_auction_id j \<in> job_auction_id ` set (closure_jobs s1)"
    "queue_ok s1" "listings s1 = listings s" "outbox_events s1 = outbox_events s"
    "queue_before d s1 < queue_before d s" "job_auction_id j \<noteq> i \<Longrightarrow> in_queue i d s1"
proof -
  obtain m where m: "m \<in> set (closure_jobs s)" "job_auction_id m = i" using assms(3) by blast
  then have mq: "job_status m = ''PENDING''" "job_due_at m \<le> d" using assms(2) by (auto simp: in_queue_def)
  then have "claimable_job now m" using assms(1,4) m(1) by (auto simp: claimable_job_def queue_ok_def lock_free_def)
  with m(1) have "filter (claimable_job now) (closure_jobs s) \<noteq> []" by (auto simp: filter_empty_conv)
  then obtain e where e: "due_job now s = Some e" by (metis due_job_def first_row_sort_key_none option.exhaust)
  have em: "e \<in> set (closure_jobs s)" "claimable_job now e" "job_due_at e \<le> job_due_at m"
    using first_row_sort_keyD [OF e [unfolded due_job_def]] \<open>claimable_job now m\<close> m(1) by auto
  let ?P = "\<lambda>r. job_auction_id r = job_auction_id e" and ?f = "lock_job until worker now"
  have distinct: "distinct (map job_auction_id (closure_jobs s))" using assms(1) by (simp add: queue_ok_def store_ok_def keys_ok_def)
  have jo: "jo = Some (?f e)" and s1: "s1 = s\<lparr>closure_jobs := update_where ?P ?f (closure_jobs s)\<rparr>"
    using assms(5) e find_distinct_key [OF distinct em(1)] by (auto simp: claim_due_postgres_def Let_def)
  have ids: "job_auction_id ` set (closure_jobs s1) = job_auction_id ` set (closure_jobs s)"
    by (rule updated_ids [of ?f]) (simp_all add: s1)
  have "waiting_job d e" using em mq(2) by (auto simp: claimable_job_def waiting_job_def)
  then have "length (filter (waiting_job d) (closure_jobs s1)) < length (filter (waiting_job d) (closure_jobs s))"
    using em(1) by (simp add: s1) (rule filter_update_where_less [of ?P], auto simp: lock_job_def waiting_job_def)
  then have less: "queue_before d s1 < queue_before d s"
    by (simp add: queue_before_def lacks_job_same [OF ids]) (simp add: s1)
  have "store_ok s1" using assms(1,5) step_store_ok [OF step_claim_due] by (auto simp: queue_ok_def)
  then have ok: "queue_ok s1" using assms(1) by (auto simp: queue_ok_def s1 lock_job_def dest!: set_update_whereD)
  have stay: "in_queue i d s1" if "job_auction_id (?f e) \<noteq> i"
    using assms(2) that by (auto simp: in_queue_def s1 dest!: set_update_whereD)
  show ?thesis
    by (rule that [OF jo]) (use ids em(1) ok less stay in \<open>auto simp: lock_job_def s1\<close>)
qed

text \<open>After the claimed job was worked on: the auction is decided, or it is still in the queue and none
  came before it.\<close>

lemma queue_round:
  assumes "queue_ok s" and "store_ok s1" and "round_done k now s s1" and "d \<le> now"
    and "in_queue i d s \<or> k = i" and "\<exists>a \<in> set (listings s). lr_id a = i \<and> awaits_closure d a"
  shows "queue_ok s1" and "queue_before d s1 \<le> queue_before d s" and "decided_in i s1 \<or> in_queue i d s1"
proof -
  obtain f where f: "off_queue now f" and jobs: "closure_jobs s1 = update_where (\<lambda>j. job_auction_id j = k) f (closure_jobs s)"
    using assms(3) unfolding round_done_def by blast
  have ids: "job_auction_id ` set (closure_jobs s1) = job_auction_id ` set (closure_jobs s)"
    by (rule updated_ids [OF _ jobs]) (use f in \<open>simp add: off_queue_def\<close>)
  have le1: "length (filter (waiting_job d) (closure_jobs s1)) \<le> length (filter (waiting_job d) (closure_jobs s))"
    unfolding jobs by (rule filter_update_where_le) (rule waiting_off [OF f assms(4)])
  obtain a where a: "a \<in> set (listings s)" "lr_id a = i" "awaits_closure d a" using assms(6) by blast
  then have now: "awaits_closure now a" using assms(4) by (auto simp: awaits_closure_def)
  have stays: "in_queue i d s1" if "k \<noteq> i" and a1: "a \<in> set (listings s1)"
  proof -
    have "in_queue i d s" using assms(5) that(1) by blast
    with that a show ?thesis by (auto simp: in_queue_def jobs f [unfolded off_queue_def] dest!: set_update_whereD)
  qed
  consider (same) "listings s1 = listings s" "\<forall>r \<in> set (listings s). lr_id r = k \<longrightarrow> \<not> awaits_closure now r"
    | (closed) st h where "st \<in> {''WON'', ''UNSOLD''}" "listings s1 = update_where (\<lambda>r. lr_id r = k)
        (\<lambda>r. r\<lparr>lr_status := st, lr_current_highest_bid_cents := h, lr_updated_at := now\<rparr>) (listings s)"
    using assms(3) unfolding round_done_def by blast
  then have "queue_ok s1 \<and> queue_before d s1 \<le> queue_before d s \<and> (decided_in i s1 \<or> in_queue i d s1)"
  proof cases
    case same
    then have "k \<noteq> i" using a now by blast
    with same assms(1,2) f le1 stays a(1) show ?thesis
      by (auto simp: queue_ok_def queue_before_def lacks_job_same [OF ids] jobs off_queue_def dest!: set_update_whereD)
  next
    case closed
    have le2: "length (filter (lacks_job d s1) (listings s1)) \<le> length (filter (lacks_job d s) (listings s))"
      unfolding lacks_job_same [OF ids] closed(2)
      by (rule filter_update_where_le) (use closed(1) in \<open>auto simp: lacks_job_def awaits_closure_def\<close>)
    have "queue_ok s1"
      using assms(1,2) f closed(2) by (auto simp: queue_ok_def jobs off_queue_def dest!: set_update_whereD)
    moreover have "decided_in i s1 \<or> in_queue i d s1"
    proof (cases "k = i")
      case True
      with a have "a\<lparr>lr_status := st, lr_current_highest_bid_cents := h, lr_updated_at := now\<rparr> \<in> set (listings s1)"
        unfolding closed(2) by (intro update_where_hit) simp_all
      with a closed(1) show ?thesis unfolding decided_in_def by (intro disjI1 bexI) auto
    next
      case False
      then have "a \<in> set (listings s1)" using a closed(2) by (auto simp: set_update_where)
      with stays False show ?thesis by blast
    qed
    ultimately show ?thesis using le1 le2 by (simp add: queue_before_def)
  qed
  then show "queue_ok s1" "queue_before d s1 \<le> queue_before d s" "decided_in i s1 \<or> in_queue i d s1" by blast+
qed

end
