(* ===== verification/TermFacts.thy ===== *)
theory TermFacts
  imports Lifecycle CreateFacts
begin

text \<open>
  What holds of the terms of a new auction holds of all stored auctions for ever: only \<^verbatim>\<open>create_auction\<close>
  writes them, and no statement changes them.
\<close>

section \<open>The terms of stored auctions\<close>

type_synonym terms = "string \<times> string \<times> string \<times> string \<times> i64 \<times> i64 \<times> i64 \<times> i64 \<times> i64"

definition terms_hold :: "(terms \<Rightarrow> bool) \<Rightarrow> world \<Rightarrow> bool" where
  "terms_hold P w \<longleftrightarrow> (\<forall>r \<in> set (listings (db w)). P (listing_terms r))"

abbreviation terms_kept :: "(terms \<Rightarrow> bool) \<Rightarrow> world \<Rightarrow> world \<Rightarrow> bool" where
  "terms_kept P \<equiv> kept_by (terms_hold P)"

interpretation terms: wallet_relation "terms_kept P" for P
  by unfold_locales (auto simp: kept_by_def terms_hold_def)

lemma terms_of_same: "keeps same_listings m \<Longrightarrow> keeps (terms_kept P) m"
  by (auto simp: keeps_def same_listings_def kept_by_def terms_hold_def)

lemma terms_updated [keeps_intros]:
  "keeps (terms_kept P) (run_stmt env (record_highest_bid i n e st u))"
  "keeps (terms_kept P) (run_stmt env (record_auto_bid i n e st u))"
  by (rule terms.keeps_run_stmt;
      auto simp: kept_by_def terms_hold_def stmt_defs listing_terms_def dest!: set_update_whereD split: stmt_splits)+

lemma terms_other_stmts [keeps_intros]:
  "keeps (terms_kept P) (run_stmt env (insert_with_wallet_hold b h))"
  "keeps (terms_kept P) (run_stmt env (raise_own_bid i n t h))"
  "keeps (terms_kept P) (run_stmt env (delete_bid i))"
  "keeps (terms_kept P) (run_stmt env (upsert_max i p n t))"
  "keeps (terms_kept P) (run_stmt env (outbox_insert ev))"
  "keeps (terms_kept P) (run_stmt env (upsert_pending i due t))"
  by (rule terms_of_same, intro keeps_intros)+

interpretation terms_writes: bid_writes "terms_kept P" env auction for P env auction
  by unfold_locales (intro keeps_intros)+

interpretation terms_service: bid_service "terms_kept P" env for P env
  by unfold_locales (intro keeps_intros)+

lemma closed_row_terms: "listing_terms (closed_row s a now r) = listing_terms r"
  by (simp add: closed_row_def listing_terms_def)

lemma terms_closed: "ledger_same w w1 \<or> closed_by_step (db w) (db w1) \<Longrightarrow> terms_kept P w w1"
  by (auto simp: kept_by_def terms_hold_def ledger_same_def closed_by_step_def closed_row_terms dest!: set_update_whereD)

lemma terms_rounds [keeps_intros]: "keeps (terms_kept P) (close_rounds env n report)"
proof -
  have "keeps (terms_kept P) (process_one_pending_closure env)"
    using closings_are_atomic by (auto simp: keeps_def intro!: terms_closed)
  then show ?thesis by (induction n arbitrary: report) (auto intro!: keeps_intros)
qed

section \<open>What new auctions promise\<close>

text \<open>A predicate on terms that every auction opened by a valid command satisfies.\<close>

locale terms_invariant =
  fixes P :: "terms \<Rightarrow> bool"
  assumes opened: "validate_command c now = Inr () \<Longrightarrow> P (listing_terms (listing_of_new (new_listing_of_command c now)))"
begin

lemma inserted: "validate_command c now = Inr () \<Longrightarrow> keeps (terms_kept P) (run_stmt env (listing_insert (new_listing_of_command c now)))"
  by (rule terms.keeps_run_stmt) (auto simp: kept_by_def terms_hold_def stmt_defs opened split: stmt_splits)

lemma created: "keeps (terms_kept P) (create_auction env c)"
proof -
  have check: "keeps (terms_kept P) (bindS (of_result (validate_command c now)) f)"
    if "\<And>a. validate_command c now = Inr () \<Longrightarrow> keeps (terms_kept P) (f a)" for now and f :: "unit \<Rightarrow> (create_auction_error, listing_record) svc"
    using that by (cases "validate_command c now") (auto simp: keeps_def bindS_def of_result_def terms.R_refl)
  show ?thesis
    unfolding create_auction_def create_auction_handler_def create_auction_core_def validate_listing_for_auction_def
      publish_auction_created_event_def
    by (intro keeps_intros check inserted)
qed

lemma service_call: "terms_kept P w (service_exec env op w)"
proof (cases op)
  case (CreateAuction c)
  then show ?thesis using created by (simp add: keeps_def)
next
  case (DeleteProxyBid i u)
  then show ?thesis using terms_of_same [OF same_listings_delete_proxy] by (simp add: keeps_def)
next
  case (CloseAuction i)
  then show ?thesis using closings_are_atomic by (auto intro!: terms_closed)
next
  case ClosePending
  then show ?thesis by (simp add: close_pending_def terms_rounds [unfolded keeps_def])
next
  case (PublishPending l pub)
  then show ?thesis using terms_of_same [OF same_listings_publish] by (simp add: keeps_def)
qed (use terms_service.placed_bid in \<open>simp_all add: bid_entry_defs keeps_def\<close>)

lemma service_runs: "terms_hold P (service_run calls start_world)"
proof -
  have "terms_hold P (service_run calls w)" if "terms_hold P w" for w
    using that service_call by (induction calls arbitrary: w) (auto simp: service_run_def kept_by_def)
  moreover have "terms_hold P start_world" by (simp add: terms_hold_def start_world_def empty_store_def)
  ultimately show ?thesis by blast
qed

end

text \<open>The two identifiers of an auction agree.\<close>

definition ids_agree :: "terms \<Rightarrow> bool" where
  "ids_agree = (\<lambda>(i, l, _). l = i)"

interpretation agreeing: terms_invariant ids_agree
  by unfold_locales (simp add: ids_agree_def listing_terms_def listing_of_new_def new_listing_of_command_def)

text \<open>The terms that \<^verbatim>\<open>CreateAuctionCommand::validate\<close> asks for.\<close>

definition valid_terms :: "terms \<Rightarrow> bool" where
  "valid_terms = (\<lambda>(i, l, seller, kind, starting, reserve, increment, _).
     \<not> is_blank i \<and> \<not> is_blank seller \<and> kind = ''ENGLISH'' \<and> 0 < starting \<and> starting \<le> reserve \<and> 0 < increment)"

interpretation valid: terms_invariant valid_terms
  by unfold_locales (auto simp: valid_terms_def listing_terms_def listing_of_new_def new_listing_of_command_def
      validate_command_def split: if_splits)

text \<open>C37: Every auction the service ever stores has an id and a seller, is an English auction, starts at a positive
  price that the reserve does not undercut, and asks for a positive increment.\<close>

theorem stored_terms_are_valid:
  "terms_hold valid_terms (service_run calls start_world)"
  by (rule valid.service_runs)

end
