(* ===== verification/QueueFacts.thy ===== *)
theory QueueFacts
  imports QueueRounds TermFacts
begin

text \<open>
  Progress of the closure queue. With a database that answers, every round of
  \<^verbatim>\<open>process_one_pending_closure\<close> takes one job out of the way, whatever the wallet does; so an ended
  auction is decided after as many turns of the scheduler as there were jobs due before it.
\<close>

section \<open>Turns of the scheduler\<close>

text \<open>An environment in which a turn is made: on Postgres, with a database that answers, at a time not
  before \<open>d\<close> (and far from the largest representable one); the wallet may do anything.\<close>

definition working_env :: "i64 \<Rightarrow> env \<Rightarrow> bool" where
  "working_env d env \<longleftrightarrow> \<not> env_sqlite env \<and> (\<forall>n. env_db_fault env n = None)
     \<and> (\<forall>n. d \<le> env_clock env n \<and> env_clock env n < i64_add (env_clock env n) 30)"

text \<open>Identifiers given at different moments differ, as \<^verbatim>\<open>Uuid::new_v4\<close> promises.\<close>

definition ids_differ :: "env set \<Rightarrow> bool" where
  "ids_differ envs \<longleftrightarrow> (\<forall>e \<in> envs. \<forall>e1 \<in> envs. \<forall>n m. n \<noteq> m \<longrightarrow> env_uuid e n \<noteq> env_uuid e1 m)"

lemma fresh_later:
  assumes "fresh_ids envs w" and "ids_differ envs" and "env \<in> envs" and "new_events env w w1"
  shows "fresh_ids envs w1"
  unfolding fresh_ids_def
proof (intro ballI allI impI)
  fix e n
  assume e: "e \<in> envs" "tick w1 \<le> n"
  then have "env_uuid e n \<notin> env_uuid env ` {tick w..<tick w1}"
    using assms(2,3) by (force simp: ids_differ_def)
  moreover have "env_uuid e n \<notin> oe_id ` set (outbox_events (db w))"
    using assms(1,4) e by (simp add: fresh_ids_def new_events_def)
  ultimately show "env_uuid e n \<notin> oe_id ` set (outbox_events (db w1))"
    using assms(4) unfolding new_events_def by blast
qed

lemma decided_stays_round: "decided_in i (db w) \<Longrightarrow> decided_in i (db (snd (process_one_pending_closure env w)))"
proof -
  assume "decided_in i (db w)"
  then obtain r where r: "r \<in> set (listings (db w))" "lr_id r = i" "lr_status r \<in> {''WON'', ''UNSOLD''}"
    by (auto simp: decided_in_def)
  have "r \<in> set (update_where (\<lambda>x. lr_id x = lr_id a) (closed_row s a now) (listings (db w)))
      \<or> closed_row s a now r \<in> set (update_where (\<lambda>x. lr_id x = lr_id a) (closed_row s a now) (listings (db w)))" for s a now
    using r(1) by (cases "lr_id r = lr_id a") (auto simp: set_update_where)
  moreover have "lr_status (closed_row s a now r) \<in> {''WON'', ''UNSOLD''}" "lr_id (closed_row s a now r) = lr_id r" for s a now
    by (auto simp: closed_row_def closing_decision_def Let_def)
  ultimately show ?thesis
    using closings_are_atomic [of w env i] r
    unfolding decided_in_def ledger_same_def closed_by_step_def by (metis (no_types, lifting))
qed

lemma claim_answers: "\<exists>jo s1. claim_due_postgres now until worker s = (Inr jo, s1)"
  by (auto simp: claim_due_postgres_def Let_def split: option.split)

lemma process_one_progress:
  assumes env: "working_env d env" and ok: "queue_ok (db w)" and q: "in_queue i d (db w)"
    and fresh: "fresh_ids {env} w" and w1: "w1 = snd (process_one_pending_closure env w)"
  shows "new_events env w w1 \<and> queue_ok (db w1)
    \<and> (decided_in i (db w1) \<or> in_queue i d (db w1) \<and> queue_before d (db w1) < queue_before d (db w))"
proof -
  let ?now = "env_clock env (tick w)" and ?worker = "''auction-closure-'' @ env_pid env"
  let ?K = "\<lambda>w1. new_events env w w1 \<and> (store_ok (db w1) \<longrightarrow> queue_ok (db w1)
    \<and> (decided_in i (db w1) \<or> in_queue i d (db w1) \<and> queue_before d (db w1) < queue_before d (db w)))"
  have calm: "\<And>n. env_db_fault env n = None" "?now < i64_add ?now 30" "d \<le> ?now" "\<not> env_sqlite env"
    using env by (simp_all add: working_env_def)
  obtain n s1 where s1: "reconcile_missing_pending_jobs ?now (db w) = (Inr n, s1)"
    by (simp add: reconcile_missing_pending_jobs_def Let_def)
  note r = queue_reconciled [OF calm(3) s1 ok]
  obtain jo s2 where s2: "claim_due_postgres ?now (i64_add ?now 60) ?worker s1 = (Inr jo, s2)"
    using claim_answers by blast
  from r(3) [OF q] have "in_queue i d s1" "i \<in> job_auction_id ` set (closure_jobs s1)" by blast+
  from queue_claimed [OF r(1) this calm(3) s2] obtain j where j: "jo = Some j" "job_status j = ''PROCESSING''"
    "job_auction_id j \<in> job_auction_id ` set (closure_jobs s2)" "queue_ok s2" "listings s2 = listings s1"
    "outbox_events s2 = outbox_events s1" "queue_before d s2 < queue_before d s1"
    "job_auction_id j \<noteq> i \<Longrightarrow> in_queue i d s2" by blast
  have same: "listings s1 = listings (db w)" "outbox_events s1 = outbox_events (db w)"
    using s1 by (auto simp: reconcile_missing_pending_jobs_def Let_def)
  define w2 where "w2 = w\<lparr>tick := Suc (Suc (Suc (Suc (tick w)))), db := s2\<rparr>"
  have fresh2: "fresh_ids {env} w2" using fresh by (auto simp: fresh_ids_def w2_def j(6) same)
  have ended: "?K w3" if end_of: "round_end env (job_auction_id j) ?now w2 w3" for w3
  proof -
    have "new_events env w2 w3" using end_of by (simp add: round_end_def)
    moreover have "env_uuid env ` {tick w2..<tick w3} \<subseteq> env_uuid env ` {tick w..<tick w3}"
      by (intro image_mono) (auto simp: w2_def)
    ultimately have "new_events env w w3" by (auto simp: new_events_def w2_def j(6) same)
    moreover have "\<exists>a \<in> set (listings s2). lr_id a = i \<and> awaits_closure d a"
      using q by (simp add: j(5) same in_queue_def)
    ultimately show ?thesis
      using queue_round [OF j(4) _ _ calm(3), of "db w3" "job_auction_id j" i] end_of j(7,8) r(2)
      by (fastforce simp: round_end_def w2_def)
  qed
  have "wp (process_claimed_job env j ?now) (\<lambda>_. ?K) (\<lambda>_. ?K) w2"
    by (rule wp_mono [OF wp_process_claimed_faultless [OF calm(1,2) _ refl _ _ fresh2]])
      (use j(2-4) ended in \<open>auto simp: w2_def\<close>)
  then have "wp (process_one_pending_closure_core env) (\<lambda>_. ?K) (\<lambda>_. ?K) w"
    using s1 s2 j(1) calm(1,4)
    by (simp add: process_one_pending_closure_core_def claim_due_def wp_simps w2_def next_tick_def)
  then have "?K w1"
    by (simp add: wp_final w1 process_one_pending_closure_def close_handler_process_one_pending_def)
  moreover have "store_ok (db w1)"
    using stepping_process_one steps_store_ok ok unfolding w1 by (auto simp: keeps_def stepping_def queue_ok_def)
  ultimately show ?thesis by simp
qed

text \<open>So does a turn, which makes at least one round.\<close>

lemma close_rounds_step:
  "\<exists>r. close_rounds env (Suc m) report w
      = (close_rounds env m r (snd (process_one_pending_closure env w)) :: ('e + _) \<times> _)
    \<or> close_rounds env (Suc m) report w = ((Inr r, snd (process_one_pending_closure env w)) :: ('e + _) \<times> _)"
proof (cases "process_one_pending_closure env w")
  case (Pair r v)
  then show ?thesis
    by (cases r) (auto simp: bindS_def attempt_def ret_def split: option.split)
qed

lemma decided_stays_rounds:
  "decided_in i (db w) \<Longrightarrow> decided_in i (db (snd (close_rounds env m r w :: ('e + _) \<times> _)))"
proof (induction m arbitrary: r w)
  case (Suc m)
  obtain r1 where "close_rounds env (Suc m) r w
        = (close_rounds env m r1 (snd (process_one_pending_closure env w)) :: ('e + _) \<times> _)
      \<or> close_rounds env (Suc m) r w = ((Inr r1, snd (process_one_pending_closure env w)) :: ('e + _) \<times> _)"
    using close_rounds_step by blast
  with Suc.IH [OF decided_stays_round [OF Suc.prems]] decided_stays_round [OF Suc.prems] show ?case
    by (auto simp del: close_rounds.simps)
qed (simp add: ret_def)

definition turn_done :: "env set \<Rightarrow> string \<Rightarrow> i64 \<Rightarrow> store \<Rightarrow> world \<Rightarrow> bool" where
  "turn_done envs i d s w1 \<longleftrightarrow> decided_in i (db w1)
    \<or> fresh_ids envs w1 \<and> queue_ok (db w1) \<and> in_queue i d (db w1) \<and> queue_before d (db w1) < queue_before d s"

lemma turn_done_later: "turn_done envs i d s1 w \<Longrightarrow> queue_before d s1 \<le> queue_before d s \<Longrightarrow> turn_done envs i d s w"
  by (auto simp: turn_done_def)

lemma turn_progress:
  assumes env: "working_env d env" and envs: "ids_differ envs" "env \<in> envs"
  shows "fresh_ids envs w \<Longrightarrow> queue_ok (db w) \<Longrightarrow> in_queue i d (db w) \<Longrightarrow> 0 < n \<Longrightarrow>
    turn_done envs i d (db w) (snd (close_rounds env n report w :: ('e + _) \<times> _))"
proof (induction n arbitrary: report w)
  case 0
  then show ?case by simp
next
  case (Suc m)
  let ?v = "snd (process_one_pending_closure env w)"
  have "fresh_ids {env} w" using Suc.prems(1) envs(2) by (simp add: fresh_ids_def)
  note step = process_one_progress [OF env Suc.prems(2,3) this refl]
  have "fresh_ids envs ?v" using fresh_later [OF Suc.prems(1) envs] step by blast
  with step have v: "turn_done envs i d (db w) ?v" by (auto simp: turn_done_def)
  have "turn_done envs i d (db w) (snd (close_rounds env m r ?v :: ('e + _) \<times> _))" for r
  proof (cases "decided_in i (db ?v) \<or> m = 0")
    case True
    with v decided_stays_rounds [of i ?v env m r] show ?thesis by (auto simp: turn_done_def ret_def)
  next
    case False
    with v have "fresh_ids envs ?v" "queue_ok (db ?v)" "in_queue i d (db ?v)" "queue_before d (db ?v) < queue_before d (db w)"
      by (auto simp: turn_done_def)
    with Suc.IH [of ?v r] False show ?thesis by (auto intro: turn_done_later)
  qed
  with v close_rounds_step [of env m report w] show ?case by (metis snd_conv)
qed

lemma queue_before_pos:
  assumes "in_queue i d s"
  shows "0 < queue_before d s"
proof -
  from assms obtain a where a: "a \<in> set (listings s)" "lr_id a = i" "awaits_closure d a" by (auto simp: in_queue_def)
  show ?thesis
  proof (cases "i \<in> job_auction_id ` set (closure_jobs s)")
    case True
    then obtain j where "j \<in> set (closure_jobs s)" "waiting_job d j"
      using assms by (auto simp: in_queue_def waiting_job_def)
    then have "filter (waiting_job d) (closure_jobs s) \<noteq> []" by (auto simp: filter_empty_conv)
    then show ?thesis by (simp add: queue_before_def)
  next
    case False
    with a have "filter (lacks_job d s) (listings s) \<noteq> []" by (auto simp: filter_empty_conv lacks_job_def)
    then show ?thesis by (simp add: queue_before_def)
  qed
qed

lemma decided_stays_polling: "decided_in i (db w) \<Longrightarrow> decided_in i (db (close_polling envs w))"
  by (induction envs arbitrary: w) (simp_all add: close_pending_def decided_stays_rounds)

section \<open>The queue of a service that ran\<close>

text \<open>Every sequence of calls from the empty tables leads to a queue as the above needs it.\<close>

definition jobs_wait_free :: "store \<Rightarrow> bool" where
  "jobs_wait_free s \<longleftrightarrow> (\<forall>j \<in> set (closure_jobs s). job_status j \<in> {''PENDING'', ''SETTLING''} \<longrightarrow> job_locked_until j = None)"

lemma step_jobs_wait_free:
  assumes "store_step s s1" and "jobs_wait_free s"
  shows "jobs_wait_free s1"
  using assms(1)
proof cases
  case (step_upsert_pending auction due now j)
  with assms(2) show ?thesis
    by (auto simp: jobs_wait_free_def upsert_pending_def Let_def merge_pending_def job_row_def dest!: pending.rows_of split: stmt_splits)
next
  case (step_mark_settling auction due now v)
  with assms(2) show ?thesis
    by (auto simp: jobs_wait_free_def mark_settling_def merge_settling_def job_row_def dest!: settling.rows_of split: stmt_splits)
qed (use assms(2) in \<open>auto simp: jobs_wait_free_def stmt_defs Let_def lock_job_def fail_job_def job_row_def
    dest!: set_update_whereD split: stmt_splits\<close>)

lemma steps_jobs_wait_free: "store_steps s s1 \<Longrightarrow> jobs_wait_free s \<Longrightarrow> jobs_wait_free s1"
  by (induction rule: rtranclp_induct) (auto intro: step_jobs_wait_free)

lemma reachable_queue_ok: "queue_ok (db (service_run calls start_world))"
proof -
  let ?w = "service_run calls start_world"
  have "\<forall>r \<in> set (listings (db ?w)). lr_listing_id r = lr_id r"
    using agreeing.service_runs [of calls] by (simp add: terms_hold_def ids_agree_def listing_terms_def)
  moreover have "store_steps (db start_world) (db ?w)" using run_steps by (simp add: stepping_def)
  moreover have "store_ok (db start_world)" "jobs_wait_free (db start_world)"
    by (simp_all add: start_world_def empty_store_def store_ok_def keys_ok_def refs_ok_def jobs_wait_free_def)
  ultimately show ?thesis
    using steps_store_ok steps_jobs_wait_free unfolding queue_ok_def jobs_wait_free_def by blast
qed

section \<open>Every ended auction gets decided\<close>

lemma queue_decides:
  assumes "\<forall>env \<in> set envs. working_env d env" and "ids_differ (set envs)" and "fresh_ids (set envs) w"
    and "queue_ok (db w)" and "in_queue i d (db w)" and "queue_before d (db w) \<le> length envs"
  shows "decided_in i (db (close_polling envs w))"
proof -
  have "decided_in i (db (close_polling es w))"
    if "set es \<subseteq> set envs" "fresh_ids (set envs) w" "queue_ok (db w)" "in_queue i d (db w)"
      "queue_before d (db w) \<le> length es" for es
    using that
  proof (induction es arbitrary: w)
    case Nil
    with queue_before_pos show ?case by fastforce
  next
    case (Cons e es)
    let ?w1 = "snd (close_pending e w :: (unit + _) \<times> _)"
    have "turn_done (set envs) i d (db w) ?w1"
      unfolding close_pending_def
      by (rule turn_progress) (use Cons.prems assms(1,2) batch_size_positive [of e] in auto)
    with Cons decided_stays_polling [of i ?w1 es] show ?case by (auto simp: turn_done_def)
  qed
  with assms show ?thesis by simp
qed

text \<open>C6: Every ended auction gets decided. Let the auction \<open>i\<close> be past its end and undecided after any
  sequence of calls, with its closing job waiting or still to be made, and let the scheduler take turns with
  a database that answers. Then after as many turns as there were jobs and job-less ended auctions due by
  \<open>d\<close>, the auction is WON or UNSOLD, whatever the wallet service answers or fails to answer.\<close>

theorem ended_auctions_get_decided:
  assumes "\<forall>env \<in> set envs. working_env d env" and "ids_differ (set envs)"
    and "fresh_ids (set envs) (service_run calls start_world)" and "in_queue i d (db (service_run calls start_world))"
    and "queue_before d (db (service_run calls start_world)) \<le> length envs"
  shows "decided_in i (db (close_polling envs (service_run calls start_world)))"
  using queue_decides assms reachable_queue_ok by blast

text \<open>An auction that nobody bid on, and a turn with a wallet that never grants anything.\<close>

definition slow_env :: env where
  "slow_env = calm_env\<lparr>env_clock := (\<lambda>_. 6000), env_uuid := (\<lambda>n. replicate n CHR ''x''), env_wallet := None\<rparr>"

lemma opened_queue:
  "map oe_id (outbox_events (db (service_run [(calm_env, CreateAuction later_command)] start_world))) = [''id-6'']"
  "closure_jobs (db (service_run [(calm_env, CreateAuction later_command)] start_world)) = [job_row ''l1'' 5000 ''PENDING'' 1000]"
  "listings (db (service_run [(calm_env, CreateAuction later_command)] start_world)) = [opened_listing]"
  by code_simp+

theorem ended_auctions_get_decided_witness:
  "decided_in ''l1'' (db (close_polling [slow_env] (service_run [(calm_env, CreateAuction later_command)] start_world)))"
proof (rule ended_auctions_get_decided [where d = 6000])
  show "\<forall>env \<in> set [slow_env]. working_env 6000 env"
    by (simp add: working_env_def slow_env_def calm_env_def i64_add_def i64_wrap_def)
  show "ids_differ (set [slow_env])" by (auto simp: ids_differ_def slow_env_def dest: arg_cong [of _ _ length])
  have "oe_id ` set (outbox_events (db (service_run [(calm_env, CreateAuction later_command)] start_world))) = {''id-6''}"
    using opened_queue(1) by (metis list.set(1,2) set_map)
  moreover have "replicate n CHR ''x'' \<noteq> ''id-6''" for n by (cases n) simp_all
  ultimately show "fresh_ids (set [slow_env]) (service_run [(calm_env, CreateAuction later_command)] start_world)"
    by (simp add: fresh_ids_def slow_env_def)
  note rows = opened_queue(2,3) opened_listing_def sample_listing_def job_row_def awaits_closure_def
  show "in_queue ''l1'' 6000 (db (service_run [(calm_env, CreateAuction later_command)] start_world))"
    by (simp add: in_queue_def rows)
  show "queue_before 6000 (db (service_run [(calm_env, CreateAuction later_command)] start_world)) \<le> length [slow_env]"
    by (simp add: queue_before_def rows waiting_job_def lacks_job_def)
qed

end
