(* ===== verification/Process.thy ===== *)
theory Process
  imports Server Publishers Http
begin

text \<open>
  The process of \<^verbatim>\<open>main.rs\<close>: its start, and the tasks it then runs beside each other, requests, turns of
  the closure scheduler and turns of the outbox relay, on the same tables, clients and settings.
\<close>

section \<open>The start\<close>

text \<open>What \<^verbatim>\<open>main\<close> uses of its libraries and the operating system: the two environment files (a missing one
  changes nothing, and so do variables a file does not set), opening the pool, executing a statement, and
  binding the listener; an error is its text.\<close>

record 'd platform =
  pf_dotenv :: "(string \<Rightarrow> string option) \<Rightarrow> string \<Rightarrow> string option"
  pf_dotenv_override :: "(string \<Rightarrow> string option) \<Rightarrow> string \<Rightarrow> string option"
  pf_connect :: "string \<Rightarrow> nat \<Rightarrow> string option"
  pf_execute :: "'d executor"
  pf_bind :: "string \<Rightarrow> string option"

text \<open>The settings the tasks are spawned with. The interval and the batch size of the relay, its publisher and
  the interval of the closure scheduler are read once.\<close>

record tasks =
  tk_service :: env
  tk_closure_interval_ms :: nat
  tk_outbox_interval_ms :: nat
  tk_outbox_batch_size :: i64
  tk_publisher :: rabbitmq_publisher

text \<open>How the start ends: with an error or a panic before any task is spawned, with the tasks spawned and the
  listener refused, or serving on the address.\<close>

datatype start_result = StartError string | StartPanic string | BindError tasks string | Serving tasks string

definition spawned_tasks :: "env \<Rightarrow> nat \<Rightarrow> env \<Rightarrow> tasks" where
  "spawned_tasks settings closure_interval service =
     \<lparr>tk_service = service, tk_closure_interval_ms = closure_interval,
      tk_outbox_interval_ms = resolve_outbox_interval_ms settings,
      tk_outbox_batch_size = resolve_outbox_batch_size settings,
      tk_publisher = \<lparr>rmq_amqp_url = resolve_rabbitmq_url settings, rmq_exchange = resolve_events_exchange settings\<rparr>\<rparr>"

definition main_start :: "'d platform \<Rightarrow> transport \<Rightarrow> string \<Rightarrow> env \<Rightarrow> 'd \<Rightarrow> start_result \<times> 'd" where
  "main_start pf tr init_sql env d =
     (let settings = env\<lparr>env_var := pf_dotenv_override pf (pf_dotenv pf (env_var env))\<rparr>;
          database_url = resolve_database_url settings;
          bind_address = resolve_bind_address settings;
          closure_interval = resolve_auction_closure_interval_ms settings
      in case pf_connect pf database_url (max_connections database_url) of
           Some e \<Rightarrow> (StartError e, d)
         | None \<Rightarrow>
             (case run_migrations (pf_execute pf) init_sql d of
                (Inl e, d1) \<Rightarrow> (StartError e, d1)
              | (Inr _, d1) \<Rightarrow>
                  (case build_service tr settings of
                     Inl m \<Rightarrow> (StartPanic m, d1)
                   | Inr service \<Rightarrow>
                       (let t = spawned_tasks settings closure_interval service in
                        case pf_bind pf bind_address of
                          Some e \<Rightarrow> (BindError t e, d1)
                        | None \<Rightarrow> (Serving t bind_address, d1)))))"

section \<open>The running process\<close>

text \<open>The tables with the metrics, and the connection of the publisher.\<close>

record ('c, 'h) process =
  pr_web :: web_state
  pr_amqp :: "('c, 'h) amqp_state"

text \<open>One request, or one turn of a scheduler, in the outside world of its time (its clock, the answers of the
  database and of the services); the clients and the variables are the process's own.\<close>

datatype process_event = Request env request_headers http_request | ClosureTurn env | RelayTurn env

definition in_process :: "tasks \<Rightarrow> env \<Rightarrow> env" where
  "in_process t env = env\<lparr>env_wallet := env_wallet (tk_service t), env_catalog := env_catalog (tk_service t),
     env_var := env_var (tk_service t)\<rparr>"

text \<open>The ticker of a scheduler is \<^verbatim>\<open>tokio::time::interval\<close>, which panics on a period of zero: the
  spawned task ends there, and the process goes on without it.\<close>

fun process_step :: "web \<Rightarrow> transport \<Rightarrow> ('c, 'h) amqp \<Rightarrow> tasks \<Rightarrow> process_event \<Rightarrow> ('c, 'h) process \<Rightarrow> ('c, 'h) process" where
  "process_step web tr am t (Request env headers q) p =
     p\<lparr>pr_web := snd (serve web (in_process t env) headers q (pr_web p))\<rparr>"
| "process_step web tr am t (ClosureTurn env) p =
     (if tk_closure_interval_ms t = 0 then p
      else p\<lparr>pr_web := (pr_web p)\<lparr>web_world :=
        snd (close_pending (in_process t env) (web_world (pr_web p)) :: (unit + _) \<times> _)\<rparr>\<rparr>)"
| "process_step web tr am t (RelayTurn env) p =
     (if tk_outbox_interval_ms t = 0 then p
      else case relay_pending (in_process t env) (tk_outbox_batch_size t)
              (rmq_publish tr (in_process t env) am (tk_publisher t)) (web_world (pr_web p)) (pr_amqp p) of
             (_, w1, st1) \<Rightarrow> \<lparr>pr_web = (pr_web p)\<lparr>web_world := w1\<rparr>, pr_amqp = st1\<rparr>)"

definition process_run :: "web \<Rightarrow> transport \<Rightarrow> ('c, 'h) amqp \<Rightarrow> tasks \<Rightarrow> process_event list
    \<Rightarrow> ('c, 'h) process \<Rightarrow> ('c, 'h) process" where
  "process_run web tr am t es p = fold (process_step web tr am t) es p"

text \<open>A process that was just started on tables, with no connection to the broker.\<close>

definition started_on :: "world \<Rightarrow> ('c, 'h) process" where
  "started_on w = \<lparr>pr_web = \<lparr>web_metrics = new_metrics, web_world = w\<rparr>,
     pr_amqp = new_amqp_state\<rparr>"

end
