(* ===== verification/BidMoney.thy ===== *)
theory BidMoney
  imports Lifecycle CreateFacts
begin

text \<open>
  The money behind the bids. A bid or proxy bid, whatever it meets, leaves every stored bid that names a hold
  with a hold the wallet granted for its bidder, its auction and its amount, releases only holds that were
  granted, takes no payment and touches no other auction's bids. The lemmas follow the stages of
  \<^theory_text>\<open>BidService\<close>.
\<close>

section \<open>Holds in the wallet's log\<close>

definition held_for :: "wallet_call list \<Rightarrow> string \<Rightarrow> string \<Rightarrow> string \<Rightarrow> i64 \<Rightarrow> bool" where
  "held_for log h u i n \<longleftrightarrow> (\<exists>q r. HoldCall q (Inr r) \<in> set log \<and> hr_id r = h \<and> hf_user_id q = u
     \<and> hf_auction_id q = i \<and> hf_amount q = cents_to_rupiah n)"

definition granted :: "wallet_call list \<Rightarrow> string \<Rightarrow> bool" where
  "granted log h \<longleftrightarrow> (\<exists>u i n. held_for log h u i n)"

definition bid_backed :: "wallet_call list \<Rightarrow> bid_record \<Rightarrow> bool" where
  "bid_backed log b \<longleftrightarrow> (\<forall>h. br_wallet_hold_id b = Some h
     \<longrightarrow> held_for log h (br_bidder_id b) (br_auction_id b) (br_bid_amount_cents b))"

fun call_backed :: "wallet_call list \<Rightarrow> wallet_call \<Rightarrow> bool" where
  "call_backed log (HoldCall q r) \<longleftrightarrow> True"
| "call_backed log (ReleaseCall h r) \<longleftrightarrow> granted log h"
| "call_backed log (ConvertCall h r) \<longleftrightarrow> granted log h"

definition log_backed :: "wallet_call list \<Rightarrow> bool" where
  "log_backed log \<longleftrightarrow> (\<forall>n < length log. call_backed (take n log) (log ! n))"

lemma held_for_mono: "held_for log h u i n \<Longrightarrow> prefix log log1 \<Longrightarrow> held_for log1 h u i n"
  unfolding held_for_def using set_mono_prefix by blast

lemma granted_mono: "granted log h \<Longrightarrow> prefix log log1 \<Longrightarrow> granted log1 h"
  unfolding granted_def using held_for_mono by blast

lemma bid_backed_mono: "bid_backed log b \<Longrightarrow> prefix log log1 \<Longrightarrow> bid_backed log1 b"
  unfolding bid_backed_def using held_for_mono by blast

lemma held_for_new: "hf_user_id q = u \<Longrightarrow> hf_auction_id q = i \<Longrightarrow> hf_amount q = cents_to_rupiah n
    \<Longrightarrow> held_for (log @ [HoldCall q (Inr r)]) (hr_id r) u i n"
  by (auto simp: held_for_def)

lemma log_backed_append [simp]: "log_backed (log @ [c]) \<longleftrightarrow> log_backed log \<and> call_backed log c"
  by (auto simp: log_backed_def nth_append less_Suc_eq)

text \<open>The bids of other auctions, the conversions so far, and what a bid on the auction \<open>i\<close> keeps of them.\<close>

definition bids_elsewhere :: "string \<Rightarrow> store \<Rightarrow> bid_record list" where
  "bids_elsewhere i s = filter (\<lambda>b. br_auction_id b \<noteq> i) (bids s)"

definition conversions :: "wallet_call list \<Rightarrow> wallet_call list" where
  "conversions log = filter (\<lambda>c. case c of ConvertCall _ _ \<Rightarrow> True | _ \<Rightarrow> False) log"

lemma conversions_simps [simp]:
  "conversions [] = []" "conversions (log @ log1) = conversions log @ conversions log1"
  "conversions [HoldCall q a] = []" "conversions [ReleaseCall h b] = []" "conversions [ConvertCall h b] = [ConvertCall h b]"
  by (simp_all add: conversions_def)

definition backed :: "world \<Rightarrow> bool" where
  "backed w \<longleftrightarrow> distinct (map br_id (bids (db w))) \<and> (\<forall>b \<in> set (bids (db w)). bid_backed (wallet_log w) b)
     \<and> log_backed (wallet_log w)"

definition bidding_on :: "string \<Rightarrow> world \<Rightarrow> world \<Rightarrow> bool" where
  "bidding_on i w0 w \<longleftrightarrow> backed w \<and> prefix (wallet_log w0) (wallet_log w)
     \<and> conversions (wallet_log w) = conversions (wallet_log w0) \<and> bids_elsewhere i (db w) = bids_elsewhere i (db w0)"

text \<open>Steps that leave the bids and the wallet alone.\<close>

definition same_money :: "world \<Rightarrow> world \<Rightarrow> bool" where
  "same_money w w1 \<longleftrightarrow> bids (db w1) = bids (db w) \<and> wallet_log w1 = wallet_log w"

interpretation same_money: run_relation same_money
  by unfold_locales (auto simp: same_money_def)

lemma same_money_stmts [keeps_intros]:
  "keeps same_money (run_stmt env (listing_insert nl))"
  "keeps same_money (run_stmt env (record_highest_bid i n e st u))"
  "keeps same_money (run_stmt env (record_auto_bid i n e st u))"
  "keeps same_money (run_stmt env (upsert_max i p n t))"
  "keeps same_money (run_stmt env (delete_for_bidder i p))"
  "keeps same_money (run_stmt env (outbox_insert ev))"
  "keeps same_money (run_stmt env (claim_pending_postgres l t u worker))"
  "keeps same_money (run_stmt env (lock_event_stmt i t u worker))"
  "keeps same_money (run_stmt env (mark_published i t))"
  "keeps same_money (run_stmt env (mark_publish_failed i t u err))"
  "keeps same_money (run_stmt env (upsert_pending i due t))"
  "keeps same_money (run_stmt env (mark_settling i due t))"
  "keeps same_money (run_stmt env (mark_settlement_failed i t next err))"
  "keeps same_money (run_stmt env (mark_failed i t next err))"
  "keeps same_money (run_stmt env (mark_done i t))"
  "keeps same_money (run_stmt env (claim_due_postgres t until worker))"
  "keeps same_money (run_stmt env (lock_job_stmt i t until worker))"
  "keeps same_money (run_stmt env (reconcile_missing_pending_jobs t))"
  by (rule same_money.keeps_run_stmt; auto simp: same_money_def stmt_defs Let_def split: stmt_splits)+

lemma same_money_bid_parts [keeps_intros]:
  "keeps same_money (publish_bid_placed_event env a b)"
  "keeps same_money (publish_outbid_event env a b n)"
  "keeps same_money (notify_outbid env a u prev n)"
  "keeps same_money (record_accepted_listing env i a n e st t)"
  "keeps same_money (auto_bid_schedule env a p cur n t)"
  "keeps same_money (raise_own_maximum env i a u n t cur)"
  unfolding publish_bid_placed_event_def publish_outbid_event_def notify_outbid_def record_accepted_listing_def Let_def
    auto_bid_schedule_def raise_own_maximum_def
  by (intro keeps_intros)+

section \<open>The steps of a bid\<close>

lemma bidding_same: "bidding_on i w0 w \<Longrightarrow> same_money w w1 \<Longrightarrow> bidding_on i w0 w1"
  by (simp add: bidding_on_def same_money_def backed_def bids_elsewhere_def)

text \<open>What is known along the way: the log only grows, and the bids are those of before.\<close>

definition since :: "world \<Rightarrow> world \<Rightarrow> bool" where
  "since w w1 \<longleftrightarrow> bids (db w1) = bids (db w) \<and> prefix (wallet_log w) (wallet_log w1)"

lemma since_same: "same_money w w1 \<Longrightarrow> since w w1"
  by (simp add: since_def same_money_def)

lemma wp_money_bind:
  assumes "wp m (\<lambda>a w1. bidding_on i w0 w1 \<and> P a w1) (\<lambda>_. bidding_on i w0) w"
    and "\<And>a w1. bidding_on i w0 w1 \<Longrightarrow> P a w1 \<Longrightarrow> wp (f a) Q (\<lambda>_. bidding_on i w0) w1"
  shows "wp (bindS m f) Q (\<lambda>_. bidding_on i w0) w"
  unfolding wp_bindS by (rule wp_mono [OF assms(1)]) (use assms(2) in auto)

lemma wp_same_money:
  assumes "keeps same_money m" and "bidding_on i w0 w"
  shows "wp m (\<lambda>_ w1. bidding_on i w0 w1 \<and> since w w1) (\<lambda>_. bidding_on i w0) w"
  by (rule wp_mono [OF same_money.wp_keeps [OF assms(1) same_money.R_refl]])
    (use assms(2) in \<open>auto intro: bidding_same since_same\<close>)

lemma wp_same_money_end:
  assumes "keeps same_money m" and "bidding_on i w0 w"
  shows "wp m (\<lambda>_. bidding_on i w0) (\<lambda>_. bidding_on i w0) w"
  by (rule wp_mono [OF wp_same_money [OF assms]]) simp_all

lemma wp_same_money_bind:
  assumes "keeps same_money m" and "bidding_on i w0 w"
    and "\<And>a w1. bidding_on i w0 w1 \<Longrightarrow> since w w1 \<Longrightarrow> wp (f a) Q (\<lambda>_. bidding_on i w0) w1"
  shows "wp (bindS m f) Q (\<lambda>_. bidding_on i w0) w"
  using wp_money_bind [OF wp_same_money [OF assms(1,2)]] assms(3) .

text \<open>A call of the wallet.\<close>

lemma bidding_log:
  assumes "bidding_on i w0 w" and "call_backed (wallet_log w) c" and "conversions [c] = []"
  shows "bidding_on i w0 (log_wallet c w)" and "since w (log_wallet c w)"
proof -
  have "prefix (wallet_log w) (wallet_log w @ [c])" by simp
  with assms bid_backed_mono [OF _ this] show "bidding_on i w0 (log_wallet c w)"
    by (auto simp: bidding_on_def backed_def intro: prefix_order.trans)
qed (simp add: since_def)

lemma wp_release:
  assumes "bidding_on i w0 w" and "granted (wallet_log w) h"
  shows "wp (map_err g (release_hold c h)) (\<lambda>_ w1. bidding_on i w0 w1 \<and> since w w1) (\<lambda>_. bidding_on i w0) w"
  using bidding_log [OF assms(1), of "ReleaseCall h _"] assms(2) by (auto simp: wp_simps split: sum.split)

lemma bid_backed_granted: "bid_backed log b \<Longrightarrow> br_wallet_hold_id b = Some h \<Longrightarrow> granted log h"
  by (auto simp: bid_backed_def granted_def)

lemma since_refl [simp]: "since w w"
  by (simp add: since_def)

lemma wp_release_previous:
  assumes "bidding_on i w0 w" and "\<And>b. prev = Some b \<Longrightarrow> bid_backed (wallet_log w) b"
  shows "wp (release_previous_hold env u prev) (\<lambda>_ w1. bidding_on i w0 w1 \<and> since w w1) (\<lambda>_. bidding_on i w0) w"
  using assms(1)
  by (auto simp: release_previous_hold_def wp_ret intro!: wp_release intro: bid_backed_granted [OF assms(2)] split: option.split)

lemma wp_release_current:
  assumes "bidding_on i w0 w" and "bid_backed (wallet_log w) cur"
  shows "wp (release_current_hold env cur) (\<lambda>_ w1. bidding_on i w0 w1 \<and> since w w1) (\<lambda>_. bidding_on i w0) w"
  using assms(1)
  by (auto simp: release_current_hold_def wp_ret intro!: wp_release intro: bid_backed_granted [OF assms(2)] split: option.split)

lemma wp_release_quietly:
  assumes "bidding_on i w0 w" and "\<And>h. hold = Some h \<Longrightarrow> granted (wallet_log w) h"
  shows "wp (release_quietly env hold) (\<lambda>_ w1. bidding_on i w0 w1 \<and> since w w1) (\<lambda>_. bidding_on i w0) w"
  using assms bidding_log [OF assms(1), of "ReleaseCall _ _"]
  by (auto simp: release_quietly_def wp_simps split: option.split sum.split)

lemma since_tick: "since w (next_tick w)" "bidding_on i w0 (next_tick w) \<longleftrightarrow> bidding_on i w0 w"
  by (simp_all add: since_def bidding_on_def backed_def)

lemma wp_hold_money:
  assumes "bidding_on i w0 w"
  shows "wp (hold_for_bid env u i b n e) (\<lambda>r w1. bidding_on i w0 w1 \<and> since w w1
      \<and> (\<forall>h. r = Some h \<longrightarrow> held_for (wallet_log w1) h u i n)) (\<lambda>_. bidding_on i w0) w"
proof -
  have "bidding_on i w0 (log_wallet (HoldCall q a) (next_tick w))" for q a
    by (rule bidding_log(1)) (use assms in \<open>simp_all add: since_tick\<close>)
  moreover have "since w (log_wallet (HoldCall q a) (next_tick w))" for q a by (simp add: since_def)
  ultimately show ?thesis
    using assms by (auto simp: hold_for_bid_def wp_simps intro!: held_for_new split: option.split sum.split)
qed

text \<open>A stored bid. The rows of its identifier are the auction's own.\<close>

definition owned :: "string \<Rightarrow> string \<Rightarrow> world \<Rightarrow> bool" where
  "owned i j w \<longleftrightarrow> (\<forall>b \<in> set (bids (db w)). br_id b = j \<longrightarrow> br_auction_id b = i)"

lemma owned_since: "owned i j w \<Longrightarrow> since w w1 \<Longrightarrow> owned i j w1"
  by (simp add: owned_def since_def)

lemma bidding_insert:
  assumes "bidding_on i w0 w" and "insert_with_wallet_hold b hold (db w) = (Inr r, s1)" and "nb_auction_id b = i"
    and "\<And>h. hold = Some h \<Longrightarrow> held_for (wallet_log w) h (nb_bidder_id b) i (nb_bid_amount_cents b)"
  shows "bidding_on i w0 (next_tick w\<lparr>db := s1\<rparr>)" and "owned i (br_id r) (next_tick w\<lparr>db := s1\<rparr>)"
proof -
  have s1: "s1 = (db w)\<lparr>bids := bids (db w) @ [bid_of_new b hold]\<rparr>" "r = bid_of_new b hold"
    and new: "nb_id b \<notin> br_id ` set (bids (db w))"
    using assms(2) by (auto simp: insert_with_wallet_hold_def has_key_iff split: if_splits)
  have row: "bid_backed (wallet_log w) (bid_of_new b hold)" "br_id (bid_of_new b hold) = nb_id b"
      "br_auction_id (bid_of_new b hold) = i"
    using assms(3,4) by (simp_all add: bid_of_new_def bid_backed_def)
  with assms(1) new show "bidding_on i w0 (next_tick w\<lparr>db := s1\<rparr>)"
    by (simp add: bidding_on_def backed_def bids_elsewhere_def s1)
  show "owned i (br_id r) (next_tick w\<lparr>db := s1\<rparr>)" using new row by (auto simp: owned_def s1 image_iff)
qed

lemma wp_insert_or_release:
  assumes w: "bidding_on i w0 w" and b: "nb_auction_id b = i"
    and hold: "\<And>h. hold = Some h \<Longrightarrow> held_for (wallet_log w) h (nb_bidder_id b) i (nb_bid_amount_cents b)"
  shows "wp (insert_bid_or_release env b hold)
    (\<lambda>r w1. bidding_on i w0 w1 \<and> wallet_log w1 = wallet_log w \<and> owned i (br_id r) w1) (\<lambda>_. bidding_on i w0) w"
proof -
  have quiet: "wp (release_quietly env hold) (\<lambda>_. bidding_on i w0) (\<lambda>_. bidding_on i w0) (next_tick w)"
    by (rule wp_mono [OF wp_release_quietly])
      (use w hold in \<open>auto simp: since_tick granted_def\<close>)
  show ?thesis
    using w quiet bidding_insert [OF w _ b hold]
    by (auto simp: insert_bid_or_release_def wp_simps split: option.split prod.split sum.split)
qed

lemma filter_cong_update:
  "(\<And>r. r \<in> set rows \<Longrightarrow> P r \<Longrightarrow> \<not> K r \<and> \<not> K (f r)) \<Longrightarrow> filter K (update_where P f rows) = filter K rows"
  by (induction rows) auto

lemma bidding_raise:
  assumes w: "bidding_on i w0 w" and cur: "cur \<in> set (bids (db w))" "br_auction_id cur = i"
    and hold: "\<And>h. hold = Some h \<Longrightarrow> held_for (wallet_log w) h (br_bidder_id cur) i n"
    and q: "raise_own_bid (br_id cur) n t hold (db w) = (Inr r, s1)"
  shows "bidding_on i w0 (next_tick w\<lparr>db := s1\<rparr>)"
    and "\<And>b. r = Some b \<Longrightarrow> owned i (br_id b) (next_tick w\<lparr>db := s1\<rparr>)"
proof -
  let ?P = "\<lambda>b. br_id b = br_id cur \<and> br_bid_amount_cents b < n"
  let ?f = "\<lambda>b. b\<lparr>br_bid_amount_cents := n, br_bid_time := t, br_wallet_hold_id := hold\<rparr>"
  have s1: "s1 = (db w)\<lparr>bids := update_where ?P ?f (bids (db w))\<rparr>" "r = map_option ?f (find ?P (bids (db w)))"
    using q by (auto simp: raise_own_bid_def Let_def)
  have only: "b = cur" if "b \<in> set (bids (db w))" "br_id b = br_id cur" for b
    using key_unique [of br_id "bids (db w)" b cur] w cur(1) that by (simp add: bidding_on_def backed_def)
  have "bids_elsewhere i s1 = bids_elsewhere i (db w)"
    unfolding bids_elsewhere_def s1 using only cur(2)
    by (simp, intro filter_cong_update) auto
  moreover have "bid_backed (wallet_log w) b" if "b \<in> set (bids s1)" for b
  proof -
    from that consider "b \<in> set (bids (db w))" | "b = ?f cur" unfolding s1 using only by (auto simp: set_update_where)
    then show ?thesis
      by cases (use w hold cur(2) in \<open>auto simp: bidding_on_def backed_def bid_backed_def\<close>)
  qed
  ultimately show "bidding_on i w0 (next_tick w\<lparr>db := s1\<rparr>)"
    using w by (simp add: bidding_on_def backed_def s1 map_update_where)
  show "owned i (br_id b) (next_tick w\<lparr>db := s1\<rparr>)" if "r = Some b" for b
  proof -
    have own: "br_auction_id x = i" if "x \<in> set (bids (db w))" "br_id x = br_id cur" for x
      using only [OF that] cur(2) by simp
    have "br_id b = br_id cur" using that by (auto simp: s1 dest!: find_SomeD)
    then show ?thesis using own by (auto simp: s1 owned_def set_update_where)
  qed
qed

lemma wp_store_auto_bid:
  assumes w: "bidding_on i w0 w" and cur: "cur \<in> set (bids (db w))" "br_auction_id cur = i"
    and hold: "\<And>h. hold = Some h \<Longrightarrow> held_for (wallet_log w) h (pr_bidder_id p) i n"
  shows "wp (store_auto_bid env i j p cur n t hold) (\<lambda>r w1. bidding_on i w0 w1
      \<and> prefix (wallet_log w) (wallet_log w1) \<and> (\<forall>b. r = Some b \<longrightarrow> owned i (br_id b) w1)) (\<lambda>_. bidding_on i w0) w"
proof (cases "pr_bidder_id p = br_bidder_id cur")
  case True
  have quiet: "wp (release_quietly env hold) (\<lambda>_ w2. bidding_on i w0 w2 \<and> since w1 w2) (\<lambda>_. bidding_on i w0) w1"
    if "bidding_on i w0 w1" "wallet_log w1 = wallet_log w" for w1
    by (rule wp_release_quietly) (use that hold in \<open>auto simp: granted_def\<close>)
  have raised: "bidding_on i w0 (next_tick w\<lparr>db := s1\<rparr>)" "\<And>b. r = Some b \<Longrightarrow> owned i (br_id b) (next_tick w\<lparr>db := s1\<rparr>)"
    if "raise_own_bid (br_id cur) n t hold (db w) = (Inr r, s1)" for r s1
    using bidding_raise [OF w cur _ that] hold True by auto
  have none: "wp (release_quietly env hold) (\<lambda>_ w2. bidding_on i w0 w2 \<and> prefix (wallet_log w) (wallet_log w2))
      (\<lambda>_. bidding_on i w0) (next_tick w\<lparr>db := s1\<rparr>)"
    if "raise_own_bid (br_id cur) n t hold (db w) = (Inr None, s1)" for s1
    by (rule wp_mono [OF quiet]) (use raised(1) [OF that] in \<open>auto simp: since_def\<close>)
  show ?thesis
    using True w raised none
    by (auto simp: store_auto_bid_def wp_simps since_tick split: option.split prod.split sum.split)
next
  case False
  then show ?thesis
    unfolding store_auto_bid_def if_not_P [OF False]
    by (simp add: wp_simps)
      (rule wp_mono [OF wp_insert_or_release [OF w]]; use hold in auto)
qed

lemma wp_undo_auto_bid:
  assumes w: "bidding_on i w0 w" and "\<And>h. hold = Some h \<Longrightarrow> granted (wallet_log w) h" and own: "owned i (br_id b) w"
  shows "wp (undo_auto_bid env b cur hold) (\<lambda>_. bidding_on i w0) (\<lambda>_. bidding_on i w0) w"
proof -
  have del: "bidding_on i w0 (next_tick w1\<lparr>db := s1\<rparr>)"
    if "bidding_on i w0 w1" "owned i (br_id b) w1" "delete_bid (br_id b) (db w1) = (Inr x, s1)" for w1 x s1
  proof -
    have "bids_elsewhere i s1 = bids_elsewhere i (db w1)"
    proof -
      have "s1 = (db w1)\<lparr>bids := filter (\<lambda>x. br_id x \<noteq> br_id b) (bids (db w1))\<rparr>"
        using that(3) by (simp add: delete_bid_def)
      then show ?thesis
        unfolding bids_elsewhere_def
        by (simp, intro filter_cong [OF refl]) (use that(2) in \<open>auto simp: owned_def\<close>)
    qed
    with that(1,3) show ?thesis
      by (auto simp: bidding_on_def backed_def delete_bid_def distinct_map_filter)
  qed
  show ?thesis
    unfolding undo_auto_bid_def
    by (rule wp_money_bind [OF wp_release_quietly [OF w assms(2)]], assumption)
      (auto simp: wp_simps since_tick intro!: del owned_since [OF own] split: option.split prod.split sum.split)
qed

lemma wp_place_auto_bid:
  assumes w: "bidding_on i w0 w" and cur: "cur \<in> set (bids (db w))" "br_auction_id cur = i"
  shows "wp (place_auto_bid env i a p cur n t) (\<lambda>_. bidding_on i w0) (\<lambda>_. bidding_on i w0) w"
proof -
  have cur_w1: "cur \<in> set (bids (db w1))" "bid_backed (wallet_log w1) cur" if "bidding_on i w0 w1" "since w w1" for w1
    using that cur by (auto simp: since_def bidding_on_def backed_def)
  have since_trans: "since w1 w2 \<Longrightarrow> since w2 w3 \<Longrightarrow> since w1 w3" for w1 w2 w3
    by (auto simp: since_def intro: prefix_order.trans)
  have rest: "wp (bindS (release_current_hold env cur) (\<lambda>_.
         bindS (whenS (br_bidder_id cur \<noteq> pr_bidder_id p) (db_err (publish_outbid_event env a cur n))) (\<lambda>_.
         bindS (db_err (run_stmt env (record_auto_bid i n (snd sch) (fst sch) t))) (\<lambda>updated.
         case updated of
           None \<Rightarrow> undo_auto_bid env b cur hold
         | Some r \<Rightarrow>
             bindS (db_err (run_stmt env (upsert_pending i (lr_end_time r) t))) (\<lambda>_.
             db_err (publish_bid_placed_event env r b)))))) (\<lambda>_. bidding_on i w0) (\<lambda>_. bidding_on i w0) w2"
    if w2: "bidding_on i w0 w2" "bid_backed (wallet_log w2) cur" "owned i (br_id b) w2"
      and hold: "\<And>h. hold = Some h \<Longrightarrow> granted (wallet_log w2) h" for sch hold b w2
    apply (rule wp_money_bind [OF wp_release_current [OF w2(1,2)]])
    apply (rule wp_same_money_bind, intro keeps_intros, assumption)
    apply (rule wp_same_money_bind, intro keeps_intros, assumption)
    subgoal for _ w3 _ w4 updated w5
    proof -
      assume w5: "bidding_on i w0 w5" and "since w2 w3" "since w3 w4" "since w4 w5"
      then have "since w2 w5" using since_trans by blast
      then have "owned i (br_id b) w5" "\<And>h. hold = Some h \<Longrightarrow> granted (wallet_log w5) h"
        using owned_since [OF w2(3)] granted_mono [OF hold] unfolding since_def by blast+
      then have "wp (undo_auto_bid env b cur hold) (\<lambda>_. bidding_on i w0) (\<lambda>_. bidding_on i w0) w5"
        by (intro wp_undo_auto_bid [OF w5])
      moreover have "wp (bindS (db_err (run_stmt env (upsert_pending i (lr_end_time r) t))) (\<lambda>_.
          db_err (publish_bid_placed_event env r b))) (\<lambda>_. bidding_on i w0) (\<lambda>_. bidding_on i w0) w5" for r
        by (rule wp_same_money_end [OF _ w5], intro keeps_intros)
      ultimately show ?thesis by (simp split: option.split)
    qed
    done
  show ?thesis
    unfolding place_auto_bid_def
    apply (rule wp_same_money_bind [OF _ w], intro keeps_intros)
    apply (rule wp_same_money_bind, intro keeps_intros, assumption)
    apply (rule wp_money_bind [OF wp_hold_money], assumption)
    apply (rule wp_money_bind [OF wp_store_auto_bid], assumption)
    subgoal using cur(1) by (simp add: since_def)
    subgoal using cur(2) .
    subgoal by simp
    subgoal for sch w1 _ w2 hold w3 stored w4
    proof -
      assume w4: "bidding_on i w0 w4" "prefix (wallet_log w3) (wallet_log w4) \<and> (\<forall>b. stored = Some b \<longrightarrow> owned i (br_id b) w4)"
        and w3: "bidding_on i w0 w3" "since w2 w3 \<and> (\<forall>h. hold = Some h \<longrightarrow> held_for (wallet_log w3) h (pr_bidder_id p) i n)"
        and "since w w1" "since w1 w2"
      then have "since w w3" using since_trans by blast
      then have "bid_backed (wallet_log w4) cur" using bid_backed_mono [OF cur_w1(2) [OF w3(1)]] w4(2) by blast
      moreover have "granted (wallet_log w4) h" if "hold = Some h" for h
        using granted_mono [of "wallet_log w3" h "wallet_log w4"] w3(2) w4(2) that unfolding granted_def by blast
      ultimately show ?thesis
        using rest [OF w4(1), of _ hold sch] w4 by (cases stored) (simp_all add: wp_ret)
    qed
    done
qed

lemma winning_stored: "find_winning_bid i s = Some b \<Longrightarrow> b \<in> set (bids s) \<and> br_auction_id b = i"
  by (auto simp: find_winning_bid_def bids_of_def dest!: first_row_in)

lemma wp_resolve_proxies:
  assumes w: "bidding_on i w0 w"
  shows "wp (resolve_proxy_auto_bid env i a t) (\<lambda>_. bidding_on i w0) (\<lambda>_. bidding_on i w0) w"
proof -
  have auto_bid: "wp (place_auto_bid env i a p cur n u) (\<lambda>_. bidding_on i w0) (\<lambda>_. bidding_on i w0) (next_tick w1)"
    if "db w1 = db w" "wallet_log w1 = wallet_log w" "find_winning_bid i (db w) = Some cur" for p cur n u w1
    by (rule wp_place_auto_bid)
      (use that winning_stored [OF that(3)] w in \<open>auto simp: bidding_on_def backed_def\<close>)
  show ?thesis
    using w auto_bid [of "next_tick w"]
    by (auto simp: resolve_proxy_auto_bid_def wp_simps since_tick Let_def split: option.split list.split)
qed

lemma wp_accept_bid:
  assumes w: "bidding_on i w0 w" and prev: "\<And>b. prev = Some b \<Longrightarrow> bid_backed (wallet_log w) b"
  shows "wp (accept_bid env i a u t prev res st) (\<lambda>_. bidding_on i w0) (\<lambda>_. bidding_on i w0) w"
  unfolding accept_bid_def Let_def
  apply (rule wp_same_money_bind [OF _ w], intro keeps_intros)
  apply (rule wp_money_bind [OF wp_release_previous], assumption)
  subgoal for _ w1 b using prev [of b] bid_backed_mono by (auto simp: since_def)
  apply (rule wp_money_bind [OF wp_hold_money], assumption)
  apply (rule wp_money_bind [OF wp_insert_or_release], assumption, simp, simp)
  apply (rule wp_same_money_bind, intro keeps_intros, assumption)
  apply (rule wp_same_money_bind, intro keeps_intros, assumption)
  apply (rule wp_same_money_bind, intro keeps_intros, assumption)
  apply (rule wp_money_bind [where P = "\<lambda>_ _. True"])
   apply (simp add: wp_resolve_proxies)
  apply (rule wp_same_money_end, intro keeps_intros, assumption)
  done

lemma wp_of_result_money:
  assumes "bidding_on i w0 w" and "\<And>a. r = Inr a \<Longrightarrow> wp (f a) Q (\<lambda>_. bidding_on i w0) w"
  shows "wp (bindS (map_err g (of_result r)) f) Q (\<lambda>_. bidding_on i w0) w"
  using assms by (simp add: wp_simps split: sum.split)

lemma wp_new_bid:
  assumes w: "bidding_on i w0 w" and prev: "\<And>b. prev = Some b \<Longrightarrow> bid_backed (wallet_log w) b"
  shows "wp (place_new_bid env i a u t mode prev) (\<lambda>_. bidding_on i w0) (\<lambda>_. bidding_on i w0) w"
  unfolding place_new_bid_def
  apply (rule wp_same_money_bind [OF _ w], intro keeps_intros)
  apply (rule wp_same_money_bind, intro keeps_intros, assumption)
  apply (rule wp_of_result_money, assumption)
  apply (rule wp_of_result_money, assumption)
  apply (rule wp_same_money_bind, intro keeps_intros, assumption)
  apply (rule wp_accept_bid, assumption)
  subgoal for _ w1 _ w2 _ _ _ w3 b using prev [of b] bid_backed_mono [of "wallet_log w" b "wallet_log w3"]
    by (auto simp: since_def intro: prefix_order.trans)
  done

lemma bid_keeps_backed:
  assumes "backed w"
  shows "\<exists>i. bidding_on i w (snd (place_bid_internal env j u t mode w))
    \<and> ((\<exists>r. find_by_id i (db w) = Some r \<and> row_open r t) \<or> unchanged w (snd (place_bid_internal env j u t mode w)))"
proof -
  let ?K = "\<lambda>w1. \<exists>i. bidding_on i w w1 \<and> ((\<exists>r. find_by_id i (db w) = Some r \<and> row_open r t) \<or> unchanged w w1)"
  have start: "bidding_on i w w1" if "unchanged w w1" for i w1
    using assms that by (simp add: bidding_on_def unchanged_def backed_def)
  have prev: "bid_backed (wallet_log w1) b" if "unchanged w w1" "find_winning_bid i (db w) = Some b" for i w1 b
    using assms that(1) winning_stored [OF that(2)] by (simp add: unchanged_def backed_def)
  have ends: "wp m (\<lambda>_. ?K) (\<lambda>_. ?K) w1"
    if "bid_admitted (db w) a u t mode p" "wp m (\<lambda>_. bidding_on (lr_id a) w) (\<lambda>_. bidding_on (lr_id a) w) w1"
    for m :: "(place_bid_error, bid_record) svc" and a p w1
    by (rule wp_mono [OF that(2)]) (use that(1) admitted_open [OF that(1)] in \<open>auto simp: bid_admitted_def\<close>)
  have "wp (place_bid_internal env j u t mode) (\<lambda>_. ?K) (\<lambda>_. ?K) w"
  proof (rule wp_place_bid_internal)
    fix a w1 p
    assume un: "unchanged w w1" and adm: "bid_admitted (db w) a u t mode p"
    then show "wp (place_new_bid env (lr_id a) a u t mode p) (\<lambda>_. ?K) (\<lambda>_. ?K) w1"
      by (intro ends [OF adm] wp_new_bid start) (auto simp: bid_admitted_def intro: prev)
  next
    fix a w1 m b
    assume un: "unchanged w w1" and adm: "bid_admitted (db w) a u t mode (Some b)"
    then show "wp (raise_own_maximum env (lr_id a) a u m t b) (\<lambda>_. ?K) (\<lambda>_. ?K) w1"
      by (intro ends [OF adm] wp_same_money_end start keeps_intros)
  qed (use start in auto)
  then show ?thesis by (simp add: wp_final)
qed

end
