(* ===== verification/MoneyFacts.thy ===== *)
theory MoneyFacts
  imports BidMoney
begin

text \<open>
  Where the money is. Every stored bid that names a hold has a hold the wallet granted for its bidder, its
  auction and its amount; a hold is released or paid out only after it was granted; and a payment is for a
  won auction, of its final price. This holds after any calls with any faults and any answers of the wallet.
\<close>

section \<open>What was paid\<close>

text \<open>An auction won at the price \<open>n\<close>, and the payments that were asked for.\<close>

definition sold :: "store \<Rightarrow> string \<Rightarrow> i64 \<Rightarrow> bool" where
  "sold s i n \<longleftrightarrow> (\<exists>r \<in> set (listings s). lr_id r = i \<and> lr_status r = ''WON''
     \<and> lr_current_highest_bid_cents r = Some n \<and> lr_reserve_price_cents r \<le> n)"

definition paid_backed :: "world \<Rightarrow> bool" where
  "paid_backed w \<longleftrightarrow> (\<forall>h r. ConvertCall h r \<in> set (wallet_log w)
     \<longrightarrow> (\<exists>u i n. held_for (wallet_log w) h u i n \<and> sold (db w) i n))"

text \<open>A won auction has the price of its best bid.\<close>

definition won_prices :: "store \<Rightarrow> bool" where
  "won_prices s \<longleftrightarrow> (\<forall>r \<in> set (listings s). lr_status r = ''WON'' \<longrightarrow>
     (\<exists>n. lr_current_highest_bid_cents r = Some n \<and> lr_reserve_price_cents r \<le> n
        \<and> (\<forall>b. find_winning_bid (lr_id r) s = Some b \<longrightarrow> br_bid_amount_cents b = n)))"

definition money_ok :: "world \<Rightarrow> bool" where
  "money_ok w \<longleftrightarrow> store_ok (db w) \<and> backed w \<and> won_prices (db w) \<and> paid_backed w"

lemma conversion_iff: "ConvertCall h r \<in> set log \<longleftrightarrow> ConvertCall h r \<in> set (conversions log)"
  by (simp add: conversions_def)

lemma paid_backed_mono:
  assumes "paid_backed w" and "prefix (wallet_log w) (wallet_log w1)"
    and "conversions (wallet_log w1) = conversions (wallet_log w)" and "\<And>i n. sold (db w) i n \<Longrightarrow> sold (db w1) i n"
  shows "paid_backed w1"
  using assms held_for_mono [OF _ assms(2)] unfolding paid_backed_def conversion_iff [of _ _ "wallet_log w1"]
  by (metis conversion_iff)

text \<open>A sale is final: it is a decided entry of the book.\<close>

lemma sold_book:
  assumes "store_ok s"
  shows "sold s i n \<longleftrightarrow> (\<exists>e. book_of s i = Some e \<and> be_outcome e = Some OutcomeWon \<and> be_price e = Some n \<and> be_reserve e \<le> n)"
proof -
  have "sold s i n \<longleftrightarrow> (\<exists>r. find_by_id i s = Some r \<and> lr_status r = ''WON''
     \<and> lr_current_highest_bid_cents r = Some n \<and> lr_reserve_price_cents r \<le> n)"
  proof
    assume "sold s i n"
    then show "\<exists>r. find_by_id i s = Some r \<and> lr_status r = ''WON'' \<and> lr_current_highest_bid_cents r = Some n
        \<and> lr_reserve_price_cents r \<le> n"
      using find_by_id_unique [OF assms] unfolding sold_def by blast
  qed (use find_by_id_member in \<open>auto simp: sold_def\<close>)
  moreover have "outcome_of_text st = Some OutcomeWon \<longleftrightarrow> st = ''WON''" for st by (simp add: outcome_of_text_def)
  ultimately show ?thesis by (cases "find_by_id i s") (simp_all add: book_of_def entry_of_def)
qed

lemma sold_stays:
  assumes "keeps_book w w1" and "store_ok (db w)" and "sold (db w) i n"
  shows "sold (db w1) i n"
proof -
  have w1: "store_ok (db w1)" "book_steps (book_of (db w)) (book_of (db w1))"
    using assms(1,2) by (simp_all add: keeps_book_def)
  obtain e where e: "book_of (db w) i = Some e" "be_outcome e = Some OutcomeWon" "be_price e = Some n" "be_reserve e \<le> n"
    using assms(3) unfolding sold_book [OF assms(2)] by blast
  then have "book_of (db w1) i = Some e" using book_steps_decided [OF w1(2)] by simp
  with e show ?thesis unfolding sold_book [OF w1(1)] by blast
qed

text \<open>Steps that touch neither bids, listings nor the wallet.\<close>

lemma money_ok_quiet:
  assumes "money_ok w" and "same_money w w1" and "same_listings w w1" and "stepping w w1"
  shows "money_ok w1"
proof -
  have "store_ok (db w1)" using assms(1,4) steps_store_ok by (auto simp: money_ok_def stepping_def)
  moreover have "backed w1" using assms(1,2) by (simp add: money_ok_def backed_def same_money_def)
  moreover have "won_prices (db w1)"
    using assms(1-3) by (simp add: money_ok_def won_prices_def same_listings_def same_money_def find_winning_bid_def bids_of_def)
  moreover have "paid_backed w1"
    by (rule paid_backed_mono [of w]) (use assms in \<open>simp_all add: money_ok_def same_money_def same_listings_def sold_def\<close>)
  ultimately show ?thesis by (simp add: money_ok_def)
qed

section \<open>Bids keep it\<close>

lemma bid_keeps_won_rows:
  assumes ok: "store_ok (db w)" and r: "r \<in> set (listings (db w1))" "lr_status r = ''WON''"
    and w1: "w1 = snd (place_bid_internal env j u t mode w)"
  shows "r \<in> set (listings (db w))"
proof -
  have ok1: "store_ok (db w1)"
    using step_service.placed_bid [of env j u t mode] ok steps_store_ok unfolding w1 keeps_def stepping_def by blast
  have "map lr_id rows1 = map lr_id rows" if "list_all2 risen rows rows1" for rows rows1
    using that by (induction rule: list_all2_induct) (auto simp: risen_def listing_terms_def)
  then have "map lr_id (listings (db w1)) = map lr_id (listings (db w))"
    using prices_service.placed_bid [of env j u t mode] unfolding w1 keeps_def prices_rise_def by blast
  then have "lr_id ` set (listings (db w1)) = lr_id ` set (listings (db w))" by (metis set_map)
  then obtain r0 where r0: "r0 \<in> set (listings (db w))" "lr_id r0 = lr_id r" using r(1) by (metis imageE imageI)
  show ?thesis
  proof (cases "undecided (lr_status r0)")
    case True
    then have "open_at (lr_id r) (db w)"
      using r0 find_by_id_unique [OF ok] unfolding open_at_def by (metis option.inject)
    then have "open_at (lr_id r) (db w1)" using bid_stays_open [OF ok] unfolding w1 stays_open_def by blast
    with r show ?thesis by (auto simp: open_at_def undecided_iff)
  next
    case False
    then have "r0 \<in> set (listings (db w1))" using closed_listing_kept [OF ok r0(1)] decided_not_open unfolding w1 by blast
    with r r0 find_by_id_unique [OF ok1] have "r0 = r" by (metis option.inject)
    with r0 show ?thesis by simp
  qed
qed

lemma bid_keeps_money:
  assumes "money_ok w"
  shows "money_ok (snd (place_bid_internal env j u t mode w))"
proof -
  let ?w1 = "snd (place_bid_internal env j u t mode w)"
  have w: "store_ok (db w)" "backed w" "won_prices (db w)" "paid_backed w" using assms by (simp_all add: money_ok_def)
  have book: "keeps_book w ?w1" using keeps_book_bid by (simp add: keeps_def)
  from bid_keeps_backed [OF w(2)] obtain i where i: "bidding_on i w ?w1"
      "(\<exists>r. find_by_id i (db w) = Some r \<and> row_open r t) \<or> unchanged w ?w1" by blast
  have "won_prices (db ?w1)"
    unfolding won_prices_def
  proof (intro ballI impI)
    fix r
    assume r: "r \<in> set (listings (db ?w1))" "lr_status r = ''WON''"
    note r0 = bid_keeps_won_rows [OF w(1) r refl]
    have "bids_of (lr_id r) (db ?w1) = bids_of (lr_id r) (db w)"
    proof (cases "lr_id r = i")
      case True
      then have "\<not> row_open r1 t" if "find_by_id i (db w) = Some r1" for r1
        using that find_by_id_unique [OF w(1) r0] r(2) decided_not_open by (auto simp: undecided_iff)
      with i(2) show ?thesis by (auto simp: unchanged_def)
    next
      case False
      have "filter (\<lambda>b. br_auction_id b = lr_id r) bs = filter (\<lambda>b. br_auction_id b = lr_id r) (filter (\<lambda>b. br_auction_id b \<noteq> i) bs)" for bs
        using False by (auto intro: filter_cong)
      then show ?thesis using i(1) unfolding bidding_on_def bids_elsewhere_def bids_of_def by metis
    qed
    with w(3) r0 r(2) show "\<exists>n. lr_current_highest_bid_cents r = Some n \<and> lr_reserve_price_cents r \<le> n
        \<and> (\<forall>b. find_winning_bid (lr_id r) (db ?w1) = Some b \<longrightarrow> br_bid_amount_cents b = n)"
      by (simp add: won_prices_def find_winning_bid_def)
  qed
  moreover have "paid_backed ?w1"
    by (rule paid_backed_mono [OF w(4)]) (use i(1) sold_stays [OF book w(1)] in \<open>simp_all add: bidding_on_def\<close>)
  ultimately show ?thesis
    using i(1) book w(1) by (simp add: money_ok_def bidding_on_def keeps_book_def)
qed

section \<open>Closing keeps it\<close>

definition job_work :: "world \<Rightarrow> world \<Rightarrow> bool" where
  "job_work w w1 \<longleftrightarrow> same_money w w1 \<and> ledger_same w w1 \<and> stepping w w1"

lemma job_work_keeps: "keeps same_money m \<Longrightarrow> keeps ledger_same m \<Longrightarrow> keeps stepping m \<Longrightarrow> keeps job_work m"
  by (simp add: keeps_def job_work_def)

interpretation job_work: run_relation job_work
  by unfold_locales
    (auto simp: job_work_def same_money.R_tick ledger.R_tick stepping.R_tick same_money.R_refl ledger.R_refl stepping.R_refl
      intro: same_money.R_trans ledger.R_trans stepping.R_trans)

interpretation job_work_statements: closure_statements job_work env for env
  by unfold_locales
    ((rule job_work_keeps; intro keeps_intros) | simp add: job_work_def same_money_def ledger_same_def stepping_def unchanged_def)+

lemma job_work_ok: "money_ok w \<Longrightarrow> job_work w w1 \<Longrightarrow> money_ok w1"
  using money_ok_quiet [of w w1] unfolding job_work_def ledger_same_def same_listings_def by blast

text \<open>What is known when the settlement of the auction \<open>a\<close> with the bids \<open>bs\<close> is due.\<close>

definition settlement_due :: "listing_record \<Rightarrow> bid_record list \<Rightarrow> world \<Rightarrow> bool" where
  "settlement_due a bs w \<longleftrightarrow> money_ok w \<and> set bs \<subseteq> set (bids (db w)) \<and> (\<forall>b \<in> set bs. br_auction_id b = lr_id a)
     \<and> (lr_status a = ''WON'' \<longrightarrow> (\<forall>b. first_row bs = Some b \<longrightarrow> sold (db w) (lr_id a) (br_bid_amount_cents b)))"

lemma settlement_due_later: "settlement_due a bs w \<Longrightarrow> job_work w w1 \<Longrightarrow> settlement_due a bs w1"
  using job_work_ok by (auto simp: settlement_due_def job_work_def ledger_same_def sold_def)

lemma settlement_due_log:
  assumes due: "settlement_due a bs w" and c: "call_backed (wallet_log w) c"
    and paid: "\<And>h r. c = ConvertCall h r \<Longrightarrow> \<exists>u i n. held_for (wallet_log w) h u i n \<and> sold (db w) i n"
  shows "settlement_due a bs (log_wallet c w)"
proof -
  have mono: "prefix (wallet_log w) (wallet_log w @ [c])" by simp
  have "backed (log_wallet c w)"
    using due c bid_backed_mono [OF _ mono] by (auto simp: settlement_due_def money_ok_def backed_def)
  moreover have "paid_backed (log_wallet c w)"
    unfolding paid_backed_def
  proof (intro allI impI)
    fix h r
    assume "ConvertCall h r \<in> set (wallet_log (log_wallet c w))"
    then have "\<exists>u i n. held_for (wallet_log w) h u i n \<and> sold (db w) i n"
      using due paid by (auto simp: settlement_due_def money_ok_def paid_backed_def)
    then show "\<exists>u i n. held_for (wallet_log (log_wallet c w)) h u i n \<and> sold (db (log_wallet c w)) i n"
      using held_for_mono [OF _ mono] by fastforce
  qed
  ultimately show ?thesis using due by (simp add: settlement_due_def money_ok_def)
qed

lemma due_backed: "settlement_due a bs w \<Longrightarrow> b \<in> set bs \<Longrightarrow> bid_backed (wallet_log w) b"
  by (auto simp: settlement_due_def money_ok_def backed_def)

lemma wp_release_money:
  assumes "settlement_due a bs w" and "set cs \<subseteq> set bs"
  shows "wp (release_holds wallet cs) (\<lambda>_. settlement_due a bs) (\<lambda>_. settlement_due a bs) w"
  using assms
proof (induction cs arbitrary: w)
  case Nil
  then show ?case by (simp add: wp_ret)
next
  case (Cons b cs)
  have logged: "settlement_due a bs (log_wallet (ReleaseCall h r) w)" if "br_wallet_hold_id b = Some h" for h r
    by (rule settlement_due_log [OF Cons.prems(1)])
      (use bid_backed_granted [OF due_backed [OF Cons.prems(1), of b] that] Cons.prems(2) in simp_all)
  have rest: "wp (release_holds wallet cs) (\<lambda>_. settlement_due a bs) (\<lambda>_. settlement_due a bs) w1"
    if "settlement_due a bs w1" for w1
    by (rule Cons.IH [OF that]) (use Cons.prems(2) in simp)
  show ?case
    using Cons.prems(1) logged rest by (auto simp: wp_simps split: option.split sum.split)
qed

lemma wp_payment_money:
  assumes due: "settlement_due a bs w"
  shows "wp (execute_post_closure_side_effects env a bs) (\<lambda>_. settlement_due a bs) (\<lambda>_. settlement_due a bs) w"
proof -
  have pay: "settlement_due a bs (log_wallet (ConvertCall h r) w)"
    if "lr_status a = ''WON''" "first_row bs = Some b" "br_wallet_hold_id b = Some h" for b h r
  proof (rule settlement_due_log [OF due])
    have b: "b \<in> set bs" using that(2) by (rule first_row_in)
    with due have "br_auction_id b = lr_id a" by (simp add: settlement_due_def)
    then have "held_for (wallet_log w) h (br_bidder_id b) (lr_id a) (br_bid_amount_cents b)"
      using due_backed [OF due b] that(3) by (simp add: bid_backed_def)
    moreover have "sold (db w) (lr_id a) (br_bid_amount_cents b)" using due that by (simp add: settlement_due_def)
    ultimately show "\<exists>u i n. held_for (wallet_log w) h1 u i n \<and> sold (db w) i n" if "ConvertCall h r = ConvertCall h1 r1" for h1 r1
      using that by blast
    from \<open>held_for _ _ _ _ _\<close> show "call_backed (wallet_log w) (ConvertCall h r)" by (auto simp: granted_def)
  qed
  show ?thesis
    using due pay wp_release_money [OF due]
    by (auto simp: execute_post_closure_side_effects_def wp_simps split: option.split sum.split)
qed

lemma wp_settle_due:
  assumes due: "settlement_due a bs w"
  shows "wp (settle env a bs t) (\<lambda>_. money_ok) (\<lambda>_. money_ok) w"
proof -
  have ok: "settlement_due a bs w1 \<Longrightarrow> money_ok w1" for w1 by (simp add: settlement_due_def)
  have last: "wp m (\<lambda>_. money_ok) (\<lambda>_. money_ok) w1" if "settlement_due a bs w1" "keeps job_work m"
    for m :: "(close_session_error, unit) svc" and w1
    by (rule keeps_wp [OF that(2)]) (rule job_work_ok [OF ok [OF that(1)]])
  show ?thesis
    unfolding settle_def wp_bindS wp_attempt
    by (rule wp_mono [OF wp_payment_money [OF due]]; simp only: sum.case;
        erule last; intro keeps_intros job_work_keeps)
qed

text \<open>A closure, committed.\<close>

lemma decided_won:
  assumes "fst (closing_decision a s) = ''WON''"
  shows "\<exists>n. snd (closing_decision a s) = Some n \<and> lr_reserve_price_cents a \<le> n
    \<and> (\<forall>b. find_winning_bid (lr_id a) s = Some b \<longrightarrow> br_bid_amount_cents b = n)"
  using assms
  by (auto simp: closing_decision_def Let_def find_winning_bid_def list_by_auction_id_desc_def first_row_def
      split: option.splits if_splits)

lemma closed_won_prices:
  assumes "store_ok s" and "won_prices s" and "closed_by_step s s1"
  shows "won_prices s1"
proof -
  obtain a now where a: "a \<in> set (listings s)"
      "listings s1 = update_where (\<lambda>r. lr_id r = lr_id a) (closed_row s a now) (listings s)" "bids s1 = bids s"
    using assms(3) by (auto simp: closed_by_step_def)
  have only: "r = a" if "r \<in> set (listings s)" "lr_id r = lr_id a" for r
    using that a(1) find_by_id_unique [OF assms(1)] by (metis option.inject)
  have bid: "find_winning_bid i s1 = find_winning_bid i s" for i by (simp add: find_winning_bid_def bids_of_def a(3))
  show ?thesis
    unfolding won_prices_def bid
  proof (intro ballI impI)
    fix r
    assume r: "r \<in> set (listings s1)" "lr_status r = ''WON''"
    then consider "r \<in> set (listings s)" | "r = closed_row s a now a" unfolding a(2) using only by (auto simp: set_update_where)
    then show "\<exists>n. lr_current_highest_bid_cents r = Some n \<and> lr_reserve_price_cents r \<le> n
        \<and> (\<forall>b. find_winning_bid (lr_id r) s = Some b \<longrightarrow> br_bid_amount_cents b = n)"
      by cases (use assms(2) r(2) decided_won [of a s] in \<open>auto simp: won_prices_def closed_row_def\<close>)
  qed
qed

lemma closed_settlement_due:
  assumes ok: "money_ok w" and a: "find_by_id_for_update i (db w) = Some a" "lr_end_time a \<le> now"
      "lr_status a \<noteq> ''WON''" "lr_status a \<noteq> ''UNSOLD''"
    and c: "closed_in a now (db w) r" and w1: "db w1 = snd r" "wallet_log w1 = wallet_log w"
  shows "settlement_due (fst (fst r)) (snd (fst r)) w1"
proof -
  have w: "store_ok (db w)" "backed w" "won_prices (db w)" "paid_backed w" using ok by (simp_all add: money_ok_def)
  have step: "closed_by_step (db w) (db w1)" using closed_in_by_step [OF c a] w1(1) by simp
  have same: "bids (db w1) = bids (db w)" using step by (auto simp: closed_by_step_def)
  have steps: "stepping w w1" using closed_in_step [OF c a] w1 by (auto simp: stepping_def)
  then have ok1: "store_ok (db w1)" using w(1) steps_store_ok by (auto simp: stepping_def)
  have book: "keeps_book w w1" by (rule keeps_book_closed [OF steps disjI2 [OF step]])
  have "paid_backed w1"
    by (rule paid_backed_mono [OF w(4)]) (use w1(2) sold_stays [OF book w(1)] in simp_all)
  moreover have won: "won_prices (db w1)" by (rule closed_won_prices [OF w(1,3) step])
  ultimately have money: "money_ok w1" using ok1 w(2) same w1(2) by (simp add: money_ok_def backed_def)
  obtain t1 j payload time e1 where u: "snd (fst r) = list_by_auction_id_desc (lr_id a) (db w)"
      "update_lifecycle_status (lr_id a) (fst (closing_decision a (db w))) (snd (closing_decision a (db w))) now (db w)
        = (Inr (fst (fst r)), t1)"
      "outbox_insert (new_outbox_event j (lr_id (fst (fst r))) ''AuctionEnded'' payload time) t1 = (Inr e1, snd r)"
    using c by (auto simp: closed_in_def)
  have id: "lr_id (fst (fst r)) = lr_id a" using update_lifecycle_status_id [OF u(2)] by simp
  have row: "fst (fst r) \<in> set (listings (db w1))"
  proof -
    have "fst (fst r) \<in> set (listings t1)" by (rule update_lifecycle_status_row [OF u(2)])
    moreover have "listings (snd r) = listings t1" by (rule outbox_insert_listings [OF u(3)])
    ultimately show ?thesis by (simp add: w1(1))
  qed
  have "sold (db w1) (lr_id a) (br_bid_amount_cents b)"
    if "lr_status (fst (fst r)) = ''WON''" "first_row (snd (fst r)) = Some b" for b
  proof -
    have "find_winning_bid (lr_id a) (db w1) = Some b"
      using that(2) same u(1) by (simp add: find_winning_bid_def list_by_auction_id_desc_def bids_of_def)
    then show ?thesis
      using won row that(1) id unfolding won_prices_def sold_def by fastforce
  qed
  then show ?thesis
    using money u(1) same id by (auto simp: settlement_due_def list_by_auction_id_desc_def bids_of_def)
qed

lemma resumed_settlement_due:
  assumes ok: "money_ok w" and a: "find_by_id_for_update i (db w) = Some a"
  shows "settlement_due a (list_by_auction_id_desc (lr_id a) (db w)) w"
proof -
  have "a \<in> set (listings (db w))" using a by (auto simp: find_by_id_for_update_def dest: find_SomeD)
  moreover have "find_winning_bid (lr_id a) (db w) = Some b" if "first_row (list_by_auction_id_desc (lr_id a) (db w)) = Some b" for b
    using that by (simp add: find_winning_bid_def list_by_auction_id_desc_def)
  ultimately have "sold (db w) (lr_id a) (br_bid_amount_cents b)"
    if "lr_status a = ''WON''" "first_row (list_by_auction_id_desc (lr_id a) (db w)) = Some b" for b
    using ok that unfolding money_ok_def won_prices_def sold_def by fastforce
  with ok show ?thesis by (auto simp: settlement_due_def list_by_auction_id_desc_def bids_of_def)
qed

lemma settlement_due_ok: "settlement_due a bs w \<Longrightarrow> money_ok w"
  by (simp add: settlement_due_def)

lemma close_keeps_money: "money_ok w \<Longrightarrow> money_ok (snd (close_auction env i w))"
  unfolding close_auction_def close_handler_close_def
  by (rule job_work_statements.close_core_settles [where S = settlement_due])
    (blast intro: job_work_ok closed_settlement_due settlement_due_later settlement_due_ok wp_settle_due)+

lemma process_keeps_money: "money_ok w \<Longrightarrow> money_ok (snd (process_one_pending_closure env w))"
  unfolding process_one_pending_closure_def close_handler_process_one_pending_def
  by (rule job_work_statements.process_one_settles [where S = settlement_due])
    (blast intro: job_work_ok closed_settlement_due resumed_settlement_due settlement_due_later settlement_due_ok
      wp_settle_due)+

section \<open>The other calls\<close>

definition rows_open :: "world \<Rightarrow> world \<Rightarrow> bool" where
  "rows_open w w1 \<longleftrightarrow> (\<forall>r \<in> set (listings (db w1)). r \<in> set (listings (db w)) \<or> undecided (lr_status r))"

interpretation rows_open: run_relation rows_open
  by unfold_locales (auto simp: rows_open_def)

lemma rows_open_stmts [keeps_intros]:
  "keeps rows_open (run_stmt env (listing_insert (new_listing_of_command c now)))"
  "keeps rows_open (run_stmt env (upsert_pending i due t))"
  "keeps rows_open (run_stmt env (outbox_insert ev))"
  by (rule rows_open.keeps_run_stmt;
      auto simp: rows_open_def stmt_defs Let_def listing_of_new_def new_listing_of_command_def initial_status_def undecided_iff
        split: stmt_splits)+

lemma create_relations:
  "keeps same_money (create_auction env c)" "keeps rows_open (create_auction env c)"
  unfolding create_auction_def create_auction_handler_def create_auction_core_def validate_listing_for_auction_def
    publish_auction_created_event_def
  by (intro keeps_intros)+

lemma create_keeps_money:
  assumes "money_ok w"
  shows "money_ok (snd (create_auction env c w))"
proof -
  let ?w1 = "snd (create_auction env c w)"
  have w: "store_ok (db w)" "backed w" "won_prices (db w)" "paid_backed w" using assms by (simp_all add: money_ok_def)
  have book: "keeps_book w ?w1" using keeps_book_create by (simp add: keeps_def)
  have same: "same_money w ?w1" and rows: "rows_open w ?w1" using create_relations by (simp_all add: keeps_def)
  have "won_prices (db ?w1)"
    using w(3) same rows
    by (auto simp: won_prices_def rows_open_def same_money_def find_winning_bid_def bids_of_def undecided_iff)
  moreover have "paid_backed ?w1"
    by (rule paid_backed_mono [OF w(4)]) (use same sold_stays [OF book w(1)] in \<open>simp_all add: same_money_def\<close>)
  ultimately show ?thesis using w(1,2) book same by (simp add: money_ok_def keeps_book_def backed_def same_money_def)
qed

interpretation money_relay: relay_statements same_money env for env
  by unfold_locales (intro keeps_intros)+

lemma publish_keeps_money: "money_ok w \<Longrightarrow> money_ok (snd (publish_pending env l pub w))"
proof -
  have "keeps same_money (publish_pending env l pub)"
    by (rule money_relay.relay_turn)
  then show "money_ok w \<Longrightarrow> ?thesis"
    using same_listings_publish stepping_publish_pending by (auto simp: keeps_def intro: money_ok_quiet)
qed

lemma delete_proxy_keeps_money: "money_ok w \<Longrightarrow> money_ok (snd (delete_proxy_bid env i u w))"
proof -
  have "unchanged w w1 \<Longrightarrow> same_money w w1" for w w1 by (simp add: unchanged_def same_money_def)
  then have "keeps same_money (canonical_auction_id env i)"
    using unchanged_queries(4) [of env i] by (auto simp: keeps_def)
  then have "keeps same_money (delete_proxy_bid env i u)"
    unfolding delete_proxy_bid_def list_bid_query_delete_proxy_bid_def delete_proxy_bid_core_def by (intro keeps_intros)
  then show "money_ok w \<Longrightarrow> ?thesis"
    using same_listings_delete_proxy stepping_delete_proxy_bid_core
    by (auto simp: keeps_def delete_proxy_bid_def list_bid_query_delete_proxy_bid_def intro: money_ok_quiet)
qed

lemma money_rounds: "money_ok w \<Longrightarrow> money_ok (snd (close_rounds env n report w :: ('e + _) \<times> _))"
proof (induction n arbitrary: report w)
  case (Suc n)
  have "money_ok (snd (process_one_pending_closure env w))" using process_keeps_money Suc.prems by blast
  with Suc.IH show ?case
    by (cases "process_one_pending_closure env w"; cases "fst (process_one_pending_closure env w)")
      (auto simp: bindS_def attempt_def ret_def split: option.split)
qed (simp add: ret_def)

lemma exec_keeps_money: "money_ok w \<Longrightarrow> money_ok (service_exec env op w)"
  by (cases op)
    (simp_all add: create_keeps_money bid_entry_defs bid_keeps_money delete_proxy_keeps_money close_keeps_money
      close_pending_def money_rounds publish_keeps_money)

lemma run_keeps_money: "money_ok w \<Longrightarrow> money_ok (service_run calls w)"
  by (induction calls arbitrary: w) (auto simp: service_run_def exec_keeps_money)

section \<open>Where the money is\<close>

lemma start_money_ok: "money_ok start_world"
  using empty_store_ok
  by (simp add: money_ok_def start_world_def backed_def log_backed_def won_prices_def paid_backed_def)
    (simp add: empty_store_def)

text \<open>C3: After any calls with any faults and any answers of the wallet: a stored bid that names a hold has a
  hold the wallet granted for its bidder, its auction and its amount; every hold that was released or paid
  out had been granted before; and every payment was asked for a hold on a won auction, of the amount of
  the auction's final price, which meets the reserve.\<close>

theorem money_follows_the_bids:
  "let w = service_run calls start_world in
     (\<forall>b \<in> set (bids (db w)). bid_backed (wallet_log w) b) \<and> log_backed (wallet_log w) \<and> paid_backed w"
proof -
  have "money_ok (service_run calls start_world)" by (rule run_keeps_money [OF start_money_ok])
  then show ?thesis by (simp add: money_ok_def backed_def)
qed

text \<open>A bid on a new auction, and the hold behind it.\<close>

definition one_bid :: "(env \<times> service_op) list" where
  "one_bid = [(calm_env, CreateAuction later_command), (calm_env, PlaceBid ''l1'' ''u1'' 1500 2000)]"

lemma one_bid_stored: "map (\<lambda>b. (br_wallet_hold_id b, br_bidder_id b, br_auction_id b, br_bid_amount_cents b))
    (bids (db (service_run one_bid start_world))) = [(Some ''id-16'', ''u1'', ''l1'', 1500)]"
  by code_simp

theorem money_follows_the_bids_witness:
  "held_for (wallet_log (service_run one_bid start_world)) ''id-16'' ''u1'' ''l1'' 1500"
proof -
  obtain b where b: "bids (db (service_run one_bid start_world)) = [b]" "br_wallet_hold_id b = Some ''id-16''"
      "br_bidder_id b = ''u1''" "br_auction_id b = ''l1''" "br_bid_amount_cents b = 1500"
    using one_bid_stored by auto
  with money_follows_the_bids [of one_bid] show ?thesis by (simp add: Let_def bid_backed_def)
qed

end
