(* ===== verification/ProcessFacts.thy ===== *)
theory ProcessFacts
  imports Process HttpFacts PublisherFacts MoneyFacts QueueFacts ClientFacts
begin

text \<open>
  The process as a whole: what every call of the service keeps, every request and every turn of the
  schedulers keeps, so the invariants of the tables, the book of auctions and the holds hold in any run of
  the process. A closing interval of zero leaves it without a closure scheduler.
\<close>

section \<open>What every event of the process keeps\<close>

text \<open>A relation the service's calls respect, the calls that close auctions only where \<open>closes\<close>.\<close>

definition closing_op :: "service_op \<Rightarrow> bool" where
  "closing_op op \<longleftrightarrow> op = ClosePending \<or> (\<exists>i. op = CloseAuction i)"

definition closing_request :: "http_request \<Rightarrow> bool" where
  "closing_request q \<longleftrightarrow> (\<exists>i. q = ReqCloseAuction i)"

text \<open>An event that may close an auction.\<close>

definition closing_event :: "tasks \<Rightarrow> process_event \<Rightarrow> bool" where
  "closing_event t e \<longleftrightarrow> (case e of
       Request _ _ q \<Rightarrow> closing_request q
     | ClosureTurn _ \<Rightarrow> tk_closure_interval_ms t \<noteq> 0
     | RelayTurn _ \<Rightarrow> False)"

lemma handler_keepsD: "handler_keeps R h \<Longrightarrow> R (web_world s) (web_world (snd (h s)))"
  by (simp add: handler_keeps_def)

locale service_relation = run_relation +
  fixes closes :: bool
  assumes R_unchanged: "unchanged w w1 \<Longrightarrow> R w w1"
    and R_exec: "closes \<or> \<not> closing_op op \<Longrightarrow> R w (service_exec env op w)"
begin

lemma calls_kept [keeps_intros]:
  "keeps R (create_auction env c)"
  "keeps R (place_bid_and_persist env i u n t)"
  "keeps R (place_proxy_bid_and_persist env i u m t)"
  "keeps R (delete_proxy_bid env i u)"
  "keeps R (publish_pending env l pub)"
  using R_exec [of "CreateAuction c" _ env] R_exec [of "PlaceBid i u n t" _ env] R_exec [of "PlaceProxyBid i u m t" _ env]
    R_exec [of "DeleteProxyBid i u" _ env] R_exec [of "PublishPending l pub" _ env]
  by (simp_all add: keeps_def closing_op_def)

lemma closing_kept: "closes \<Longrightarrow> keeps R (close_auction env i)"
    "closes \<Longrightarrow> R w (snd (close_pending env w :: (unit + _) \<times> _))"
  using R_exec [of "CloseAuction i" _ env] R_exec [of ClosePending w env] by (simp_all add: keeps_def)

lemma reading_handler: "handler_keeps unchanged h \<Longrightarrow> handler_keeps R h"
  by (auto simp: handler_keeps_def intro: R_unchanged)

lemmas reading_handlers = unchanged_handlers [THEN reading_handler]

lemma writing_handlers:
  "handler_keeps R (http_create_auction web env hs q)"
  "handler_keeps R (http_place_bid web env hs i bq)"
  "handler_keeps R (http_place_proxy_bid web env hs i pq)"
  "handler_keeps R (http_delete_proxy_bid env hs i u)"
  unfolding http_create_auction_def http_place_bid_def http_place_proxy_bid_def http_delete_proxy_bid_def
  by (intro handler_intros keeps_intros)+

lemma closing_handler: "closes \<Longrightarrow> handler_keeps R (http_close_auction web env i)"
  unfolding http_close_auction_def by (intro handler_intros closing_kept)

lemma served:
  assumes "closes \<or> \<not> closing_request q"
  shows "R (web_world s) (web_world (snd (dispatch web env hs q s)))"
  using assms
  by (cases q)
    (auto simp: closing_request_def R_refl intro!: handler_keepsD writing_handlers closing_handler reading_handlers)

lemma stepped:
  assumes "closes \<or> \<not> closing_event t e"
  shows "R (web_world (pr_web p)) (web_world (pr_web (process_step web tr am t e p)))"
proof (cases e)
  case (Request env hs q)
  then show ?thesis using assms by (simp add: served closing_event_def)
next
  case (ClosureTurn env)
  with assms show ?thesis by (auto simp: closing_event_def R_refl intro!: closing_kept)
next
  case (RelayTurn env)
  obtain x w1 st1 where r: "relay_pending (in_process t env) (tk_outbox_batch_size t)
      (rmq_publish tr (in_process t env) am (tk_publisher t)) (web_world (pr_web p)) (pr_amqp p) = (x, w1, st1)"
    by (metis prod_cases3)
  from relay_pending_stateless [OF this] obtain pub where
    "publish_pending (in_process t env) (tk_outbox_batch_size t) pub (web_world (pr_web p)) = (x, w1)" by blast
  then have "R (web_world (pr_web p)) w1"
    using calls_kept(5) [of "in_process t env" "tk_outbox_batch_size t" pub] by (metis keeps_def snd_conv)
  with RelayTurn r show ?thesis by (simp add: R_refl)
qed

lemma ran:
  assumes "closes \<or> (\<forall>e \<in> set es. \<not> closing_event t e)"
  shows "R (web_world (pr_web p)) (web_world (pr_web (process_run web tr am t es p)))"
  using assms
proof (induction es arbitrary: p)
  case Nil
  then show ?case by (simp add: process_run_def R_refl)
next
  case (Cons e es)
  then show ?case
    using R_trans [OF stepped [of t e p web tr am] Cons.IH [of "process_step web tr am t e p"]]
    by (auto simp: process_run_def)
qed

end

section \<open>The invariants of the process\<close>

definition safe_step :: "world \<Rightarrow> world \<Rightarrow> bool" where
  "safe_step w w1 \<longleftrightarrow> stepping w w1 \<and> keeps_book w w1 \<and> (money_ok w \<longrightarrow> money_ok w1)"

interpretation safe: service_relation safe_step True
proof
  fix w w1 w2 :: world
  show "safe_step w w" by (simp add: safe_step_def stepping.R_refl keeps_book.R_refl)
  show "safe_step w w1 \<Longrightarrow> safe_step w1 w2 \<Longrightarrow> safe_step w w2"
    unfolding safe_step_def using stepping.R_trans keeps_book.R_trans by blast
  have un: "safe_step w w1" if "unchanged w w1" for w w1
  proof -
    have "same_money w w1" "same_listings w w1" "stepping w w1"
      using that stepping_unchanged by (auto simp: same_money_def same_listings_def unchanged_def)
    then show ?thesis
      using keeps_book_same money_ok_quiet unfolding safe_step_def same_listings_def by blast
  qed
  then show "unchanged w w1 \<Longrightarrow> safe_step w w1" .
  show "safe_step w (next_tick w)" by (rule un) (simp add: unchanged_def)
  show "safe_step w (service_exec env op w)" for env op
    by (simp add: safe_step_def exec_steps keeps_book_exec exec_keeps_money)
qed

lemma process_money: "money_ok w \<Longrightarrow> money_ok (web_world (pr_web (process_run web tr am t es (started_on w))))"
  using safe.ran [of es t "started_on w" web tr am] by (simp add: safe_step_def started_on_def)


text \<open>A process on which an auction is opened and bid on.\<close>

definition day_tasks :: tasks where
  "day_tasks = spawned_tasks calm_env 1000 calm_env"

definition open_request :: http_request where
  "open_request = ReqCreateAuction \<lparr>cr_listing_id = Some ''l1'', cr_seller_id = None, cr_auction_type = Some ''ENGLISH'',
     cr_starting_price_cents = Some 1000, cr_starting_price = None, cr_reserve_price_cents = Some 1500,
     cr_reserve_price = None, cr_minimum_increment_cents = Some 100, cr_minimum_increment = None,
     cr_start_time = Some (UnixTimestamp 1000), cr_end_time = Some (UnixTimestamp 5000)\<rparr>"

definition bid_request :: http_request where
  "bid_request = ReqPlaceBid ''l1''
     \<lparr>pb_bidder_id = None, pb_bid_amount_cents = Some 3000, pb_bid_amount = None, pb_bid_time = None\<rparr>"

definition one_day :: "process_event list" where
  "one_day = [Request calm_env [''x-user-id'' \<mapsto> ''seller''] open_request, Request calm_env [''x-user-id'' \<mapsto> ''u1''] bid_request]"

definition after_one_day :: "(nat, nat) process" where
  "after_one_day = process_run calm_web (lab_transport 200 ''ok'') steady_amqp day_tasks one_day (started_on start_world)"

lemma in_day_tasks [simp]: "in_process day_tasks calm_env = calm_env"
  by (simp add: in_process_def day_tasks_def spawned_tasks_def)

lemma open_request_served:
  "web_world (snd (dispatch calm_web calm_env [''x-user-id'' \<mapsto> ''seller''] open_request s))
    = snd (create_auction calm_env later_command (web_world s))"
proof -
  have "apply_trusted_user_id [''x-user-id'' \<mapsto> ''seller''] None ''seller_id'' = Inr (Some ''seller'')" by code_simp
  moreover have "try_into_command (web_parse_rfc3339 calm_web)
      \<lparr>cr_listing_id = Some ''l1'', cr_seller_id = Some ''seller'', cr_auction_type = Some ''ENGLISH'',
       cr_starting_price_cents = Some 1000, cr_starting_price = None, cr_reserve_price_cents = Some 1500,
       cr_reserve_price = None, cr_minimum_increment_cents = Some 100, cr_minimum_increment = None,
       cr_start_time = Some (UnixTimestamp 1000), cr_end_time = Some (UnixTimestamp 5000)\<rparr> = Inr later_command"
    by code_simp
  ultimately show ?thesis
    by (simp add: open_request_def http_create_auction_def handler_defs or_bad_request_def split: prod.split sum.split)
qed

lemma bid_request_served:
  "web_world (snd (dispatch calm_web calm_env [''x-user-id'' \<mapsto> ''u1''] bid_request s))
    = snd (place_bid_and_persist calm_env ''l1'' ''u1'' 3000 (env_clock calm_env (tick (web_world s))) (next_tick (web_world s)))"
proof -
  have "resolve_trusted_user_id [''x-user-id'' \<mapsto> ''u1''] None ''bidder_id'' = Inr ''u1''" by code_simp
  then show ?thesis
    by (simp add: bid_request_def http_place_bid_def handler_defs utc_now_bindS bid_request_amount_cents_def
        amount_field_def or_error_def split: prod.split sum.split)
qed

lemma one_day_bids: "map (\<lambda>b. (br_wallet_hold_id b, br_bidder_id b, br_auction_id b, br_bid_amount_cents b))
    (bids (db (web_world (pr_web after_one_day)))) = [(Some ''id-17'', ''u1'', ''l1'', 3000)]"
proof -
  have w: "web_world (pr_web after_one_day) =
      (let w1 = snd (create_auction calm_env later_command start_world) in
       snd (place_bid_and_persist calm_env ''l1'' ''u1'' 3000 (env_clock calm_env (tick w1)) (next_tick w1)))"
    by (simp add: after_one_day_def one_day_def process_run_def started_on_def open_request_served bid_request_served Let_def)
  show ?thesis unfolding w by code_simp
qed


section \<open>The start\<close>

text \<open>No task is spawned on an unprepared database: when the start gets as far as spawning the schedulers,
  the pool was opened, the migrations succeeded, and the service has the clients the settings name; the
  relay's batch size is positive.\<close>

theorem tasks_need_a_schema:
  assumes "main_start pf tr sql env d = (r, d1)" and "r = Serving t a \<or> r = BindError t e"
  shows "run_migrations (pf_execute pf) sql d = (Inr (), d1)
    \<and> (\<exists>settings. env_var settings = pf_dotenv_override pf (pf_dotenv pf (env_var env))
        \<and> build_service tr settings = Inr (tk_service t)
        \<and> pf_connect pf (resolve_database_url settings) (max_connections (resolve_database_url settings)) = None)
    \<and> 0 < tk_outbox_batch_size t"
  using assms batch_size_positive(2)
  by (auto simp: main_start_def Let_def spawned_tasks_def split: option.splits prod.splits sum.splits
      intro!: exI [of _ "env\<lparr>env_var := pf_dotenv_override pf (pf_dotenv pf (env_var env))\<rparr>"])

text \<open>A platform on which everything succeeds, with an override file that sets the closing interval to zero.\<close>

definition lab_platform :: "nat platform" where
  "lab_platform = \<lparr>pf_dotenv = id, pf_dotenv_override = (\<lambda>vars. vars(''AUCTION_CLOSURE_SCHEDULER_INTERVAL_MS'' \<mapsto> ''0'')),
     pf_connect = (\<lambda>_ _. None), pf_execute = (\<lambda>_ n. (None, Suc n)), pf_bind = (\<lambda>_. None)\<rparr>"

definition lab_settings :: env where
  "lab_settings = calm_env\<lparr>env_var := [''AUCTION_CLOSURE_SCHEDULER_INTERVAL_MS'' \<mapsto> ''0'']\<rparr>"

definition lab_tasks :: tasks where
  "lab_tasks = spawned_tasks lab_settings (resolve_auction_closure_interval_ms lab_settings) (new_with_clients None None lab_settings)"

lemma lab_tolerant: "run_tolerant (\<lambda>_ n. (None, Suc n)) tolerated qs n = (Inr (), n + length qs)"
  by (induction qs arbitrary: n) simp_all

lemma lab_start: "main_start lab_platform tr ''CREATE TABLE t ( id TEXT )'' calm_env 0 = (Serving lab_tasks ''0.0.0.0:3000'', 9)"
proof -
  have "length (init_statements ''CREATE TABLE t ( id TEXT )'') = 1" by code_simp
  moreover have "calm_env\<lparr>env_var := Map.empty(''AUCTION_CLOSURE_SCHEDULER_INTERVAL_MS'' \<mapsto> ''0'')\<rparr> = lab_settings"
    by (simp add: lab_settings_def)
  moreover have "env_var calm_env = Map.empty" by (simp add: calm_env_def fun_eq_iff)
  moreover have "build_service tr lab_settings = Inr (new_with_clients None None lab_settings)"
    by (simp add: build_service_def lab_settings_def catalog_client_from_endpoints_def wallet_client_from_endpoints_def
        given_def try_with_def)
  moreover have "resolve_bind_address lab_settings = ''0.0.0.0:3000''"
    by (simp add: resolve_bind_address_def lab_settings_def)
  ultimately show ?thesis
    by (simp add: main_start_def lab_platform_def Let_def run_migrations_def ensure_additive_runtime_schema_def
        lab_tolerant additive_columns_def additive_objects_def lab_tasks_def)
qed

theorem tasks_need_a_schema_witness:
  "run_migrations (pf_execute lab_platform) ''CREATE TABLE t ( id TEXT )'' 0 = (Inr (), 9)
    \<and> 0 < tk_outbox_batch_size lab_tasks"
  using tasks_need_a_schema [OF lab_start [of "lab_transport 200 ''ok''"], of lab_tasks "''0.0.0.0:3000''"] by simp

section \<open>A scheduler without a period\<close>

text \<open>The closing interval is read without the check for a positive number that the batch sizes have.\<close>

lemma zero_interval: "env_var settings ''AUCTION_CLOSURE_SCHEDULER_INTERVAL_MS'' = Some ''0''
    \<Longrightarrow> resolve_auction_closure_interval_ms settings = 0"
proof -
  have "parse_u64 ''0'' = Some 0" by code_simp
  then show "env_var settings ''AUCTION_CLOSURE_SCHEDULER_INTERVAL_MS'' = Some ''0'' \<Longrightarrow> ?thesis"
    by (simp add: resolve_auction_closure_interval_ms_def parsed_u64_def unwrap_or_def)
qed

text \<open>Without closures nothing is decided.\<close>

definition nothing_decided :: "world \<Rightarrow> bool" where
  "nothing_decided w \<longleftrightarrow> store_ok (db w) \<and> (\<forall>r \<in> set (listings (db w)). undecided (lr_status r))"

definition stays_undecided :: "world \<Rightarrow> world \<Rightarrow> bool" where
  "stays_undecided w w1 \<longleftrightarrow> (nothing_decided w \<longrightarrow> nothing_decided w1)"

lemma nothing_decided_rows: "stepping w w1 \<Longrightarrow> rows_open w w1 \<Longrightarrow> stays_undecided w w1"
  by (auto simp: stays_undecided_def nothing_decided_def rows_open_def stepping_def steps_store_ok)

lemma same_rows: "same_listings w w1 \<Longrightarrow> rows_open w w1"
  by (simp add: same_listings_def rows_open_def)

lemma bid_stays_undecided: "stays_undecided w (snd (place_bid_internal env i u t mode w))"
proof -
  let ?w1 = "snd (place_bid_internal env i u t mode w)"
  have "undecided (lr_status r)" if "nothing_decided w" "r \<in> set (listings (db ?w1))" for r
  proof -
    have "open_at (lr_id r) (db w)" using that(1) by (simp add: nothing_decided_def open_at_def)
    then have "open_at (lr_id r) (db ?w1)" using bid_stays_open [of w env i u t mode] that(1)
      by (simp add: nothing_decided_def stays_open_def)
    with that(2) show ?thesis by (simp add: open_at_def)
  qed
  moreover have "stepping w ?w1" using step_service.placed_bid by (simp add: keeps_def)
  ultimately show ?thesis
    using steps_store_ok by (auto simp: stays_undecided_def nothing_decided_def stepping_def)
qed

interpretation undecided: service_relation stays_undecided False
proof
  fix w w1 w2 :: world
  show "stays_undecided w w" by (simp add: stays_undecided_def)
  show "stays_undecided w w1 \<Longrightarrow> stays_undecided w1 w2 \<Longrightarrow> stays_undecided w w2" by (simp add: stays_undecided_def)
  show "stays_undecided w (next_tick w)" by (simp add: stays_undecided_def nothing_decided_def)
  show "unchanged w w1 \<Longrightarrow> stays_undecided w w1" by (simp add: stays_undecided_def nothing_decided_def unchanged_def)
  fix env op
  assume op: "False \<or> \<not> closing_op op"
  show "stays_undecided w (service_exec env op w)"
    using op exec_steps [of w env op] create_relations(2) same_rows same_listings_delete_proxy same_listings_publish
    by (cases op) (auto simp: closing_op_def bid_entry_defs bid_stays_undecided keeps_def intro!: nothing_decided_rows)
qed

text \<open>A process started with \<^verbatim>\<open>AUCTION_CLOSURE_SCHEDULER_INTERVAL_MS=0\<close> never decides an auction by itself:
  whatever turns and requests follow, while nobody asks to close an auction by hand none is won or unsold.\<close>

theorem zero_interval_decides_nothing:
  assumes "fst (main_start pf tr sql env d) = Serving t a"
    and "pf_dotenv_override pf (pf_dotenv pf (env_var env)) ''AUCTION_CLOSURE_SCHEDULER_INTERVAL_MS'' = Some ''0''"
    and "\<forall>e \<in> set es. \<forall>env1 hs i. e \<noteq> Request env1 hs (ReqCloseAuction i)"
  shows "\<forall>r \<in> set (listings (db (web_world (pr_web (process_run web tr1 am t es (started_on start_world)))))).
    lr_status r \<noteq> ''WON'' \<and> lr_status r \<noteq> ''UNSOLD''"
proof -
  let ?settings = "env\<lparr>env_var := pf_dotenv_override pf (pf_dotenv pf (env_var env))\<rparr>"
  have "tk_closure_interval_ms t = resolve_auction_closure_interval_ms ?settings"
    using assms(1) by (auto simp: main_start_def Let_def spawned_tasks_def split: option.splits prod.splits sum.splits)
  then have "tk_closure_interval_ms t = 0" using zero_interval [of ?settings] assms(2) by simp
  then have "\<forall>e \<in> set es. \<not> closing_event t e"
    using assms(3) by (auto simp: closing_event_def closing_request_def split: process_event.splits)
  then have "stays_undecided start_world (web_world (pr_web (process_run web tr1 am t es (started_on start_world))))"
    using undecided.ran [of es t "started_on start_world" web tr1 am] by (simp add: started_on_def)
  moreover have "nothing_decided start_world" using empty_store_ok by (simp add: nothing_decided_def start_world_def) (simp add: empty_store_def)
  ultimately show ?thesis by (simp add: stays_undecided_def nothing_decided_def undecided_iff)
qed

theorem zero_interval_decides_nothing_witness:
  "{''WON'', ''UNSOLD''} \<inter> lr_status ` set (listings (db (web_world (pr_web (process_run calm_web
      (lab_transport 200 ''ok'') steady_amqp lab_tasks (one_day @ [ClosureTurn slow_env]) (started_on start_world)))))) = {}"
proof -
  have "\<forall>r \<in> set (listings (db (web_world (pr_web (process_run calm_web (lab_transport 200 ''ok'') steady_amqp lab_tasks
      (one_day @ [ClosureTurn slow_env]) (started_on start_world)))))). lr_status r \<noteq> ''WON'' \<and> lr_status r \<noteq> ''UNSOLD''"
  proof (rule zero_interval_decides_nothing)
    show "fst (main_start lab_platform (lab_transport 200 ''ok'') ''CREATE TABLE t ( id TEXT )'' calm_env 0)
        = Serving lab_tasks ''0.0.0.0:3000''"
      by (simp add: lab_start)
    show "pf_dotenv_override lab_platform (pf_dotenv lab_platform (env_var calm_env)) ''AUCTION_CLOSURE_SCHEDULER_INTERVAL_MS'' = Some ''0''"
      by (simp add: lab_platform_def)
    show "\<forall>e \<in> set (one_day @ [ClosureTurn slow_env]). \<forall>env1 hs i. e \<noteq> Request env1 hs (ReqCloseAuction i)"
      by (simp add: one_day_def open_request_def bid_request_def)
  qed
  then show ?thesis by auto
qed

end
