(* ===== verification/Interleaving.thy ===== *)
theory Interleaving
  imports Closure BidService
begin

text \<open>
  Calls that run beside each other. A program is a tree of actions, each one interaction with the database (or
  several with the wallet, the catalogue and the clock alone); between two actions of a program those of
  others may happen. Closings take no bid lock and several processes share the database, so bids and closings
  interleave like this. A closing's transaction, which locks its row, is one action.
\<close>

section \<open>Programs\<close>

datatype 'a prog = Done 'a | Act "world \<Rightarrow> 'a prog \<times> world"

primrec run_prog :: "'a prog \<Rightarrow> world \<Rightarrow> 'a \<times> world" where
  "run_prog (Done a) = (\<lambda>w. (a, w))"
| "run_prog (Act f) = (\<lambda>w. case (map_prod run_prog id \<circ> f) w of (r, w1) \<Rightarrow> r w1)"

primrec bind_prog :: "'a prog \<Rightarrow> ('a \<Rightarrow> 'b prog) \<Rightarrow> 'b prog" where
  "bind_prog (Done a) g = g a"
| "bind_prog (Act f) g = Act (map_prod (\<lambda>p. bind_prog p g) id \<circ> f)"

text \<open>A call as one action, and the sequence that stops at an error.\<close>

definition atomically :: "('e, 'a) svc \<Rightarrow> ('e + 'a) prog" where
  "atomically m = Act (\<lambda>w. case m w of (r, w1) \<Rightarrow> (Done r, w1))"

definition bindP :: "('e + 'a) prog \<Rightarrow> ('a \<Rightarrow> ('e + 'b) prog) \<Rightarrow> ('e + 'b) prog" where
  "bindP p g = bind_prog p (\<lambda>r. case r of Inl e \<Rightarrow> Done (Inl e) | Inr a \<Rightarrow> g a)"

definition retP :: "'a \<Rightarrow> ('e + 'a) prog" where
  "retP a = Done (Inr a)"

definition resultP :: "'e + 'a \<Rightarrow> ('e + 'a) prog" where
  "resultP r = Done r"

text \<open>Several programs with a schedule, the indices of the programs that make the next action.\<close>

definition pool_step :: "nat \<Rightarrow> 'a prog list \<times> world \<Rightarrow> 'a prog list \<times> world" where
  "pool_step k st = (case st of (ps, w) \<Rightarrow>
     if k < length ps then
       (case ps ! k of
          Done a \<Rightarrow> (ps, w)
        | Act f \<Rightarrow> (case f w of (p, w1) \<Rightarrow> (ps[k := p], w1)))
     else (ps, w))"

definition pool_run :: "nat list \<Rightarrow> 'a prog list \<Rightarrow> world \<Rightarrow> 'a prog list \<times> world" where
  "pool_run ks ps w = fold pool_step ks (ps, w)"

section \<open>Bids\<close>

text \<open>The stages of a bid as in \<^theory_text>\<open>BidService\<close>, cut between any two statements.\<close>

definition resolve_record_prog :: "env \<Rightarrow> string \<Rightarrow> (place_bid_error + listing_record) prog" where
  "resolve_record_prog env auction_id =
     bindP (atomically (db_err (run_query env (find_by_id auction_id)))) (\<lambda>by_id.
     bindP (atomically (db_err (run_query env (find_by_listing_id auction_id)))) (\<lambda>by_listing.
     resultP (case (case by_id of Some r \<Rightarrow> Some r | None \<Rightarrow> by_listing) of
       None \<Rightarrow> Inl PlaceAuctionNotFound | Some r \<Rightarrow> Inr r)))"

definition record_accepted_prog :: "env \<Rightarrow> string \<Rightarrow> listing_record \<Rightarrow> i64 \<Rightarrow> i64 \<Rightarrow> string \<Rightarrow> i64
    \<Rightarrow> (place_bid_error + listing_record) prog" where
  "record_accepted_prog env canonical auction highest end_time st bid_time =
     bindP (atomically (db_err (run_stmt env (record_highest_bid canonical highest end_time st bid_time)))) (\<lambda>persisted.
     case persisted of
       Some r \<Rightarrow> retP r
     | None \<Rightarrow>
         bindP (atomically (db_err (run_query env (find_by_id canonical)))) (\<lambda>found.
         retP (case found of Some r \<Rightarrow> r
           | None \<Rightarrow> auction\<lparr>lr_current_highest_bid_cents := Some highest, lr_end_time := end_time,
                            lr_status := st, lr_updated_at := bid_time\<rparr>)))"

definition place_auto_bid_prog :: "env \<Rightarrow> string \<Rightarrow> listing_record \<Rightarrow> proxy_bid_record \<Rightarrow> bid_record \<Rightarrow> i64 \<Rightarrow> i64
    \<Rightarrow> (place_bid_error + unit) prog" where
  "place_auto_bid_prog env auction_id listing top_proxy current target auto_bid_time =
     bindP (atomically (auto_bid_schedule env listing top_proxy current target auto_bid_time)) (\<lambda>schedule.
     bindP (atomically (new_uuid env)) (\<lambda>bid_id.
     bindP (atomically (hold_for_bid env (pr_bidder_id top_proxy) auction_id bid_id target (snd schedule))) (\<lambda>hold.
     bindP (atomically (store_auto_bid env auction_id bid_id top_proxy current target auto_bid_time hold)) (\<lambda>stored.
     case stored of
       None \<Rightarrow> retP ()
     | Some inserted \<Rightarrow>
         bindP (atomically (release_current_hold env current)) (\<lambda>_.
         bindP (atomically (whenS (br_bidder_id current \<noteq> pr_bidder_id top_proxy)
           (db_err (publish_outbid_event env listing current target)))) (\<lambda>_.
         bindP (atomically (db_err (run_stmt env
           (record_auto_bid auction_id target (snd schedule) (fst schedule) auto_bid_time)))) (\<lambda>updated.
         case updated of
           None \<Rightarrow> atomically (undo_auto_bid env inserted current hold)
         | Some r \<Rightarrow>
             bindP (atomically (db_err (run_stmt env (upsert_pending auction_id (lr_end_time r) auto_bid_time)))) (\<lambda>_.
             atomically (db_err (publish_bid_placed_event env r inserted))))))))))"

definition resolve_proxy_prog :: "env \<Rightarrow> string \<Rightarrow> listing_record \<Rightarrow> i64 \<Rightarrow> (place_bid_error + unit) prog" where
  "resolve_proxy_prog env auction_id listing bid_time =
     bindP (atomically (db_err (run_query env (list_by_auction auction_id)))) (\<lambda>rows.
     case rows of
       [] \<Rightarrow> retP ()
     | top_proxy # _ \<Rightarrow>
         bindP (atomically (db_err (run_query env (find_winning_bid auction_id)))) (\<lambda>winning.
         case winning of
           None \<Rightarrow> retP ()
         | Some current \<Rightarrow>
             (let increment = lr_minimum_increment_cents listing;
                  target = auto_bid_target rows top_proxy current increment
              in if target \<le> br_bid_amount_cents current then retP ()
                 else if pr_max_bid_amount_cents top_proxy < i64_add (br_bid_amount_cents current) increment then retP ()
                 else place_auto_bid_prog env auction_id listing top_proxy current target (i64_saturating_add bid_time 1))))"

definition accept_bid_prog :: "env \<Rightarrow> string \<Rightarrow> listing_record \<Rightarrow> string \<Rightarrow> i64 \<Rightarrow> bid_record option \<Rightarrow> bid_accepted
    \<Rightarrow> session_status \<Rightarrow> (place_bid_error + bid_record) prog" where
  "accept_bid_prog env canonical auction bidder bid_time previous result st =
     (let amount = i64_of_u64 (cents (bid_amount (new_highest result)));
          end_time = i64_of_u64 (seconds (new_end_at result))
      in bindP (atomically (new_uuid env)) (\<lambda>bid_id.
         bindP (atomically (release_previous_hold env bidder previous)) (\<lambda>_.
         bindP (atomically (hold_for_bid env bidder canonical bid_id amount end_time)) (\<lambda>hold.
         bindP (atomically (insert_bid_or_release env
           \<lparr>nb_id = bid_id, nb_auction_id = canonical, nb_bidder_id = bidder, nb_bid_amount_cents = amount,
            nb_bid_time = bid_time\<rparr> hold)) (\<lambda>inserted.
         bindP (atomically (notify_outbid env auction bidder previous amount)) (\<lambda>_.
         bindP (record_accepted_prog env canonical auction amount end_time (status_to_string st) bid_time) (\<lambda>updated.
         bindP (atomically (db_err (run_stmt env (upsert_pending canonical (lr_end_time updated) bid_time)))) (\<lambda>_.
         bindP (resolve_proxy_prog env canonical updated bid_time) (\<lambda>_.
         bindP (atomically (db_err (publish_bid_placed_event env updated inserted))) (\<lambda>_.
         retP inserted))))))))))"

definition place_new_bid_prog :: "env \<Rightarrow> string \<Rightarrow> listing_record \<Rightarrow> string \<Rightarrow> i64 \<Rightarrow> bid_placement_mode
    \<Rightarrow> bid_record option \<Rightarrow> (place_bid_error + bid_record) prog" where
  "place_new_bid_prog env canonical auction bidder bid_time mode previous =
     bindP (atomically (whenS (is_proxy mode) (map_err PlaceBidError (of_result
       (identity_bid_policy auction bidder previous))))) (\<lambda>_.
     bindP (atomically (db_err (record_to_domain_with_bid env auction))) (\<lambda>session.
     bindP (atomically (map_err PlaceBidError (of_result (domain_bid session bidder bid_time mode)))) (\<lambda>r.
     bindP (atomically (map_err PlaceBidError (of_result
       (wallet_bid_policy (i64_of_u64 (cents (bid_amount (new_highest (fst r))))))))) (\<lambda>_.
     bindP (case mode of
        Proxy max_amount \<Rightarrow>
          bindP (atomically (db_err (run_stmt env (upsert_max canonical bidder max_amount bid_time)))) (\<lambda>_. retP ())
      | Standard _ \<Rightarrow> retP ()) (\<lambda>_.
     accept_bid_prog env canonical auction bidder bid_time previous (fst r) (snd r))))))"

definition place_unseen_bid_prog :: "env \<Rightarrow> string \<Rightarrow> string \<Rightarrow> i64 \<Rightarrow> bid_placement_mode
    \<Rightarrow> (place_bid_error + bid_record) prog" where
  "place_unseen_bid_prog env canonical bidder bid_time mode =
     bindP (atomically (db_err (run_query env (find_by_id canonical)))) (\<lambda>found.
     bindP (atomically (ok_or PlaceAuctionNotFound found)) (\<lambda>auction.
     bindP (atomically (validate_listing_for_bid env (lr_listing_id auction))) (\<lambda>_.
     bindP (atomically (db_err (run_query env (find_winning_bid canonical)))) (\<lambda>previous.
     bindP (atomically (map_err PlaceBidError (of_result (precheck_bid auction bidder bid_time mode previous)))) (\<lambda>_.
     case leading_proxy bidder mode previous of
       Some (max_amount, current) \<Rightarrow>
         atomically (raise_own_maximum env canonical auction bidder max_amount bid_time current)
     | None \<Rightarrow> place_new_bid_prog env canonical auction bidder bid_time mode previous)))))"

definition place_bid_prog :: "env \<Rightarrow> string \<Rightarrow> string \<Rightarrow> i64 \<Rightarrow> bid_placement_mode
    \<Rightarrow> (place_bid_error + bid_record) prog" where
  "place_bid_prog env auction_id bidder bid_time mode =
     bindP (resolve_record_prog env auction_id) (\<lambda>resolved.
     bindP (atomically (existing_standard_bid env (lr_id resolved) bidder bid_time mode)) (\<lambda>existing.
     case existing of
       Some b \<Rightarrow> retP b
     | None \<Rightarrow> place_unseen_bid_prog env (lr_id resolved) bidder bid_time mode))"

section \<open>Closings\<close>

text \<open>How the transaction of a closing ends: the job's auction is gone, is to be settled again, was decided
  before or has not ended; the closure failed; or it was committed, with the bids to settle.\<close>

datatype closing_tx =
    TxGone | TxResume listing_record "bid_record list" | TxDecided listing_record | TxNotEnded listing_record
  | TxFailed close_session_error | TxClosed listing_record "bid_record list"

definition closing_tx :: "env \<Rightarrow> closure_job_record \<Rightarrow> i64 \<Rightarrow> (close_session_error, closing_tx) svc" where
  "closing_tx env job now =
     bindS (close_db_err (begin_tx env)) (\<lambda>tx.
     bindS (close_db_err (run_tx env (sql_query (find_by_id_for_update (job_auction_id job))) tx)) (\<lambda>found.
     case fst found of
       None \<Rightarrow> bindS (close_db_err (rollback_tx env)) (\<lambda>_. ret TxGone)
     | Some auction \<Rightarrow>
         if job_status job = ''SETTLING'' then
           bindS (close_db_err (run_tx env (sql_query (list_by_auction_id_desc (lr_id auction))) tx)) (\<lambda>r.
           bindS (close_db_err (commit_tx env (snd r))) (\<lambda>_.
           ret (TxResume auction (fst r))))
         else if lr_status auction = ''WON'' \<or> lr_status auction = ''UNSOLD'' \<or> lr_status auction = ''CANCELLED'' then
           bindS (close_db_err (rollback_tx env)) (\<lambda>_. ret (TxDecided auction))
         else if now < lr_end_time auction then
           bindS (close_db_err (rollback_tx env)) (\<lambda>_. ret (TxNotEnded auction))
         else
           bindS (attempt (execute_auction_closure env auction tx now)) (\<lambda>result.
           case result of
             Inl e \<Rightarrow> bindS (ignore_result (rollback_tx env)) (\<lambda>_. ret (TxFailed e))
           | Inr r \<Rightarrow>
               bindS (close_db_err (commit_tx env (snd r))) (\<lambda>_.
               ret (TxClosed (fst (fst r)) (snd (fst r)))))))"

definition settle_prog :: "env \<Rightarrow> listing_record \<Rightarrow> bid_record list \<Rightarrow> i64 \<Rightarrow> (close_session_error + unit) prog" where
  "settle_prog env auction bs now =
     bindP (atomically (attempt (execute_post_closure_side_effects env auction bs))) (\<lambda>r.
     case r of
       Inl e \<Rightarrow>
         bindP (atomically (close_db_err (run_stmt env (mark_settlement_failed (lr_id auction) now (i64_add now 30)
           (close_session_error_text e))))) (\<lambda>_.
         resultP (Inl e))
     | Inr _ \<Rightarrow> atomically (close_db_err (run_stmt env (mark_done (lr_id auction) now))))"

definition claimed_job_prog :: "env \<Rightarrow> closure_job_record \<Rightarrow> i64 \<Rightarrow> (close_session_error + listing_record option) prog" where
  "claimed_job_prog env job now =
     bindP (atomically (closing_tx env job now)) (\<lambda>tx.
     case tx of
       TxGone \<Rightarrow> bindP (atomically (close_db_err (run_stmt env (mark_done (job_auction_id job) now)))) (\<lambda>_. retP None)
     | TxResume auction bs \<Rightarrow> bindP (settle_prog env auction bs now) (\<lambda>_. retP (Some auction))
     | TxDecided auction \<Rightarrow> bindP (atomically (close_db_err (run_stmt env (mark_done (lr_id auction) now)))) (\<lambda>_. retP None)
     | TxNotEnded auction \<Rightarrow>
         bindP (atomically (close_db_err (run_stmt env (upsert_pending (lr_id auction) (lr_end_time auction) now)))) (\<lambda>_.
         retP None)
     | TxFailed e \<Rightarrow>
         bindP (atomically (close_db_err (run_stmt env (mark_failed (job_auction_id job) now (i64_add now 30)
           (close_session_error_text e))))) (\<lambda>_.
         resultP (Inl e))
     | TxClosed updated bs \<Rightarrow>
         bindP (atomically (close_db_err (run_stmt env (mark_settling (lr_id updated) now now)))) (\<lambda>_.
         bindP (settle_prog env updated bs now) (\<lambda>_.
         retP (Some updated))))"

definition process_one_prog :: "env \<Rightarrow> (close_session_error + listing_record option) prog" where
  "process_one_prog env =
     bindP (atomically (utc_now env)) (\<lambda>now.
     bindP (atomically (close_db_err (run_stmt env (reconcile_missing_pending_jobs now)))) (\<lambda>_.
     bindP (atomically (close_db_err (claim_due env now (i64_add now 60) (''auction-closure-'' @ env_pid env)))) (\<lambda>job.
     case job of
       None \<Rightarrow> retP None
     | Some j \<Rightarrow> claimed_job_prog env j now)))"

text \<open>The same for a closing by hand: an auction that was decided before is the answer.\<close>

definition closing_by_hand_tx :: "env \<Rightarrow> string \<Rightarrow> i64
    \<Rightarrow> (close_session_error, listing_record + listing_record \<times> bid_record list) svc" where
  "closing_by_hand_tx env auction_id now =
     bindS (close_db_err (begin_tx env)) (\<lambda>tx.
     bindS (close_db_err (run_tx env (sql_query (find_by_id_for_update auction_id)) tx)) (\<lambda>found.
     bindS (ok_or CloseAuctionNotFound (fst found)) (\<lambda>auction.
     if now < lr_end_time auction then
       bindS (close_db_err (rollback_tx env)) (\<lambda>_. throw CloseAuctionNotEnded)
     else if lr_status auction = ''WON'' \<or> lr_status auction = ''UNSOLD'' then
       bindS (close_db_err (rollback_tx env)) (\<lambda>_. ret (Inl auction))
     else
       bindS (execute_auction_closure env auction tx now) (\<lambda>r.
       bindS (close_db_err (commit_tx env (snd r))) (\<lambda>_.
       ret (Inr (fst r)))))))"

definition close_auction_prog :: "env \<Rightarrow> string \<Rightarrow> (close_session_error + listing_record) prog" where
  "close_auction_prog env auction_id =
     bindP (atomically (utc_now env)) (\<lambda>now.
     bindP (atomically (closing_by_hand_tx env auction_id now)) (\<lambda>tx.
     case tx of
       Inl auction \<Rightarrow> retP auction
     | Inr closed \<Rightarrow>
         bindP (atomically (close_db_err (run_stmt env (mark_settling (lr_id (fst closed)) now now)))) (\<lambda>_.
         bindP (settle_prog env (fst closed) (snd closed) now) (\<lambda>_.
         retP (fst closed)))))"

section \<open>Calls beside each other\<close>

datatype call_result =
    BidAnswer "place_bid_error + bid_record"
  | ClosureAnswer "close_session_error + listing_record option"
  | CloseAnswer "close_session_error + listing_record"

definition answers :: "('a \<Rightarrow> 'b) \<Rightarrow> 'a prog \<Rightarrow> 'b prog" where
  "answers f p = bind_prog p (\<lambda>a. Done (f a))"

text \<open>The calls that change auctions: a bid or proxy bid, a round of the closure queue, a closing by hand.\<close>

datatype auction_call =
    BidCall env string string i64 bid_placement_mode
  | ClosureRound env
  | CloseByHand env string

fun call_prog :: "auction_call \<Rightarrow> call_result prog" where
  "call_prog (BidCall env i u t mode) = answers BidAnswer (place_bid_prog env i u t mode)"
| "call_prog (ClosureRound env) = answers ClosureAnswer (process_one_prog env)"
| "call_prog (CloseByHand env i) = answers CloseAnswer (close_auction_prog env i)"

section \<open>Alone, a program is the call\<close>

lemma run_bind_prog: "run_prog (bind_prog p g) w = (case run_prog p w of (a, w1) \<Rightarrow> run_prog (g a) w1)"
proof (induction p arbitrary: w)
  case (Act f)
  obtain p w1 where f: "f w = (p, w1)" by fastforce
  then have "p \<in> Basic_BNFs.fsts (f w)" by (simp add: fsts.intros)
  from Act [OF rangeI this, of w1] f show ?case by simp
qed simp

lemma run_simps [simp]:
  "run_prog (atomically m) = m"
  "run_prog (bindP p g) = bindS (run_prog p) (\<lambda>a. run_prog (g a))"
  "run_prog (retP a) = ret a"
  "run_prog (resultP r) = of_result r"
  by (auto simp: fun_eq_iff atomically_def bindP_def retP_def resultP_def ret_def of_result_def run_bind_prog bindS_def
      split: prod.splits sum.splits)

lemma run_cases [simp]:
  "run_prog (case x of None \<Rightarrow> p | Some a \<Rightarrow> f a) = (case x of None \<Rightarrow> run_prog p | Some a \<Rightarrow> run_prog (f a))"
  "run_prog (case r of Inl e \<Rightarrow> g e | Inr b \<Rightarrow> h b) = (case r of Inl e \<Rightarrow> run_prog (g e) | Inr b \<Rightarrow> run_prog (h b))"
  "run_prog (case l of [] \<Rightarrow> p | y # ys \<Rightarrow> k y ys) = (case l of [] \<Rightarrow> run_prog p | y # ys \<Rightarrow> run_prog (k y ys))"
  "run_prog (case mode of Standard n \<Rightarrow> p1 n | Proxy n \<Rightarrow> p2 n) = (case mode of Standard n \<Rightarrow> run_prog (p1 n) | Proxy n \<Rightarrow> run_prog (p2 n))"
  "run_prog (if b then p else q) = (if b then run_prog p else run_prog q)"
  by (simp_all split: option.split sum.split list.split bid_placement_mode.split)

lemma of_result_option: "of_result (case x of None \<Rightarrow> Inl e | Some r \<Rightarrow> Inr r) = ok_or e x"
  by (simp add: fun_eq_iff of_result_def ok_or_def split: option.split)

lemma run_resolve_record [simp]: "run_prog (resolve_record_prog env i) = resolve_record env i"
  by (simp add: resolve_record_prog_def resolve_record_def of_result_option)

lemma run_record_accepted [simp]:
  "run_prog (record_accepted_prog env c a n e st t) = record_accepted_listing env c a n e st t"
  by (simp add: record_accepted_prog_def record_accepted_listing_def Let_def cong: option.case_cong list.case_cong sum.case_cong bid_placement_mode.case_cong if_cong)

lemma run_place_auto_bid [simp]: "run_prog (place_auto_bid_prog env i a p cur n t) = place_auto_bid env i a p cur n t"
  by (simp add: place_auto_bid_prog_def place_auto_bid_def cong: option.case_cong list.case_cong sum.case_cong bid_placement_mode.case_cong if_cong)

lemma run_resolve_proxy [simp]: "run_prog (resolve_proxy_prog env i a t) = resolve_proxy_auto_bid env i a t"
  by (simp add: resolve_proxy_prog_def resolve_proxy_auto_bid_def Let_def cong: option.case_cong list.case_cong sum.case_cong bid_placement_mode.case_cong if_cong)

lemma run_accept_bid [simp]: "run_prog (accept_bid_prog env i a u t prev res st) = accept_bid env i a u t prev res st"
  by (simp add: accept_bid_prog_def accept_bid_def Let_def)

lemma run_place_new_bid [simp]: "run_prog (place_new_bid_prog env i a u t mode prev) = place_new_bid env i a u t mode prev"
  by (simp add: place_new_bid_prog_def place_new_bid_def cong: option.case_cong list.case_cong sum.case_cong bid_placement_mode.case_cong if_cong)

lemma run_place_unseen_bid [simp]: "run_prog (place_unseen_bid_prog env i u t mode) = place_unseen_bid env i u t mode"
  by (simp add: place_unseen_bid_prog_def place_unseen_bid_def split_def cong: option.case_cong list.case_cong sum.case_cong bid_placement_mode.case_cong if_cong)

lemma run_place_bid: "run_prog (place_bid_prog env i u t mode) = place_bid_internal env i u t mode"
  by (simp add: place_bid_prog_def place_bid_internal_def cong: option.case_cong list.case_cong sum.case_cong bid_placement_mode.case_cong if_cong)

lemma bindS_assoc: "bindS (bindS m f) g = bindS m (\<lambda>a. bindS (f a) g)"
  by (auto simp: fun_eq_iff bindS_def split: prod.split sum.split)

lemma bindS_ret [simp]: "bindS (ret a) f = f a"
  by (simp add: fun_eq_iff bindS_def ret_def)

lemma bindS_throw: "bindS (throw e) f = throw e"
  by (simp add: fun_eq_iff bindS_def throw_def)

lemma bindS_case [simp]:
  "bindS (case x of None \<Rightarrow> m | Some a \<Rightarrow> f a) g = (case x of None \<Rightarrow> bindS m g | Some a \<Rightarrow> bindS (f a) g)"
  "bindS (case r of Inl e \<Rightarrow> h e | Inr b \<Rightarrow> k b) g = (case r of Inl e \<Rightarrow> bindS (h e) g | Inr b \<Rightarrow> bindS (k b) g)"
  "bindS (if b then m1 else m2) g = (if b then bindS m1 g else bindS m2 g)"
  by (simp_all split: option.split sum.split)

lemma of_result_throw: "of_result (Inl e) = throw e"
  by (simp add: fun_eq_iff of_result_def throw_def)

lemma run_settle [simp]: "run_prog (settle_prog env a bs now) = settle env a bs now"
  by (simp add: settle_prog_def settle_def of_result_throw cong: sum.case_cong)

lemma run_claimed_job [simp]: "run_prog (claimed_job_prog env job now) = process_claimed_job env job now"
  unfolding claimed_job_prog_def process_claimed_job_def closing_tx_def process_settling_job_def close_claimed_auction_def
  by (simp add: bindS_assoc of_result_throw Let_def cong: option.case_cong sum.case_cong if_cong)

lemma run_process_one: "run_prog (process_one_prog env) = process_one_pending_closure_core env"
  by (simp add: process_one_prog_def process_one_pending_closure_core_def cong: option.case_cong)

lemma run_close_auction: "run_prog (close_auction_prog env i) = close_auction_core env i"
proof -
  show ?thesis
    unfolding close_auction_prog_def close_auction_core_def closing_by_hand_tx_def
    by (simp add: bindS_assoc bindS_throw Let_def cong: option.case_cong sum.case_cong if_cong)
qed

end
