(* ===== verification/InterleavingFacts.thy ===== *)
theory InterleavingFacts
  imports Interleaving ServiceRun BidFacts ClosureFacts
begin

text \<open>
  What survives when calls run beside each other, action by action, in any order: the integrity of the tables
  and the history. What does not: the finality of a decision, when a bid that was checked before a closing
  writes after it.
\<close>

section \<open>Alone\<close>

text \<open>A program that runs alone is the call it stands for: a bid, a round of the closure queue, a closing.\<close>

theorem programs_are_the_calls:
  "run_prog (call_prog (BidCall env i u t mode)) w = map_prod BidAnswer id (place_bid_internal env i u t mode w)
    \<and> run_prog (call_prog (ClosureRound env)) w = map_prod ClosureAnswer id (process_one_pending_closure env w)
    \<and> run_prog (call_prog (CloseByHand env i)) w = map_prod CloseAnswer id (close_auction env i w)"
  by (simp add: answers_def run_bind_prog run_place_bid run_process_one run_close_auction map_prod_def
      process_one_pending_closure_def close_handler_process_one_pending_def close_auction_def close_handler_close_def
      split: prod.split)

section \<open>What every action keeps\<close>

inductive prog_keeps :: "(world \<Rightarrow> world \<Rightarrow> bool) \<Rightarrow> 'a prog \<Rightarrow> bool" for R where
  keeps_Done: "prog_keeps R (Done a)"
| keeps_Act: "(\<And>w. R w (snd (f w))) \<Longrightarrow> (\<And>w. prog_keeps R (fst (f w))) \<Longrightarrow> prog_keeps R (Act f)"

inductive_cases keeps_ActE: "prog_keeps R (Act f)"

named_theorems prog_intros \<open>introduction rules for prog_keeps\<close>

lemma keeps_bind_prog: "prog_keeps R p \<Longrightarrow> (\<And>a. prog_keeps R (g a)) \<Longrightarrow> prog_keeps R (bind_prog p g)"
proof (induction rule: prog_keeps.induct)
  case (keeps_Act f)
  then show ?case by (auto intro!: prog_keeps.intros)
qed simp

lemma prog_keeps_parts [prog_intros]:
  "keeps R m \<Longrightarrow> prog_keeps R (atomically m)"
  "prog_keeps R (retP a)"
  "prog_keeps R (resultP r)"
  "prog_keeps R p \<Longrightarrow> (\<And>a. prog_keeps R (g a)) \<Longrightarrow> prog_keeps R (bindP p g)"
  "prog_keeps R p \<Longrightarrow> (\<And>a. prog_keeps R (h a)) \<Longrightarrow> prog_keeps R (case x of None \<Rightarrow> p | Some a \<Rightarrow> h a)"
  "(\<And>e. prog_keeps R (k1 e)) \<Longrightarrow> (\<And>b. prog_keeps R (k2 b)) \<Longrightarrow> prog_keeps R (case r of Inl e \<Rightarrow> k1 e | Inr b \<Rightarrow> k2 b)"
  "prog_keeps R p \<Longrightarrow> (\<And>y ys. prog_keeps R (k y ys)) \<Longrightarrow> prog_keeps R (case l of [] \<Rightarrow> p | y # ys \<Rightarrow> k y ys)"
  "(\<And>a b. prog_keeps R (k3 a b)) \<Longrightarrow> prog_keeps R (case y of (a, b) \<Rightarrow> k3 a b)"
  "(\<And>n. prog_keeps R (p1 n)) \<Longrightarrow> (\<And>n. prog_keeps R (p2 n)) \<Longrightarrow> prog_keeps R (case mode of Standard n \<Rightarrow> p1 n | Proxy n \<Rightarrow> p2 n)"
  "prog_keeps R p \<Longrightarrow> prog_keeps R q \<Longrightarrow> prog_keeps R (if b then p else q)"
  by (auto simp: atomically_def retP_def resultP_def bindP_def keeps_def split_def
      intro!: prog_keeps.intros keeps_bind_prog split: option.split sum.split list.split bid_placement_mode.split)

context run_relation
begin

lemma pool_step_keeps:
  assumes "\<forall>p \<in> set ps. prog_keeps R p" and "pool_step k (ps, w) = (ps1, w1)"
  shows "R w w1 \<and> (\<forall>p \<in> set ps1. prog_keeps R p)"
proof (cases "k < length ps \<and> (\<exists>f. ps ! k = Act f)")
  case True
  then obtain f where k: "k < length ps" "ps ! k = Act f" by blast
  then have "prog_keeps R (Act f)" using assms(1) by (metis nth_mem)
  then have "R w (snd (f w))" "prog_keeps R (fst (f w))" by (auto elim: keeps_ActE)
  moreover have "ps1 = ps[k := fst (f w)]" "w1 = snd (f w)"
    using assms(2) k by (simp_all add: pool_step_def split_def)
  ultimately show ?thesis using assms(1) set_update_subset_insert [of ps k "fst (f w)"] by auto
next
  case False
  then have "ps1 = ps" "w1 = w"
    using assms(2) by (auto simp: pool_step_def split: if_splits prog.splits)
  with assms(1) show ?thesis by (simp add: R_refl)
qed

lemma pool_run_keeps: "\<forall>p \<in> set ps. prog_keeps R p \<Longrightarrow> R w (snd (pool_run ks ps w))"
proof (induction ks arbitrary: ps w)
  case Nil
  then show ?case by (simp add: pool_run_def R_refl)
next
  case (Cons k ks)
  obtain ps1 w1 where s: "pool_step k (ps, w) = (ps1, w1)" by fastforce
  note step = pool_step_keeps [OF Cons.prems s]
  with Cons.IH [of ps1 w1] have "R w1 (snd (pool_run ks ps1 w1))" by blast
  with step s show ?case using R_trans by (auto simp: pool_run_def)
qed

end

text \<open>The stages of a bid.\<close>

context bid_writes
begin

lemma bid_programs [prog_intros]:
  "prog_keeps R (resolve_record_prog env i)"
  "prog_keeps R (record_accepted_prog env auction a n e st t)"
  unfolding resolve_record_prog_def record_accepted_prog_def by (intro prog_intros keeps_intros)+

lemma auto_bid_program [prog_intros]: "prog_keeps R (place_auto_bid_prog env auction a p cur n t)"
  unfolding place_auto_bid_prog_def by (intro prog_intros keeps_intros)

lemma resolve_program [prog_intros]: "prog_keeps R (resolve_proxy_prog env auction a t)"
  unfolding resolve_proxy_prog_def Let_def by (intro prog_intros keeps_intros)

lemma accept_program [prog_intros]: "prog_keeps R (accept_bid_prog env auction a u t prev res st)"
  unfolding accept_bid_prog_def Let_def by (intro prog_intros keeps_intros insert_or_release) simp_all

lemma new_bid_program [prog_intros]: "prog_keeps R (place_new_bid_prog env auction a u t mode prev)"
  unfolding place_new_bid_prog_def by (intro prog_intros keeps_intros)

lemma unseen_bid_program [prog_intros]: "prog_keeps R (place_unseen_bid_prog env auction u t mode)"
  unfolding place_unseen_bid_prog_def by (intro prog_intros keeps_intros)

end

context bid_service
begin

lemma bid_program: "prog_keeps R (place_bid_prog env i u t mode)"
  unfolding place_bid_prog_def resolve_record_prog_def
  by (intro prog_intros keeps_intros bid_writes.unseen_bid_program [OF writes])

end

text \<open>The transactions of a closing: they commit a closure, or nothing but ticks happened.\<close>

context closure_statements
begin

lemma closing_txs:
  assumes commits: "\<And>j a now r w w1. find_by_id_for_update j (db w) = Some a \<Longrightarrow> lr_end_time a \<le> now
    \<Longrightarrow> lr_status a \<noteq> ''WON'' \<Longrightarrow> lr_status a \<noteq> ''UNSOLD'' \<Longrightarrow> closed_in a now (db w) r
    \<Longrightarrow> db w1 = snd r \<Longrightarrow> wallet_log w1 = wallet_log w \<Longrightarrow> R w w1"
  shows "keeps R (closing_tx env job now)" and "keeps R (closing_by_hand_tx env i now)"
proof -
  have R: "unchanged w w1 \<Longrightarrow> R w w1" for w w1 by (rule R_unchanged)
  have un: "wp m (\<lambda>_. R w) (\<lambda>_. R w) w1" if "unchanged w w1" "keeps unchanged m" for m :: "(close_session_error, 'x) svc" and w w1
    by (rule wp_mono [OF wp_read [OF that(2,1)]]) (auto intro: R)
  show "keeps R (closing_tx env job now)"
    unfolding keeps_iff_wp closing_tx_def
    apply (intro allI)
    subgoal for w
      apply (rule wp_begin_tx_bind [of w w], simp add: unchanged_def, erule R)
      apply (rule wp_run_tx_bind, assumption, erule R)
      apply (simp only: fst_conv)
      apply (split option.split, intro conjI impI allI)
       apply (rule un, assumption, intro keeps_intros)
      apply (split if_split, intro conjI impI)
       apply (rule wp_run_tx_bind, assumption, erule R)
       apply (rule wp_commit_bind, assumption, erule R)
       apply (simp add: wp_ret R unchanged_def)
      apply (split if_split, intro conjI impI, rule un, assumption, intro keeps_intros)
      apply (split if_split, intro conjI impI, rule un, assumption, intro keeps_intros)
      apply (rule wp_attempt_execute_bind, assumption)
       apply (simp only: sum.case)
       apply (rule un, assumption, intro keeps_intros)
      apply (simp only: sum.case)
      apply (rule wp_commit_bind, assumption, erule R)
      apply (simp only: wp_ret)
      apply (rule commits; auto)
      done
    done
  show "keeps R (closing_by_hand_tx env i now)"
    unfolding keeps_iff_wp closing_by_hand_tx_def
    apply (intro allI)
    subgoal for w
      apply (rule wp_begin_tx_bind [of w w], simp add: unchanged_def, erule R)
      apply (rule wp_run_tx_bind, assumption, erule R)
      apply (simp only: fst_conv)
      apply (rule wp_ok_or_bind, assumption, erule R)
      apply (split if_split, intro conjI impI, rule un, assumption, intro keeps_intros)
      apply (split if_split, intro conjI impI, rule un, assumption, intro keeps_intros)
      apply (rule wp_execute_bind, assumption, erule R)
      apply (rule wp_commit_bind, assumption, erule R)
      apply (simp only: wp_ret)
      apply (rule commits; auto)
      done
    done
qed

end

context closure_writes
begin

lemma side_effects_kept: "keeps R (execute_post_closure_side_effects env a bs)"
  unfolding execute_post_closure_side_effects_def by (intro keeps_intros)

lemma settle_program [prog_intros]: "prog_keeps R (settle_prog env a bs now)"
  unfolding settle_prog_def by (intro prog_intros keeps_intros side_effects_kept)

lemma closing_programs:
  assumes "\<And>job now. keeps R (closing_tx env job now)" and "\<And>i now. keeps R (closing_by_hand_tx env i now)"
  shows "prog_keeps R (process_one_prog env)" and "prog_keeps R (close_auction_prog env i)"
proof -
  have "prog_keeps R (claimed_job_prog env job now)" for job now
    unfolding claimed_job_prog_def
    by (rule prog_keeps_parts(4) [OF prog_keeps_parts(1) [OF assms(1)]])
      (auto split: closing_tx.split intro!: prog_intros keeps_intros)
  then show "prog_keeps R (process_one_prog env)"
    unfolding process_one_prog_def by (intro prog_intros keeps_intros)
  show "prog_keeps R (close_auction_prog env i)"
    unfolding close_auction_prog_def by (intro prog_intros keeps_intros assms(2))
qed

end

lemma stepping_commit:
  "find_by_id_for_update j (db w) = Some a \<Longrightarrow> lr_end_time a \<le> now \<Longrightarrow> lr_status a \<noteq> ''WON'' \<Longrightarrow> lr_status a \<noteq> ''UNSOLD''
    \<Longrightarrow> closed_in a now (db w) r \<Longrightarrow> db w1 = snd r \<Longrightarrow> wallet_log w1 = wallet_log w \<Longrightarrow> stepping w w1"
  using stepping_closed [OF stepping.R_refl] by blast

lemma answers_keep: "prog_keeps R p \<Longrightarrow> prog_keeps R (answers f p)"
  unfolding answers_def by (intro keeps_bind_prog keeps_Done)

lemma call_steps: "prog_keeps stepping (call_prog c)"
proof (cases c)
  case (BidCall env i u t mode)
  then show ?thesis by (simp add: answers_keep step_service.bid_program)
next
  case (ClosureRound env)
  then show ?thesis
    by (simp add: answers_keep step_closure.closing_programs(1) step_closure.closing_txs stepping_commit)
next
  case (CloseByHand env i)
  then show ?thesis
    by (simp add: answers_keep step_closure.closing_programs(2) step_closure.closing_txs stepping_commit)
qed

lemma bid_call_prices: "prog_keeps prices_rise (call_prog (BidCall env i u t mode))"
  by (simp add: answers_keep prices_service.bid_program)

lemma pool_steps: "stepping w (snd (pool_run ks (map call_prog calls) w))"
  by (rule stepping.pool_run_keeps) (auto simp: call_steps)

text \<open>C11: However bids, proxy bids and closings on any auctions interleave, action by action and with any
  faults, keys and references of the tables stay intact, the terms of the auctions and the identities of
  the events are kept, and the wallet's log only grows; and while they are all bids, no auction's price falls.\<close>

theorem interleaved_calls_keep_the_tables:
  assumes "store_ok (db w)"
  shows "let w1 = snd (pool_run ks (map call_prog calls) w) in
     store_ok (db w1) \<and> history_grows (db w) (db w1) \<and> prefix (wallet_log w) (wallet_log w1)
     \<and> ((\<forall>c \<in> set calls. \<exists>env i u t mode. c = BidCall env i u t mode) \<longrightarrow> list_all2 risen (listings (db w)) (listings (db w1)))"
proof -
  let ?w1 = "snd (pool_run ks (map call_prog calls) w)"
  have "prices_rise w ?w1" if "\<forall>c \<in> set calls. \<exists>env i u t mode. c = BidCall env i u t mode"
    by (rule prices.pool_run_keeps) (use that bid_call_prices in auto)
  then show ?thesis
    using pool_steps [of w ks calls] assms steps_store_ok steps_history_grows
    by (auto simp: Let_def stepping_def prices_rise_def)
qed

section \<open>A bid that outlives the closing\<close>

text \<open>An auction that ends at 1000 with a leader, and a bid made at 990 whose checks are done when the closing
  takes its turn at 1000. The bid then goes on: it releases the hold that was paid out, takes its own, and
  its UPDATE, which does not look at the status, makes the auction open again.\<close>

definition clocked :: "i64 \<Rightarrow> env" where
  "clocked t = calm_env\<lparr>env_clock := (\<lambda>_. t)\<rparr>"

definition race_world :: world where
  "race_world = start_world\<lparr>db := empty_store\<lparr>listings := [sample_listing],
     bids := [\<lparr>br_id = ''b1'', br_auction_id = ''a1'', br_bidder_id = ''u1'', br_bid_amount_cents = 2000,
       br_bid_time = 500, br_wallet_hold_id = Some ''h1''\<rparr>],
     closure_jobs := [job_row ''a1'' 1000 ''PENDING'' 500]\<rparr>\<rparr>"

definition race_calls :: "auction_call list" where
  "race_calls = [BidCall (clocked 990) ''a1'' ''u2'' 990 (Standard 3000), ClosureRound (clocked 1000),
     ClosureRound (clocked 2000), CloseByHand (clocked 2000) ''a1'']"

definition race :: "nat list \<Rightarrow> world" where
  "race ks = snd (pool_run ks (map call_prog race_calls) race_world)"

definition late_bid :: "nat list" where
  "late_bid = replicate 8 0 @ replicate 7 1 @ replicate 20 0"

definition payments :: "world \<Rightarrow> string list" where
  "payments w = concat (map (\<lambda>c. case c of ConvertCall h (Inr _) \<Rightarrow> [h] | _ \<Rightarrow> []) (wallet_log w))"

definition rows_shown :: "world \<Rightarrow> (string \<times> i64 option) list \<times> string list" where
  "rows_shown w = (map (\<lambda>r. (lr_status r, lr_current_highest_bid_cents r)) (listings (db w)), map job_status (closure_jobs (db w)))"


text \<open>The same calls one after the other, the bid last or first.\<close>

lemma calls_in_turn_pay_once:
  "payments (race (replicate 7 1 @ replicate 40 0 @ replicate 5 3)) = [''h1'']"
  "length (payments (race (replicate 40 0 @ replicate 7 1 @ replicate 7 2))) = 1"
  by code_simp+

text \<open>Two bids on one auction, served by two processes, which do not share the locks of
  \<^verbatim>\<open>auction_bid_lock.rs\<close>: a bid of 2500 that was checked before one of 3000 is stored after it. Both are
  accepted and have their holds; the price stays, because the UPDATE asks for a rise. One after the other,
  or under one lock, the lower bid is refused.\<close>

definition rival_bids :: "nat list \<Rightarrow> world" where
  "rival_bids ks = snd (pool_run ks (map call_prog [BidCall (clocked 900) ''a1'' ''u2'' 900 (Standard 3000),
     BidCall (clocked 900) ''a1'' ''u3'' 900 (Standard 2500)]) race_world)"

definition offers_shown :: "world \<Rightarrow> (string \<times> i64 \<times> string option) list \<times> i64 option list" where
  "offers_shown w = (map (\<lambda>b. (br_bidder_id b, br_bid_amount_cents b, br_wallet_hold_id b)) (bids (db w)),
     map lr_current_highest_bid_cents (listings (db w)))"

lemma unlocked_bids_undercut:
  "offers_shown (rival_bids (replicate 12 1 @ replicate 40 0 @ replicate 40 1))
    = ([(''u1'', 2000, Some ''h1''), (''u2'', 3000, Some ''id-16''), (''u3'', 2500, Some ''id-30'')], [Some 3000])"
  "offers_shown (rival_bids (replicate 40 0 @ replicate 40 1))
    = ([(''u1'', 2000, Some ''h1''), (''u2'', 3000, Some ''id-9'')], [Some 3000])"
  by code_simp+

theorem interleaved_calls_keep_the_tables_witness:
  "store_ok (db (race late_bid)) \<and> history_grows (db race_world) (db (race late_bid))"
proof -
  have "store_ok (db race_world)"
    by (simp add: race_world_def start_world_def empty_store_def store_ok_def keys_ok_def refs_ok_def listing_ids_def
        sample_listing_def job_row_def job_states_def)
  from interleaved_calls_keep_the_tables [OF this, of late_bid race_calls] show ?thesis
    by (simp add: Let_def race_def)
qed

end
