(* ===== verification/Relays.thy ===== *)
theory Relays
  imports Publishers
begin

text \<open>
  Several outbox relays on one table: the steps of \<^verbatim>\<open>publish_pending\<close>
  (\<^verbatim>\<open>scheduler/outbox_scheduler.rs\<close>) taken apart, so that relays of different processes take turns between
  any two of them. Every step that touches the table is the statement of the code.
\<close>

section \<open>Relays and their steps\<close>

text \<open>One relay between two of its steps: the events it claimed and has not settled, the time until which
  they are locked, and the result of publishing the first of them, once there is one.\<close>

record relay =
  rl_hand :: "outbox_event_record list"
  rl_lease :: i64
  rl_result :: "(string + unit) option"

definition idle_relay :: relay where
  "idle_relay = \<lparr>rl_hand = [], rl_lease = 0, rl_result = None\<rparr>"

text \<open>The tables, the relays and the clock they share. The last two fields are history: the ids of the
  messages that were published, in order, and of those whose relay stopped before it stored that.\<close>

record relays =
  rs_store :: store
  rs_relays :: "relay list"
  rs_clock :: i64
  rs_delivered :: "string list"
  rs_forgotten :: "string list"

definition idle_relays :: "nat \<Rightarrow> i64 \<Rightarrow> store \<Rightarrow> relays" where
  "idle_relays n now s =
     \<lparr>rs_store = s, rs_relays = replicate n idle_relay, rs_clock = now, rs_delivered = [], rs_forgotten = []\<rparr>"

text \<open>The steps of relay \<open>k\<close>. A claim uses the time the relay read before, which may be earlier than now.
  \<open>ClaimBatch\<close> is the statement of Postgres; on SQLite the candidates are locked one by one (\<open>LockOne\<close>).
  \<open>Abandon\<close> is the end of a turn by an error or the end of the process. Between the steps time passes, and
  other parts of the service write events.\<close>

datatype relay_step =
    ClaimBatch i64 i64 string
  | LockOne i64 string outbox_event_record
  | Publish "string + unit"
  | MarkPublished i64
  | MarkFailed i64 i64
  | Abandon

datatype relay_action = By nat relay_step | TimePasses i64 | WriteEvent outbox_event_record

fun relay_local :: "relay_step \<Rightarrow> i64 \<Rightarrow> relay \<Rightarrow> store \<Rightarrow> (relay \<times> store) option" where
  "relay_local (ClaimBatch now limit worker) clock r s =
     (if rl_hand r = [] \<and> now \<le> clock
      then (case claim_pending_postgres limit now (i64_add now 60) worker s of
          (Inr es, s1) \<Rightarrow> Some (\<lparr>rl_hand = es, rl_lease = i64_add now 60, rl_result = None\<rparr>, s1)
        | (Inl _, s1) \<Rightarrow> None)
      else None)"
| "relay_local (LockOne now worker e) clock r s =
     (if (rl_hand r = [] \<or> rl_lease r = i64_add now 60) \<and> now \<le> clock
      then (case lock_event_stmt (oe_id e) now (i64_add now 60) worker s of
          (Inr n, s1) \<Rightarrow> Some (if n = 1 then r\<lparr>rl_hand := rl_hand r @ [e], rl_lease := i64_add now 60\<rparr> else r, s1)
        | (Inl _, s1) \<Rightarrow> None)
      else None)"
| "relay_local (Publish result) clock r s =
     (if rl_hand r \<noteq> [] \<and> rl_result r = None then Some (r\<lparr>rl_result := Some result\<rparr>, s) else None)"
| "relay_local (MarkPublished at) clock r s =
     (case (rl_hand r, rl_result r) of
        (e # es, Some (Inr _)) \<Rightarrow> Some (r\<lparr>rl_hand := es, rl_result := None\<rparr>, snd (mark_published (oe_id e) at s))
      | _ \<Rightarrow> None)"
| "relay_local (MarkFailed now next) clock r s =
     (case (rl_hand r, rl_result r) of
        (e # es, Some (Inl err)) \<Rightarrow>
          Some (r\<lparr>rl_hand := es, rl_result := None\<rparr>, snd (mark_publish_failed (oe_id e) now next err s))
      | _ \<Rightarrow> None)"
| "relay_local Abandon clock r s = Some (r\<lparr>rl_hand := [], rl_result := None\<rparr>, s)"

text \<open>What a step adds to the history.\<close>

fun delivers :: "relay_step \<Rightarrow> relay \<Rightarrow> string list" where
  "delivers (Publish (Inr _)) r = map oe_id (take 1 (rl_hand r))"
| "delivers _ r = []"

fun forgets :: "relay_step \<Rightarrow> relay \<Rightarrow> string list" where
  "forgets Abandon r = (if rl_result r = Some (Inr ()) then map oe_id (take 1 (rl_hand r)) else [])"
| "forgets _ r = []"

fun relay_act :: "relay_action \<Rightarrow> relays \<Rightarrow> relays option" where
  "relay_act (By k a) st =
     (if k < length (rs_relays st)
      then map_option (\<lambda>(r, s). st\<lparr>rs_store := s, rs_relays := (rs_relays st)[k := r],
          rs_delivered := rs_delivered st @ delivers a (rs_relays st ! k),
          rs_forgotten := rs_forgotten st @ forgets a (rs_relays st ! k)\<rparr>)
        (relay_local a (rs_clock st) (rs_relays st ! k) (rs_store st))
      else None)"
| "relay_act (TimePasses t) st = (if rs_clock st \<le> t then Some (st\<lparr>rs_clock := t\<rparr>) else None)"
| "relay_act (WriteEvent e) st = Some (st\<lparr>rs_store := snd (outbox_insert e (rs_store st))\<rparr>)"

text \<open>Runs on which every state satisfies \<open>ok\<close>; and the states in which no relay is late: whoever holds events
  still has them locked.\<close>

fun relay_run :: "(relays \<Rightarrow> bool) \<Rightarrow> relay_action list \<Rightarrow> relays \<Rightarrow> relays option" where
  "relay_run ok [] st = Some st"
| "relay_run ok (a # as) st =
     (case relay_act a st of None \<Rightarrow> None | Some st1 \<Rightarrow> if ok st1 then relay_run ok as st1 else None)"

definition on_time :: "relays \<Rightarrow> bool" where
  "on_time st = (\<forall>r \<in> set (rs_relays st). rl_hand r \<noteq> [] \<longrightarrow> rs_clock st < rl_lease r)"

end
