(* ===== verification/RelaySteps.thy ===== *)
theory RelaySteps
  imports Relays PublisherFacts
begin

text \<open>
  One relay beside others: what each of its steps does to the rows of the outbox, as long as it holds nothing
  that is no longer locked for it.
\<close>

section \<open>Rows of events\<close>

definition event_row :: "string \<Rightarrow> store \<Rightarrow> outbox_row option" where
  "event_row i s = find (\<lambda>r. oe_id r = i) (outbox_events s)"

lemma event_row_update:
  assumes "outbox_events s1 = update_where P f (outbox_events s)" and "\<And>r. oe_id (f r) = oe_id r"
    and "\<And>r. oe_id r = i \<Longrightarrow> P r = b"
  shows "event_row i s1 = (if b then map_option f (event_row i s) else event_row i s)"
  using assms by (simp add: event_row_def find_update_where_same find_update_where_other)

lemma event_row_of: "distinct (map oe_id (outbox_events s)) \<Longrightarrow> r \<in> set (outbox_events s) \<Longrightarrow> event_row (oe_id r) s = Some r"
  unfolding event_row_def by (rule find_distinct_key)

lemma event_row_None: "event_row i s = None \<longleftrightarrow> i \<notin> oe_id ` set (outbox_events s)"
  by (auto simp: event_row_def find_None_iff)

lemma event_row_SomeD: "event_row i s = Some r \<Longrightarrow> r \<in> set (outbox_events s) \<and> oe_id r = i"
  by (auto simp: event_row_def dest: find_SomeD)

text \<open>A row that a relay holds until \<open>u\<close>.\<close>

definition locked_row :: "i64 \<Rightarrow> string \<Rightarrow> store \<Rightarrow> bool" where
  "locked_row u i s \<longleftrightarrow> (\<exists>r. event_row i s = Some r \<and> \<not> oe_published r \<and> ob_locked_until r = Some u)"

definition published_row :: "string \<Rightarrow> store \<Rightarrow> bool" where
  "published_row i s \<longleftrightarrow> (\<exists>r. event_row i s = Some r \<and> oe_published r)"

lemma locked_row_cong: "event_row i s1 = event_row i s \<Longrightarrow> locked_row u i s1 = locked_row u i s"
  by (simp add: locked_row_def)

lemma published_row_cong: "event_row i s1 = event_row i s \<Longrightarrow> published_row i s1 = published_row i s"
  by (simp add: published_row_def)

lemma locked_not_claimable:
  assumes "locked_row u i s" and "event_row i s = Some r" and "now < u"
  shows "\<not> claimable_event now r \<and> \<not> lock_free now (ob_locked_until r)"
  using assms by (auto simp: locked_row_def claimable_event_def lock_free_def)

lemma locked_not_published: "locked_row u i s \<Longrightarrow> \<not> published_row i s"
  by (auto simp: locked_row_def published_row_def)

section \<open>What a step of one relay does\<close>

definition ids :: "relay \<Rightarrow> string list" where
  "ids r = map oe_id (rl_hand r)"

text \<open>The id whose message was published and not yet marked.\<close>

definition unmarked :: "relay \<Rightarrow> string list" where
  "unmarked r = (if rl_result r = Some (Inr ()) then take 1 (ids r) else [])"

text \<open>A relay is in order: what it holds is locked for it, each event once, and it has a result for nothing but
  the first event it holds.\<close>

definition relay_ok :: "store \<Rightarrow> relay \<Rightarrow> bool" where
  "relay_ok s r \<longleftrightarrow> distinct (ids r) \<and> (\<forall>i \<in> set (ids r). locked_row (rl_lease r) i s)
     \<and> (ids r = [] \<longrightarrow> rl_result r = None)"

text \<open>The effect of a step: it keeps its relay in order, leaves alone the rows of other relays' events while
  these are locked, and moves deliveries from the message to the row.\<close>

definition local_effect :: "relay_step \<Rightarrow> i64 \<Rightarrow> relay \<Rightarrow> store \<Rightarrow> relay \<Rightarrow> store \<Rightarrow> bool" where
  "local_effect a clock r s r1 s1 \<longleftrightarrow>
     map oe_id (outbox_events s1) = map oe_id (outbox_events s) \<and> relay_ok s1 r1
     \<and> (\<forall>u i. i \<notin> set (ids r) \<longrightarrow> locked_row u i s \<longrightarrow> clock < u \<longrightarrow> i \<notin> set (ids r1) \<and> event_row i s1 = event_row i s)
     \<and> (\<forall>i. count_list (delivers a r) i + of_bool (i \<in> set (unmarked r)) + of_bool (published_row i s)
          \<le> count_list (forgets a r) i + of_bool (i \<in> set (unmarked r1)) + of_bool (published_row i s1))"

lemma unmarked_subset: "set (unmarked r) \<subseteq> set (ids r)"
  by (auto simp: unmarked_def dest: in_set_takeD)

lemma relay_okD:
  assumes "relay_ok s r"
  shows "distinct (ids r)" "i \<in> set (ids r) \<Longrightarrow> locked_row (rl_lease r) i s" "ids r = [] \<Longrightarrow> rl_result r = None"
  using assms by (auto simp: relay_ok_def)

lemma delivers_subset: "set (delivers a r) \<subseteq> set (ids r)"
  by (cases "(a, r)" rule: delivers.cases) (auto simp: ids_def take_map dest: in_set_takeD)

lemma relay_idsD: "relay_ok s r \<Longrightarrow> rl_hand r = e # es \<Longrightarrow>
    locked_row (rl_lease r) (oe_id e) s \<and> oe_id e \<notin> oe_id ` set es \<and> distinct (map oe_id es)
    \<and> (\<forall>f \<in> set es. oe_id f \<noteq> oe_id e \<and> locked_row (rl_lease r) (oe_id f) s)"
  by (auto simp: relay_ok_def ids_def) (metis image_eqI)

lemmas marked_rows = event_row_update [where P = "\<lambda>r. oe_id r = j" and b = "i = j" for i j]

lemma mark_published_row:
  "event_row i (snd (mark_published j at s)) = (if i = j then map_option (\<lambda>r. r\<lparr>oe_published := True,
     oe_published_at := Some at, oe_updated_at := at, ob_locked_until := None, ob_locked_by := None, ob_last_error := None\<rparr>)
     (event_row i s) else event_row i s)"
  by (rule marked_rows) (auto simp: mark_published_def)

lemma mark_failed_row:
  "event_row i (snd (mark_publish_failed j now next err s)) = (if i = j then map_option (\<lambda>r. r\<lparr>ob_attempts := ob_attempts r + 1,
     ob_next_attempt_at := next, ob_locked_until := None, ob_locked_by := None, ob_last_error := Some err, oe_updated_at := now\<rparr>)
     (event_row i s) else event_row i s)"
  by (rule marked_rows) (auto simp: mark_publish_failed_def)

lemma mark_ids:
  "map oe_id (outbox_events (snd (mark_published j at s))) = map oe_id (outbox_events s)"
  "map oe_id (outbox_events (snd (mark_publish_failed j now next err s))) = map oe_id (outbox_events s)"
  by (simp_all add: mark_published_def mark_publish_failed_def map_update_where)

lemma publish_effect:
  assumes "relay_local (Publish x) clock r s = Some (r1, s1)" and "relay_ok s r"
  shows "local_effect (Publish x) clock r s r1 s1"
proof -
  from assms(1) have r1: "r1 = r\<lparr>rl_result := Some x\<rparr>" "s1 = s" and hand: "ids r \<noteq> []" and "rl_result r = None"
    by (auto simp: ids_def split: if_splits)
  then have "unmarked r = []" by (simp add: unmarked_def)
  moreover have "ids r1 = ids r" "rl_lease r1 = rl_lease r" by (simp_all add: r1 ids_def)
  moreover have "count_list (delivers (Publish x) r) i \<le> of_bool (i \<in> set (unmarked r1))" for i
    by (cases x; cases "rl_hand r") (auto simp: r1 unmarked_def ids_def)
  ultimately show ?thesis using assms(2) hand by (simp add: local_effect_def relay_ok_def r1(2))
qed

lemma abandon_effect: "local_effect Abandon clock r s (r\<lparr>rl_hand := [], rl_result := None\<rparr>) s"
proof -
  have "of_bool (i \<in> set (unmarked r)) \<le> count_list (forgets Abandon r) i" for i
    by (cases "rl_hand r") (auto simp: unmarked_def ids_def)
  moreover have "unmarked (r\<lparr>rl_hand := [], rl_result := None\<rparr>) = []" by (simp add: unmarked_def)
  ultimately show ?thesis by (simp add: local_effect_def relay_ok_def ids_def del: forgets.simps)
qed

lemma mark_published_effect:
  assumes "relay_local (MarkPublished at) clock r s = Some (r1, s1)" and "relay_ok s r"
  shows "local_effect (MarkPublished at) clock r s r1 s1"
proof -
  from assms(1) obtain e es u where h: "rl_hand r = e # es" "rl_result r = Some (Inr u)"
    and r1: "r1 = r\<lparr>rl_hand := es, rl_result := None\<rparr>" "s1 = snd (mark_published (oe_id e) at s)"
    by (auto split: list.splits option.splits sum.splits)
  note held = relay_idsD [OF assms(2) h(1)]
  have row: "event_row i s1 = event_row i s" if "i \<noteq> oe_id e" for i
    using that by (simp add: r1 mark_published_row)
  have "published_row (oe_id e) s1" "\<not> published_row (oe_id e) s"
    using held by (auto simp: r1 mark_published_row published_row_def locked_row_def)
  then have "of_bool (i \<in> set (unmarked r)) + of_bool (published_row i s) \<le> (of_bool (published_row i s1) :: nat)" for i
    using published_row_cong [OF row [of i]] h by (cases "i = oe_id e") (simp_all add: unmarked_def ids_def)
  moreover have "relay_ok s1 r1"
    using held locked_row_cong [OF row] by (auto simp: relay_ok_def ids_def r1(1))
  moreover have "i \<notin> set (ids r1) \<and> event_row i s1 = event_row i s" if "i \<notin> set (ids r)" for i
    using that h row [of i] by (auto simp: ids_def r1(1))
  ultimately show ?thesis by (simp add: local_effect_def r1(2) mark_ids add_increasing)
qed

lemma mark_failed_effect:
  assumes "relay_local (MarkFailed now next) clock r s = Some (r1, s1)" and "relay_ok s r"
  shows "local_effect (MarkFailed now next) clock r s r1 s1"
proof -
  from assms(1) obtain e es err where h: "rl_hand r = e # es" "rl_result r = Some (Inl err)"
    and r1: "r1 = r\<lparr>rl_hand := es, rl_result := None\<rparr>" "s1 = snd (mark_publish_failed (oe_id e) now next err s)"
    by (auto split: list.splits option.splits sum.splits)
  note held = relay_idsD [OF assms(2) h(1)]
  have row: "event_row i s1 = event_row i s" if "i \<noteq> oe_id e" for i
    using that by (simp add: r1 mark_failed_row)
  have "published_row i s1 = published_row i s" for i
    by (auto simp: r1 mark_failed_row published_row_def)
  moreover have "unmarked r = []" by (simp add: unmarked_def h)
  moreover have "relay_ok s1 r1"
    using held locked_row_cong [OF row] by (auto simp: relay_ok_def ids_def r1(1))
  moreover have "i \<notin> set (ids r1) \<and> event_row i s1 = event_row i s" if "i \<notin> set (ids r)" for i
    using that h row [of i] by (auto simp: ids_def r1(1))
  ultimately show ?thesis by (simp add: local_effect_def r1(2) mark_ids)
qed

text \<open>Locking rows that were free keeps what is published and what others have locked.\<close>

lemma lock_row:
  assumes "outbox_events s1 = update_where P (lock_event u worker now) (outbox_events s)"
    and "\<And>r. oe_id r = i \<Longrightarrow> event_row i s = Some r \<Longrightarrow> P r = b" and "distinct (map oe_id (outbox_events s))"
  shows "event_row i s1 = (if b then map_option (lock_event u worker now) (event_row i s) else event_row i s)"
proof (cases "event_row i s")
  case None
  then have "i \<notin> oe_id ` set (outbox_events s)" by (simp add: event_row_None)
  then have "i \<notin> oe_id ` set (outbox_events s1)" by (auto simp: assms(1) lock_event_def dest!: set_update_whereD)
  then have "event_row i s1 = None" by (simp add: event_row_None)
  then show ?thesis using None by simp
next
  case (Some r)
  then have r: "r \<in> set (outbox_events s)" "oe_id r = i" by (auto dest: event_row_SomeD)
  have "(if b then lock_event u worker now r else r) \<in> set (outbox_events s1)"
    using r assms(2) [OF r(2) Some] by (auto simp: assms(1) set_update_where)
  moreover have "distinct (map oe_id (outbox_events s1))"
    using assms(3) by (simp add: assms(1) map_update_where lock_event_def)
  ultimately have "event_row i s1 = Some (if b then lock_event u worker now r else r)"
    using event_row_of [of s1 "if b then lock_event u worker now r else r"] r by (auto simp: lock_event_def)
  then show ?thesis using Some by simp
qed

lemma claim_effect:
  assumes "relay_local (ClaimBatch now limit worker) clock r s = Some (r1, s1)" and "relay_ok s r"
    and dist: "distinct (map oe_id (outbox_events s))"
  shows "local_effect (ClaimBatch now limit worker) clock r s r1 s1"
proof -
  let ?u = "i64_add now 60" and ?c = "set (map oe_id (outbox_candidates limit now s))"
  let ?P = "\<lambda>r :: outbox_row. oe_id r \<in> ?c" and ?lock = "lock_event (i64_add now 60) worker now"
  from assms(1) have hand: "rl_hand r = []" and now: "now \<le> clock"
    and r1: "rl_hand r1 = map (outbox_event_record.truncate \<circ> ?lock) (filter ?P (outbox_events s))" "rl_lease r1 = ?u" "rl_result r1 = None"
    and s1: "outbox_events s1 = update_where ?P ?lock (outbox_events s)"
    by (auto simp: claim_pending_postgres_def Let_def split: if_splits)
  have ids1: "ids r1 = map oe_id (filter ?P (outbox_events s))"
    by (simp add: r1 ids_def outbox_event_record.defs lock_event_def)
  have row: "event_row i s1 = (if i \<in> ?c then map_option ?lock (event_row i s) else event_row i s)" for i
    by (rule lock_row [OF s1 _ dist]) simp
  have claimable: "\<exists>x. event_row i s = Some x \<and> claimable_event now x" if "i \<in> ?c" for i
    using that event_row_of [OF dist] by (auto simp: outbox_candidates_def sql_limit_def dest!: in_set_takeD)
  have in_c: "i \<in> set (ids r1) \<longleftrightarrow> i \<in> ?c" for i
    using claimable [of i] by (fastforce simp: ids1 dest: event_row_SomeD)
  have "locked_row ?u i s1" if "i \<in> set (ids r1)" for i
    using that claimable [of i] in_c [of i] row [of i] by (auto simp: locked_row_def lock_event_def claimable_event_def)
  then have "relay_ok s1 r1"
    using dist by (simp add: relay_ok_def r1(2,3)) (simp add: ids1 distinct_map_filter)
  moreover have "published_row i s1 = published_row i s" for i
    by (auto simp: published_row_def row lock_event_def)
  moreover have "i \<notin> set (ids r1) \<and> event_row i s1 = event_row i s" if "locked_row u i s" "clock < u" for u i
    using that now claimable [of i] locked_not_claimable [of u i s] in_c [of i] row [of i] by fastforce
  moreover have "unmarked r = []" by (simp add: unmarked_def ids_def hand)
  moreover have "map oe_id (outbox_events s1) = map oe_id (outbox_events s)"
    by (simp add: s1 map_update_where lock_event_def)
  ultimately show ?thesis by (simp add: local_effect_def)
qed

lemma one_event_matches:
  assumes dist: "distinct (map oe_id (outbox_events s))"
  shows "length (filter (\<lambda>r. oe_id r = i \<and> Q r) (outbox_events s)) = 1 \<longleftrightarrow> (\<exists>x. event_row i s = Some x \<and> Q x)"
proof -
  let ?rows = "filter (\<lambda>r. oe_id r = i \<and> Q r) (outbox_events s)"
  show ?thesis
  proof
    assume "length ?rows = 1"
    then obtain x where "x \<in> set ?rows" by (metis length_greater_0_conv list.set_sel(1) zero_less_one)
    then show "\<exists>x. event_row i s = Some x \<and> Q x" using event_row_of [OF dist, of x] by auto
  next
    assume "\<exists>x. event_row i s = Some x \<and> Q x"
    then obtain x where x: "x \<in> set (outbox_events s)" "oe_id x = i" "Q x" by (auto dest: event_row_SomeD)
    have "distinct (map oe_id ?rows)" using dist by (simp add: distinct_map_filter)
    then have "card (oe_id ` set ?rows) = length ?rows" using distinct_card by fastforce
    moreover have "oe_id ` set ?rows = {i}" using x by auto
    ultimately show "length ?rows = 1" by simp
  qed
qed

lemma lock_one_effect:
  assumes "relay_local (LockOne now worker e) clock r s = Some (r1, s1)" and "relay_ok s r"
    and dist: "distinct (map oe_id (outbox_events s))" and on_time: "rl_hand r \<noteq> [] \<longrightarrow> clock < rl_lease r"
  shows "local_effect (LockOne now worker e) clock r s r1 s1"
proof -
  let ?u = "i64_add now 60" and ?lock = "lock_event (i64_add now 60) worker now"
  let ?P = "\<lambda>r :: outbox_row. oe_id r = oe_id e \<and> \<not> oe_published r \<and> lock_free now (ob_locked_until r)"
  let ?n = "length (filter ?P (outbox_events s))"
  from assms(1) have lease: "rl_hand r = [] \<or> rl_lease r = ?u" and now: "now \<le> clock"
    and r1: "r1 = (if ?n = 1 then r\<lparr>rl_hand := rl_hand r @ [e], rl_lease := ?u\<rparr> else r)"
    and s1: "outbox_events s1 = update_where ?P ?lock (outbox_events s)"
    by (auto simp: lock_event_stmt_def Let_def split: if_splits)
  let ?free = "\<exists>x. event_row (oe_id e) s = Some x \<and> \<not> oe_published x \<and> lock_free now (ob_locked_until x)"
  have row: "event_row i s1 = (if i = oe_id e \<and> ?free then map_option ?lock (event_row i s) else event_row i s)" for i
    by (rule lock_row [OF s1 _ dist]) auto
  have n: "?n = 1 \<longleftrightarrow> ?free" by (rule one_event_matches [OF dist])
  have held: "locked_row u i s \<Longrightarrow> clock < u \<Longrightarrow> event_row i s1 = event_row i s \<and> \<not> (i = oe_id e \<and> ?free)" for u i
    using now by (auto simp: row locked_row_def lock_free_def)
  have "map oe_id (outbox_events s1) = map oe_id (outbox_events s)"
    by (simp add: s1 map_update_where lock_event_def)
  moreover have "published_row i s1 = published_row i s" for i
    by (auto simp: published_row_def row lock_event_def)
  moreover have r1: "r1 = (if ?free then r\<lparr>rl_hand := rl_hand r @ [e], rl_lease := ?u\<rparr> else r)" using r1 unfolding n .
  moreover have ids1: "ids r1 = (if ?free then ids r @ [oe_id e] else ids r)" by (simp add: r1 ids_def)
  moreover have "set (unmarked r) \<subseteq> set (unmarked r1)"
    using relay_okD(3) [OF assms(2)] by (cases "rl_hand r") (auto simp: unmarked_def r1 ids_def)
  moreover have "relay_ok s1 r1"
  proof (cases ?free)
    case True
    then have "locked_row ?u (oe_id e) s1" by (auto simp: locked_row_def row lock_event_def)
    moreover have "i \<noteq> oe_id e \<and> locked_row ?u i s1" if i: "i \<in> set (ids r)" for i
    proof -
      have u: "rl_lease r = ?u" "clock < ?u" using i lease on_time by (auto simp: ids_def)
      then have l: "locked_row ?u i s" using relay_okD(2) [OF assms(2) i] by simp
      from held [OF this u(2)] True have "event_row i s1 = event_row i s" "i \<noteq> oe_id e" by blast+
      with l show ?thesis using locked_row_cong by blast
    qed
    moreover have "rl_lease r1 = ?u" using True by (simp add: r1)
    ultimately show ?thesis using True relay_okD(1) [OF assms(2)] by (auto simp: relay_ok_def ids1)
  next
    case False
    then have "event_row i s1 = event_row i s" for i by (auto simp: row)
    then show ?thesis using False assms(2) by (auto simp: relay_ok_def r1 locked_row_def)
  qed
  moreover have "i \<notin> set (ids r1) \<and> event_row i s1 = event_row i s" if "i \<notin> set (ids r)" "locked_row u i s" "clock < u" for u i
    using held [OF that(2,3)] that(1) by (auto simp: ids1)
  ultimately show ?thesis by (auto simp: local_effect_def)
qed

theorem relay_local_effect:
  assumes "relay_local a clock r s = Some (r1, s1)" and "relay_ok s r"
    and "distinct (map oe_id (outbox_events s))" and "rl_hand r \<noteq> [] \<longrightarrow> clock < rl_lease r"
  shows "local_effect a clock r s r1 s1"
proof (cases a)
  case Abandon
  then show ?thesis using assms(1) abandon_effect by auto
next
  case (ClaimBatch now limit worker)
  then show ?thesis using assms claim_effect by blast
next
  case (LockOne now worker e)
  then show ?thesis using assms lock_one_effect by blast
next
  case (Publish x)
  then show ?thesis using assms publish_effect by blast
next
  case (MarkPublished t)
  then show ?thesis using assms mark_published_effect by blast
next
  case (MarkFailed now t)
  then show ?thesis using assms mark_failed_effect by blast
qed

end
