(* ===== verification/RelayFacts.thy ===== *)
theory RelayFacts
  imports RelaySteps
begin

text \<open>
  Relays of several processes on one outbox. While no relay is late, no two of them hold the same event, and
  an event is delivered twice only if a relay stopped between publishing it and storing that. A late relay
  delivers twice. A turn of the relay as the code runs it is a run of these steps.
\<close>

section \<open>All relays\<close>

text \<open>Every event is held by one relay at most.\<close>

definition disjoint_hands :: "relay list \<Rightarrow> bool" where
  "disjoint_hands rs \<longleftrightarrow> (\<forall>j < length rs. \<forall>k < length rs. j \<noteq> k \<longrightarrow> set (ids (rs ! j)) \<inter> set (ids (rs ! k)) = {})"

definition delivered_once :: "relays \<Rightarrow> bool" where
  "delivered_once st \<longleftrightarrow> (\<forall>i. count_list (rs_delivered st) i \<le> count_list (rs_forgotten st) i
     + (if published_row i (rs_store st) \<or> (\<exists>r \<in> set (rs_relays st). i \<in> set (unmarked r)) then 1 else 0))"

definition relays_ok :: "relays \<Rightarrow> bool" where
  "relays_ok st \<longleftrightarrow> distinct (map oe_id (outbox_events (rs_store st)))
     \<and> (\<forall>r \<in> set (rs_relays st). relay_ok (rs_store st) r) \<and> disjoint_hands (rs_relays st) \<and> delivered_once st"

lemma idle_relays_ok: "distinct (map oe_id (outbox_events s)) \<Longrightarrow> relays_ok (idle_relays n now s)"
  by (auto simp: relays_ok_def idle_relays_def idle_relay_def relay_ok_def disjoint_hands_def delivered_once_def ids_def)

lemma disjoint_update:
  assumes "disjoint_hands rs" and "k < length rs"
    and "\<And>j. j < length rs \<Longrightarrow> j \<noteq> k \<Longrightarrow> set (ids (rs ! j)) \<inter> set (ids r) = {}"
  shows "disjoint_hands (rs[k := r])"
  using assms by (auto simp: disjoint_hands_def nth_list_update)

text \<open>Another part of the service writes an event.\<close>

lemma write_event_ok:
  assumes "relays_ok st"
  shows "relays_ok (st\<lparr>rs_store := snd (outbox_insert e (rs_store st))\<rparr>)"
proof -
  let ?s = "rs_store st" and ?s1 = "snd (outbox_insert e (rs_store st))"
  have row: "event_row i ?s1 = event_row i ?s" if "event_row i ?s \<noteq> None" for i
    using that by (auto simp: event_row_def outbox_insert_def find_append split: option.split)
  then have "locked_row u i ?s1" if "locked_row u i ?s" for u i using that by (metis locked_row_def option.distinct(1))
  moreover have published: "published_row i ?s1" if "published_row i ?s" for i
    using that row by (metis option.distinct(1) published_row_def)
  moreover have "distinct (map oe_id (outbox_events ?s1))"
    using assms by (auto simp: relays_ok_def outbox_insert_def has_key_iff outbox_event_record.defs)
  moreover have "delivered_once (st\<lparr>rs_store := ?s1\<rparr>)"
    unfolding delivered_once_def
  proof
    fix i
    show "count_list (rs_delivered (st\<lparr>rs_store := ?s1\<rparr>)) i \<le> count_list (rs_forgotten (st\<lparr>rs_store := ?s1\<rparr>)) i
        + (if published_row i (rs_store (st\<lparr>rs_store := ?s1\<rparr>))
            \<or> (\<exists>r \<in> set (rs_relays (st\<lparr>rs_store := ?s1\<rparr>)). i \<in> set (unmarked r)) then 1 else 0)"
      using assms published [of i] by (auto simp: relays_ok_def delivered_once_def dest!: spec [of _ i] split: if_splits)
  qed
  ultimately show ?thesis using assms by (simp add: relays_ok_def relay_ok_def)
qed

text \<open>Relay \<open>k\<close> makes a step: what the others hold stays theirs.\<close>

lemma others_keep_theirs:
  assumes "relays_ok st" and "on_time st" and "k < length (rs_relays st)"
    and "local_effect a (rs_clock st) (rs_relays st ! k) (rs_store st) r1 s1"
    and j: "j < length (rs_relays st)" "j \<noteq> k" and i: "i \<in> set (ids (rs_relays st ! j))"
  shows "i \<notin> set (ids (rs_relays st ! k)) \<and> i \<notin> set (ids r1) \<and> locked_row (rl_lease (rs_relays st ! j)) i s1"
proof -
  let ?q = "rs_relays st ! j"
  have q: "?q \<in> set (rs_relays st)" using j by simp
  have "i \<notin> set (ids (rs_relays st ! k))" using assms(1,3) j i by (auto simp: relays_ok_def disjoint_hands_def)
  moreover have "relay_ok (rs_store st) ?q" using assms(1) q by (simp add: relays_ok_def)
  from relay_okD(2) [OF this i] have "locked_row (rl_lease ?q) i (rs_store st)" .
  moreover have "rs_clock st < rl_lease ?q" using assms(2) q i by (auto simp: on_time_def ids_def)
  ultimately show ?thesis using assms(4) locked_row_cong unfolding local_effect_def by metis
qed

lemma delivered_step:
  assumes ok: "relays_ok st" "on_time st" and k: "k < length (rs_relays st)"
    and effect: "local_effect a (rs_clock st) (rs_relays st ! k) (rs_store st) r1 s1"
    and st1: "rs_store st1 = s1" "rs_relays st1 = (rs_relays st)[k := r1]"
      "rs_delivered st1 = rs_delivered st @ delivers a (rs_relays st ! k)"
      "rs_forgotten st1 = rs_forgotten st @ forgets a (rs_relays st ! k)"
  shows "delivered_once st1"
  unfolding delivered_once_def
proof
  fix i
  let ?r = "rs_relays st ! k" and ?s = "rs_store st"
  note others = others_keep_theirs [OF ok k effect]
  have once: "count_list (rs_delivered st) i \<le> count_list (rs_forgotten st) i
      + (if published_row i ?s \<or> (\<exists>r \<in> set (rs_relays st). i \<in> set (unmarked r)) then 1 else 0)"
    using ok(1) by (simp add: relays_ok_def delivered_once_def)
  show "count_list (rs_delivered st1) i \<le> count_list (rs_forgotten st1) i
      + (if published_row i (rs_store st1) \<or> (\<exists>r \<in> set (rs_relays st1). i \<in> set (unmarked r)) then 1 else 0)"
  proof (cases "\<exists>j < length (rs_relays st). j \<noteq> k \<and> i \<in> set (unmarked (rs_relays st ! j))")
    case True
    then obtain j where j: "j < length (rs_relays st)" "j \<noteq> k" "i \<in> set (unmarked (rs_relays st ! j))" by blast
    then have "i \<notin> set (delivers a ?r)" using others [OF j(1,2)] unmarked_subset delivers_subset by blast
    moreover have "rs_relays st ! j \<in> set (rs_relays st1)" using j by (auto simp: st1 in_set_conv_nth intro!: exI [of _ j])
    ultimately show ?thesis using once j(3) by (auto simp: st1 count_list_append split: if_splits)
  next
    case False
    then have "(\<exists>r \<in> set (rs_relays st). i \<in> set (unmarked r)) \<longleftrightarrow> i \<in> set (unmarked ?r)"
      using k by (metis in_set_conv_nth [of _ "rs_relays st"])
    moreover have "r1 \<in> set (rs_relays st1)" using k by (simp add: st1 set_update_memI)
    moreover have r1: "relay_ok s1 r1" using effect by (simp add: local_effect_def)
    then have "i \<in> set (unmarked r1) \<Longrightarrow> \<not> published_row i s1"
      using relay_okD(2) [OF r1] locked_not_published unmarked_subset by blast
    moreover have "count_list (delivers a ?r) i + of_bool (i \<in> set (unmarked ?r)) + of_bool (published_row i ?s)
        \<le> count_list (forgets a ?r) i + of_bool (i \<in> set (unmarked r1)) + of_bool (published_row i s1)"
      using effect by (simp add: local_effect_def)
    ultimately show ?thesis using once by (auto simp: st1 count_list_append of_bool_def split: if_splits)
  qed
qed

lemma relay_step_ok:
  assumes ok: "relays_ok st" "on_time st" and k: "k < length (rs_relays st)"
    and effect: "local_effect a (rs_clock st) (rs_relays st ! k) (rs_store st) r1 s1"
    and st1: "rs_store st1 = s1" "rs_relays st1 = (rs_relays st)[k := r1]" and once: "delivered_once st1"
  shows "relays_ok st1"
proof -
  note others = others_keep_theirs [OF ok k effect]
  have r1: "relay_ok s1 r1" and ids1: "map oe_id (outbox_events s1) = map oe_id (outbox_events (rs_store st))"
    using effect by (simp_all add: local_effect_def)
  have "relay_ok s1 q" if q: "q \<in> set ((rs_relays st)[k := r1])" for q
  proof -
    from q obtain j where j: "j < length (rs_relays st)" "q = (rs_relays st)[k := r1] ! j" by (auto simp: in_set_conv_nth)
    show ?thesis
    proof (cases "j = k")
      case False
      then have "q = rs_relays st ! j" using j by simp
      moreover have "relay_ok (rs_store st) (rs_relays st ! j)" using ok(1) j by (simp add: relays_ok_def)
      ultimately show ?thesis using others [OF j(1) False] by (simp add: relay_ok_def)
    qed (use j r1 in simp)
  qed
  moreover have "disjoint_hands ((rs_relays st)[k := r1])"
    using ok(1) k others by (intro disjoint_update) (auto simp: relays_ok_def)
  ultimately show ?thesis using ok(1) ids1 once by (simp add: relays_ok_def st1)
qed

lemma act_keeps_relays_ok:
  assumes "relays_ok st" and "on_time st" and "relay_act a st = Some st1"
  shows "relays_ok st1"
proof (cases a)
  case (TimePasses t)
  then have "st1 = st\<lparr>rs_clock := t\<rparr>" using assms(3) by (simp split: if_splits)
  then show ?thesis using assms(1) by (simp add: relays_ok_def delivered_once_def)
next
  case (WriteEvent e)
  then show ?thesis using assms(3) write_event_ok [OF assms(1)] by auto
next
  case (By k x)
  let ?r = "rs_relays st ! k"
  obtain r1 s1 where k: "k < length (rs_relays st)" and l: "relay_local x (rs_clock st) ?r (rs_store st) = Some (r1, s1)"
    and st1: "st1 = st\<lparr>rs_store := s1, rs_relays := (rs_relays st)[k := r1],
        rs_delivered := rs_delivered st @ delivers x ?r, rs_forgotten := rs_forgotten st @ forgets x ?r\<rparr>"
    using assms(3) By by (auto split: if_splits)
  have effect: "local_effect x (rs_clock st) ?r (rs_store st) r1 s1"
    by (rule relay_local_effect [OF l]) (use assms(1,2) k in \<open>auto simp: relays_ok_def on_time_def\<close>)
  from relay_step_ok [OF assms(1,2) k effect] delivered_step [OF assms(1,2) k effect] st1 show ?thesis by simp
qed

lemma run_keeps_relays_ok: "relay_run on_time acts st = Some st1 \<Longrightarrow> relays_ok st \<Longrightarrow> on_time st \<Longrightarrow> relays_ok st1"
  by (induction on_time acts st rule: relay_run.induct)
    (auto split: option.splits if_splits intro: act_keeps_relays_ok)

text \<open>C12: Relays of any number, on Postgres or SQLite, take their steps in any order, beside other writers and with
  failures anywhere, but none of them is late. Then no two relays hold the same event, and the messages
  published for an event are at most one more than the relays that stopped between publishing it and
  marking it published.\<close>

theorem relays_deliver_once:
  assumes "distinct (map oe_id (outbox_events s))" and "relay_run on_time acts (idle_relays n now s) = Some st"
  shows "disjoint_hands (rs_relays st) \<and> count_list (rs_delivered st) i \<le> Suc (count_list (rs_forgotten st) i)"
proof -
  have "on_time (idle_relays n now s)" by (simp add: on_time_def idle_relays_def idle_relay_def)
  from run_keeps_relays_ok [OF assms(2) idle_relays_ok [OF assms(1)] this]
  have "relays_ok st" .
  then have "count_list (rs_delivered st) i \<le> count_list (rs_forgotten st) i
      + (if published_row i (rs_store st) \<or> (\<exists>r \<in> set (rs_relays st). i \<in> set (unmarked r)) then 1 else 0)"
    by (simp add: relays_ok_def delivered_once_def)
  also have "\<dots> \<le> Suc (count_list (rs_forgotten st) i)" by simp
  finally show ?thesis using \<open>relays_ok st\<close> by (simp add: relays_ok_def)
qed

text \<open>Two relays and one event: the second finds it locked, and the first publishes it in time. And a first
  relay that publishes after its minute.\<close>

definition prompt_relays :: "relay_action list" where
  "prompt_relays = [By 0 (ClaimBatch 1000 50 ''p0''), TimePasses 1059, By 1 (ClaimBatch 1059 50 ''p1''),
     By 0 (Publish (Inr ())), By 0 (MarkPublished 1059)]"

definition late_relays :: "relay_action list" where
  "late_relays = [By 0 (ClaimBatch 1000 50 ''p0''), TimePasses 1060, By 1 (ClaimBatch 1060 50 ''p1''),
     By 1 (Publish (Inr ())), By 1 (MarkPublished 1060), By 0 (Publish (Inr ())), By 0 (MarkPublished 1061)]"

definition relays_of :: "relays option \<Rightarrow> (string list \<times> string list \<times> string list list) option" where
  "relays_of = map_option (\<lambda>st. (rs_delivered st, rs_forgotten st, map ids (rs_relays st)))"

lemma prompt_relays_run: "relays_of (relay_run on_time prompt_relays (idle_relays 2 1000 event_store)) = Some ([''e1''], [], [[], []])"
  by code_simp

theorem relays_deliver_once_witness:
  "case relay_run on_time prompt_relays (idle_relays 2 1000 event_store) of
     Some st \<Rightarrow> count_list (rs_delivered st) ''e1'' \<le> 1 | None \<Rightarrow> False"
proof -
  obtain st where st: "relay_run on_time prompt_relays (idle_relays 2 1000 event_store) = Some st" "rs_forgotten st = []"
    using prompt_relays_run by (auto simp: relays_of_def)
  have "distinct (map oe_id (outbox_events event_store))" by (simp add: event_store_def)
  from relays_deliver_once [OF this st(1), of "''e1''"] show ?thesis using st by simp
qed

text \<open>The second of late relays claims the event again, and both publish it: the statements that settle an
  event ask neither for the worker nor for its lock.\<close>

theorem late_relay_delivers_twice:
  "relays_of (relay_run (\<lambda>_. True) late_relays (idle_relays 2 1000 event_store)) = Some ([''e1'', ''e1''], [], [[], []])
    \<and> relay_run on_time late_relays (idle_relays 2 1000 event_store) = None"
  by (rule conjI) code_simp+

section \<open>A turn of the relay\<close>

text \<open>Relay \<open>k\<close> gets by its own steps to the state \<open>r\<close> and the tables \<open>s\<close>, and publishes \<open>ds\<close> on the way.\<close>

definition reaches :: "nat \<Rightarrow> relays \<Rightarrow> relay \<Rightarrow> store \<Rightarrow> string list \<Rightarrow> bool" where
  "reaches k st r s ds \<longleftrightarrow> (\<exists>steps st1. relay_run (\<lambda>_. True) (map (By k) steps) st = Some st1
     \<and> rs_store st1 = s \<and> rs_relays st1 = (rs_relays st)[k := r] \<and> rs_clock st1 = rs_clock st
     \<and> rs_delivered st1 = rs_delivered st @ ds)"

lemma relay_run_append: "relay_run (\<lambda>_. True) (as @ bs) st = Option.bind (relay_run (\<lambda>_. True) as st) (relay_run (\<lambda>_. True) bs)"
  by (induction as arbitrary: st) (auto split: option.split)

lemma reaches_start: "reaches k st (rs_relays st ! k) (rs_store st) []"
  unfolding reaches_def by (rule exI [of _ "[]"]) simp

lemma reaches_step:
  assumes "reaches k st r s ds" and "relay_local a (rs_clock st) r s = Some (r2, s2)" and k: "k < length (rs_relays st)"
  shows "reaches k st r2 s2 (ds @ delivers a r)"
proof -
  obtain steps st1 where st1: "relay_run (\<lambda>_. True) (map (By k) steps) st = Some st1" "rs_store st1 = s"
      "rs_relays st1 = (rs_relays st)[k := r]" "rs_clock st1 = rs_clock st" "rs_delivered st1 = rs_delivered st @ ds"
    using assms(1) by (auto simp: reaches_def)
  then obtain st2 where "relay_run (\<lambda>_. True) (map (By k) (steps @ [a])) st = Some st2" "rs_store st2 = s2"
      "rs_relays st2 = (rs_relays st)[k := r2]" "rs_clock st2 = rs_clock st" "rs_delivered st2 = rs_delivered st @ ds @ delivers a r"
    using assms(2) k by (simp add: relay_run_append)
  then show ?thesis unfolding reaches_def by (metis append_assoc)
qed

lemma reaches_end: "reaches k st r s ds \<Longrightarrow> k < length (rs_relays st) \<Longrightarrow> \<exists>r1. reaches k st r1 s ds \<and> rl_hand r1 = []"
  using reaches_step [of k st r s ds Abandon] by fastforce

lemma settled_reaches:
  assumes "reaches k st r (db w) ds" and "k < length (rs_relays st)" and "rl_hand r = e # es" and "rl_result r = Some x"
    and "settle_event env e x report w = (res, w1)"
  shows "case res of Inl m \<Rightarrow> db w1 = db w
    | Inr report1 \<Rightarrow> reaches k st (r\<lparr>rl_hand := es, rl_result := None\<rparr>) (db w1) ds
        \<and> opr_published report1 = opr_published report + (if x = Inr () then 1 else 0)"
proof (cases x)
  case (Inl err)
  have "reaches k st (r\<lparr>rl_hand := es, rl_result := None\<rparr>) (snd (mark_publish_failed (oe_id e) now later err (db w))) ds" for now later
    using reaches_step [OF assms(1), of "MarkFailed now later"] assms(2,3,4) Inl by simp
  then show ?thesis using assms(5) Inl
    by (auto simp: settle_event_def bindS_def utc_now_def run_stmt_def ret_def next_tick_def mark_publish_failed_def split: option.splits)
next
  case (Inr u)
  have "reaches k st (r\<lparr>rl_hand := es, rl_result := None\<rparr>) (snd (mark_published (oe_id e) t (db w))) ds" for t
    using reaches_step [OF assms(1), of "MarkPublished t"] assms(2,3,4) Inr by simp
  then show ?thesis using assms(5) Inr
    by (auto simp: settle_event_def bindS_def utc_now_def run_stmt_def ret_def next_tick_def mark_published_def split: option.splits)
qed

lemma events_reach:
  assumes "relay_events env publish es report w p = (res, w1, p1)" and "reaches k st r (db w) ds" and "k < length (rs_relays st)"
    and "rl_hand r = es" and "rl_result r = None" and "length ds = opr_published report"
  shows "\<exists>r1 ds1. reaches k st r1 (db w1) ds1 \<and> rl_hand r1 = [] \<and> (\<forall>report1. res = Inr report1 \<longrightarrow> length ds1 = opr_published report1)"
  using assms
proof (induction es arbitrary: report w p r ds)
  case Nil
  then show ?case by auto
next
  case (Cons e es)
  obtain x p2 where x: "publish e p = (x, p2)" by force
  let ?r = "r\<lparr>rl_result := Some x\<rparr>"
  have pub: "reaches k st ?r (db (next_tick w)) (ds @ delivers (Publish x) r)"
    using reaches_step [OF Cons.prems(2), of "Publish x"] Cons.prems(3,4,5) by (simp add: next_tick_def)
  have n: "length (delivers (Publish x) r) = (if x = Inr () then 1 else 0)"
    using Cons.prems(4) by (cases x) auto
  obtain res2 w2 where s: "settle_event env e x report (next_tick w) = (res2, w2)" by force
  note settled = settled_reaches [OF pub Cons.prems(3) _ _ s, of es]
  show ?case
  proof (cases res2)
    case (Inl m)
    then have "res = Inl m \<and> w1 = w2" using Cons.prems(1) x s by simp
    moreover have "reaches k st ?r (db w2) (ds @ delivers (Publish x) r)" using settled Inl pub Cons.prems(4) by simp
    ultimately show ?thesis using reaches_end [OF _ Cons.prems(3)] by blast
  next
    case (Inr report2)
    then have "relay_events env publish es report2 w2 p2 = (res, w1, p1)" using Cons.prems(1) x s by simp
    moreover have "reaches k st (?r\<lparr>rl_hand := es, rl_result := None\<rparr>) (db w2) (ds @ delivers (Publish x) r)"
      and "opr_published report2 = opr_published report + (if x = Inr () then 1 else 0)"
      using settled Inr Cons.prems(4) by simp_all
    ultimately show ?thesis using Cons.IH Cons.prems(3,6) n by simp
  qed
qed

lemma locks_reach:
  assumes "lock_candidates env now (i64_add now 60) worker cs w = (res, w1)" and "reaches k st r (db w) []"
    and "k < length (rs_relays st)" and "rl_hand r = [] \<or> rl_lease r = i64_add now 60" and "rl_result r = None"
    and "now \<le> rs_clock st"
  shows "\<exists>r1. reaches k st r1 (db w1) [] \<and> (\<forall>es. res = Inr es \<longrightarrow> rl_hand r1 = rl_hand r @ es \<and> rl_result r1 = None)"
  using assms
proof (induction cs arbitrary: w r res)
  case Nil
  then show ?case by (auto simp: ret_def)
next
  case (Cons c cs)
  let ?q = "lock_event_stmt (oe_id c) now (i64_add now 60) worker"
  obtain n s where q: "?q (db w) = (Inr n, s)" by (simp add: lock_event_stmt_def Let_def)
  show ?case
  proof (cases "env_db_fault env (tick w)")
    case (Some m)
    then have "res = Inl (env_sql_text env (DbFault m)) \<and> db w1 = db w"
      using Cons.prems(1) by (auto simp: bindS_def run_stmt_def next_tick_def)
    then show ?thesis using Cons.prems(2) by auto
  next
    case None
    let ?w = "(next_tick w)\<lparr>db := s\<rparr>" and ?r = "if n = 1 then r\<lparr>rl_hand := rl_hand r @ [c], rl_lease := i64_add now 60\<rparr> else r"
    obtain res2 where rest: "lock_candidates env now (i64_add now 60) worker cs ?w = (res2, w1)"
      and res: "res = map_sum id (\<lambda>es. if n = 1 then c # es else es) res2"
      using Cons.prems(1) None q by (auto simp: bindS_def run_stmt_def ret_def split: prod.splits sum.splits)
    have "reaches k st ?r (db ?w) []"
      using reaches_step [OF Cons.prems(2), of "LockOne now worker c"] q Cons.prems(3,4,6) by simp
    moreover have "rl_hand ?r = [] \<or> rl_lease ?r = i64_add now 60" "rl_result ?r = None" using Cons.prems(4,5) by auto
    ultimately obtain r1 where "reaches k st r1 (db w1) []"
        "\<forall>es. res2 = Inr es \<longrightarrow> rl_hand r1 = rl_hand ?r @ es \<and> rl_result r1 = None"
      using Cons.IH [OF rest _ Cons.prems(3) _ _ Cons.prems(6)] by metis
    then show ?thesis unfolding res by (cases res2) auto
  qed
qed

lemma claim_reaches:
  assumes "claim_pending env limit now (i64_add now 60) worker w = (res, w1)" and "reaches k st r (db w) []"
    and "k < length (rs_relays st)" and "rl_hand r = []" and "rl_result r = None" and "now \<le> rs_clock st"
  shows "\<exists>r1. reaches k st r1 (db w1) [] \<and> (\<forall>es. res = Inr es \<longrightarrow> rl_hand r1 = es \<and> rl_result r1 = None)"
proof -
  let ?start = "run_query env (\<lambda>_. ()) :: (string, unit) svc"
  let ?cands = "run_query env (\<lambda>s. map outbox_event_record.truncate (outbox_candidates limit now s))"
  have query: "db (snd (run_query env f v)) = db v" for f :: "store \<Rightarrow> 'a" and v
    by (simp add: run_query_def run_stmt_def sql_query_def next_tick_def split: option.split)
  obtain r0 w0 where start: "?start w = (r0, w0)" by force
  obtain r2 w2 where cands: "?cands w0 = (r2, w2)" by force
  have w0: "db w0 = db w" using query [of "\<lambda>_. ()" w] start by simp
  have w2: "db w2 = db w" using query [of "\<lambda>s. map outbox_event_record.truncate (outbox_candidates limit now s)" w0] cands w0 by simp
  consider (failed) m where "res = Inl m" "db w1 = db w"
    | (sqlite) cs w2 where "lock_candidates env now (i64_add now 60) worker cs w2 = (res, w1)" "db w2 = db w"
    | (postgres) es s where "claim_pending_postgres limit now (i64_add now 60) worker (db w) = (Inr es, s)" "res = Inr es" "db w1 = s"
  proof (cases "\<exists>e. r0 = Inl e \<or> env_sqlite env \<and> r2 = Inl e")
    case True
    then show ?thesis using assms(1) start cands w0 w2 that(1) by (cases r0) (auto simp: claim_pending_def bindS_def)
  next
    case False
    then obtain u where r0: "r0 = Inr u" by (cases r0) auto
    show ?thesis
    proof (cases "env_sqlite env")
      case True
      with False obtain cs where "r2 = Inr cs" by (cases r2) auto
      then show ?thesis using assms(1) start cands w2 that(2) True r0 by (simp add: claim_pending_def bindS_def)
    next
      case False
      let ?q = "claim_pending_postgres limit now (i64_add now 60) worker"
      obtain es s where q: "?q (db w) = (Inr es, s)" by (simp add: claim_pending_postgres_def Let_def)
      have "run_stmt env ?q w0 = (res, w1)" using assms(1) start r0 False by (simp add: claim_pending_def bindS_def)
      then show ?thesis using that(1,3) q w0 by (auto simp: run_stmt_def next_tick_def split: option.splits)
    qed
  qed
  then show ?thesis
  proof cases
    case failed
    then show ?thesis using assms(2) by auto
  next
    case sqlite
    from locks_reach [OF sqlite(1) _ assms(3)] assms(2,4,5,6) sqlite(2) show ?thesis by fastforce
  next
    case postgres
    from reaches_step [OF assms(2), of "ClaimBatch now limit worker"] postgres assms(3,4,6) show ?thesis by fastforce
  qed
qed

text \<open>C29: A turn of the relay, as the code runs it, with any publisher and any faults, is a sequence of these steps
  of one relay that ends with nothing in its hands; a turn that succeeds has published as many messages as
  it reports.\<close>

theorem relay_turn_is_a_run:
  assumes "relay_pending env limit publish (w\<lparr>db := rs_store st\<rparr>) p = (res, w1, p1)" and "k < length (rs_relays st)"
    and "rs_relays st ! k = idle_relay" and "env_clock env (tick w) \<le> rs_clock st"
  shows "\<exists>r ds. reaches k st r (db w1) ds \<and> rl_hand r = []
    \<and> (\<forall>report. res = Inr report \<longrightarrow> length ds = opr_published report)"
proof -
  let ?now = "env_clock env (tick w)" and ?w = "next_tick (w\<lparr>db := rs_store st\<rparr>)"
  let ?claim = "claim_pending env limit ?now (i64_add ?now 60) (''outbox-'' @ env_pid env) ?w"
  obtain c w2 where claim: "?claim = (c, w2)" by force
  have "reaches k st idle_relay (db ?w) []" using reaches_start [of k st] assms(3) by (simp add: next_tick_def)
  from claim_reaches [OF claim this assms(2) _ _ assms(4)]
  obtain r1 where r1: "reaches k st r1 (db w2) []" "\<forall>es. c = Inr es \<longrightarrow> rl_hand r1 = es \<and> rl_result r1 = None"
    by (auto simp: idle_relay_def)
  show ?thesis
  proof (cases c)
    case (Inl m)
    then have "res = Inl m \<and> w1 = w2" using assms(1) claim by (simp add: relay_pending_def Let_def next_tick_def)
    then show ?thesis using reaches_end [OF r1(1) assms(2)] by auto
  next
    case (Inr es)
    then have "relay_events env publish es \<lparr>opr_attempted = length es, opr_published = 0, opr_failed = 0\<rparr> w2 p = (res, w1, p1)"
      using assms(1) claim by (simp add: relay_pending_def Let_def next_tick_def)
    from events_reach [OF this r1(1) assms(2)] r1(2) Inr show ?thesis by auto
  qed
qed

definition one_turn :: "(string + outbox_publish_report) \<times> world \<times> nat" where
  "one_turn = relay_pending calm_env 50 (\<lambda>_ n. (Inr (), Suc n)) event_world 0"

lemma one_turn_published: "fst one_turn = Inr \<lparr>opr_attempted = 1, opr_published = 1, opr_failed = 0\<rparr>"
    "env_clock calm_env (tick event_world) = 1000"
  by code_simp+

theorem relay_turn_is_a_run_witness:
  "\<exists>r ds. reaches 0 (idle_relays 1 1000 event_store) r (db (fst (snd one_turn))) ds \<and> rl_hand r = [] \<and> length ds = 1"
proof -
  obtain w1 p1 where t: "one_turn = (Inr \<lparr>opr_attempted = 1, opr_published = 1, opr_failed = 0\<rparr>, w1, p1)"
    using one_turn_published(1) by (metis prod.collapse)
  have "relay_pending calm_env 50 (\<lambda>_ n. (Inr (), Suc n)) (event_world\<lparr>db := rs_store (idle_relays 1 1000 event_store)\<rparr>) 0
      = (Inr \<lparr>opr_attempted = 1, opr_published = 1, opr_failed = 0\<rparr>, w1, p1)"
    using t by (simp add: one_turn_def idle_relays_def event_world_def)
  from relay_turn_is_a_run [OF this, of 0] one_turn_published(2) show ?thesis
    by (simp add: t idle_relays_def)
qed

end
