(* ===== verification/SellerFacts.thy ===== *)
theory SellerFacts
  imports InterleavingFacts Lifecycle
begin

text \<open>
  No seller bids on the own auction, not through a proxy either, however calls interleave. The check reads the
  seller once and the bid is stored later; what makes that safe is that no statement changes who sells
  what.
\<close>

section \<open>Programs that keep an invariant\<close>

text \<open>An invariant, unlike a relation, lets a program use what its queries found.\<close>

inductive prog_stays :: "(world \<Rightarrow> bool) \<Rightarrow> 'a prog \<Rightarrow> bool" for I where
  stays_Done: "prog_stays I (Done a)"
| stays_Act: "(\<And>w. I w \<Longrightarrow> I (snd (f w))) \<Longrightarrow> (\<And>w. I w \<Longrightarrow> prog_stays I (fst (f w))) \<Longrightarrow> prog_stays I (Act f)"

inductive_cases stays_ActE: "prog_stays I (Act f)"

named_theorems stay_intros \<open>introduction rules for prog_stays\<close>

lemma stays_bind_prog: "prog_stays I p \<Longrightarrow> (\<And>a. prog_stays I (g a)) \<Longrightarrow> prog_stays I (bind_prog p g)"
proof (induction rule: prog_stays.induct)
  case (stays_Act f)
  then show ?case by (auto intro!: prog_stays.intros)
qed simp

lemma stays_parts [stay_intros]:
  "prog_stays I (retP a)"
  "prog_stays I (resultP r)"
  "prog_stays I p \<Longrightarrow> (\<And>a. prog_stays I (h a)) \<Longrightarrow> prog_stays I (case x of None \<Rightarrow> p | Some a \<Rightarrow> h a)"
  "prog_stays I p \<Longrightarrow> (\<And>a. prog_stays I (g a)) \<Longrightarrow> prog_stays I (bindP p g)"
  "prog_stays I p \<Longrightarrow> prog_stays I q \<Longrightarrow> prog_stays I (if b then p else q)"
  by (auto simp: retP_def resultP_def bindP_def intro!: prog_stays.intros stays_bind_prog split: option.split sum.split)

text \<open>A call that keeps the invariant; a query whose result the rest of the program may rely on; a check.\<close>

lemma stays_atomically [stay_intros]: "keeps (kept_by I) m \<Longrightarrow> prog_stays I (atomically m)"
  by (auto simp: atomically_def keeps_def kept_by_def split_def intro!: prog_stays.intros)

lemma stays_query:
  assumes "\<And>w. I w \<Longrightarrow> I (next_tick w)" and "\<And>w. I w \<Longrightarrow> prog_stays I (g (q (db w)))"
  shows "prog_stays I (bindP (atomically (db_err (run_query env q))) g)"
proof -
  have "prog_stays I (Act (map_prod (\<lambda>p. bind_prog p (\<lambda>r. case r of Inl e \<Rightarrow> Done (Inl e) | Inr a \<Rightarrow> g a)) id
      \<circ> (\<lambda>w. case db_err (run_query env q) w of (r, w1) \<Rightarrow> (Done r, w1))))"
    by (rule stays_Act)
      (use assms in \<open>auto simp: run_query_def run_stmt_def sql_query_def map_err_def next_tick_def
        intro: stays_Done split: option.split prod.split sum.split\<close>)
  then show ?thesis by (simp add: bindP_def atomically_def)
qed

lemma stays_check:
  assumes "\<And>a. r = Inr a \<Longrightarrow> prog_stays I (g a)"
  shows "prog_stays I (bindP (atomically (map_err h (of_result r))) g)"
  using assms
  by (cases r) (auto simp: bindP_def atomically_def of_result_def map_err_def intro!: prog_stays.intros)

lemma stays_run: "prog_stays I p \<Longrightarrow> I w \<Longrightarrow> I (snd (run_prog p w))"
proof (induction arbitrary: w rule: prog_stays.induct)
  case (stays_Act f)
  then show ?case by (cases "f w") (metis (no_types, lifting) comp_apply fst_conv map_prod_simp id_apply old.prod.case run_prog.simps(2) snd_conv)
qed simp

lemma pool_step_stays:
  assumes "\<forall>p \<in> set ps. prog_stays I p" and "I w" and "pool_step k (ps, w) = (ps1, w1)"
  shows "I w1 \<and> (\<forall>p \<in> set ps1. prog_stays I p)"
proof (cases "k < length ps \<and> (\<exists>f. ps ! k = Act f)")
  case True
  then obtain f where k: "k < length ps" "ps ! k = Act f" by blast
  then have "prog_stays I (Act f)" using assms(1) by (metis nth_mem)
  then have "I (snd (f w))" "prog_stays I (fst (f w))" using assms(2) by (auto elim: stays_ActE)
  moreover have "ps1 = ps[k := fst (f w)]" "w1 = snd (f w)"
    using assms(3) k by (simp_all add: pool_step_def split_def)
  ultimately show ?thesis using assms(1) set_update_subset_insert [of ps k "fst (f w)"] by auto
next
  case False
  then have "ps1 = ps" "w1 = w" using assms(3) by (auto simp: pool_step_def split: if_splits prog.splits)
  with assms(1,2) show ?thesis by simp
qed

lemma pool_run_stays: "\<forall>p \<in> set ps. prog_stays I p \<Longrightarrow> I w \<Longrightarrow> I (snd (pool_run ks ps w))"
proof (induction ks arbitrary: ps w)
  case (Cons k ks)
  obtain ps1 w1 where s: "pool_step k (ps, w) = (ps1, w1)" by fastforce
  from pool_step_stays [OF Cons.prems s] Cons.IH [of ps1 w1] s show ?case by (simp add: pool_run_def)
qed (simp add: pool_run_def)

section \<open>Sellers and bidders\<close>

text \<open>Who sells which auction, and that nobody offers on an auction of one's own.\<close>

definition sellers :: "store \<Rightarrow> (string \<times> string) list" where
  "sellers s = map (\<lambda>r. (lr_id r, lr_seller_id r)) (listings s)"

definition no_own_bids :: "store \<Rightarrow> bool" where
  "no_own_bids s \<longleftrightarrow> (\<forall>b \<in> set (bids s). (br_auction_id b, br_bidder_id b) \<notin> set (sellers s))
     \<and> (\<forall>p \<in> set (proxy_bids s). proxy_key p \<notin> set (sellers s))"

definition selling :: "(string \<times> string) list \<Rightarrow> world \<Rightarrow> bool" where
  "selling l w \<longleftrightarrow> sellers (db w) = l \<and> no_own_bids (db w)"

abbreviation selling_kept :: "(string \<times> string) list \<Rightarrow> world \<Rightarrow> world \<Rightarrow> bool" where
  "selling_kept l \<equiv> kept_by (selling l)"

interpretation selling: wallet_relation "selling_kept l" for l
  by unfold_locales (auto simp: kept_by_def selling_def)

lemma selling_same_rows:
  "sellers (db w1) = sellers (db w) \<Longrightarrow> bids (db w1) = bids (db w) \<Longrightarrow> proxy_bids (db w1) = proxy_bids (db w) \<Longrightarrow> selling_kept l w w1"
  by (auto simp: kept_by_def selling_def no_own_bids_def)

lemma sellers_update: "(\<And>r. lr_id (f r) = lr_id r \<and> lr_seller_id (f r) = lr_seller_id r) \<Longrightarrow>
    map (\<lambda>r. (lr_id r, lr_seller_id r)) (update_where P f rows) = map (\<lambda>r. (lr_id r, lr_seller_id r)) rows"
  by (rule map_update_where) simp

lemma selling_other_stmts [keeps_intros]:
  "keeps (selling_kept l) (run_stmt env (record_highest_bid i n e st u))"
  "keeps (selling_kept l) (run_stmt env (record_auto_bid i n e st u))"
  "keeps (selling_kept l) (run_stmt env (outbox_insert ev))"
  "keeps (selling_kept l) (run_stmt env (upsert_pending i due t))"
  "keeps (selling_kept l) (run_stmt env (mark_settling i due t))"
  "keeps (selling_kept l) (run_stmt env (mark_settlement_failed i t next err))"
  "keeps (selling_kept l) (run_stmt env (mark_failed i t next err))"
  "keeps (selling_kept l) (run_stmt env (mark_done i t))"
  "keeps (selling_kept l) (run_stmt env (claim_due_postgres t until worker))"
  "keeps (selling_kept l) (run_stmt env (lock_job_stmt i t until worker))"
  "keeps (selling_kept l) (run_stmt env (reconcile_missing_pending_jobs t))"
  "keeps (selling_kept l) (run_stmt env (claim_pending_postgres n t u worker))"
  "keeps (selling_kept l) (run_stmt env (lock_event_stmt i t u worker))"
  "keeps (selling_kept l) (run_stmt env (mark_published i t))"
  "keeps (selling_kept l) (run_stmt env (mark_publish_failed i t u err))"
  by (rule selling.keeps_run_stmt, rule selling_same_rows;
      auto simp: sellers_def sellers_update stmt_defs Let_def split: stmt_splits)+

lemma selling_offer_stmts:
  "nb_auction_id b = i \<Longrightarrow> (i, nb_bidder_id b) \<notin> set l \<Longrightarrow> keeps (selling_kept l) (run_stmt env (insert_with_wallet_hold b h))"
  "(i, p) \<notin> set l \<Longrightarrow> keeps (selling_kept l) (run_stmt env (upsert_max i p n t))"
  by (rule selling.keeps_run_stmt; auto simp: kept_by_def selling_def no_own_bids_def sellers_def stmt_defs Let_def bid_of_new_def
        dest!: proxies.rows_of split: stmt_splits; fastforce simp: proxy_key_def merge_proxy_def image_iff)+

lemma selling_row_stmts [keeps_intros]:
  "keeps (selling_kept l) (run_stmt env (raise_own_bid j n t h))"
  "keeps (selling_kept l) (run_stmt env (delete_bid j))"
  "keeps (selling_kept l) (run_stmt env (delete_for_bidder j v))"
  by (rule selling.keeps_run_stmt; auto simp: kept_by_def selling_def no_own_bids_def sellers_def stmt_defs Let_def
        dest!: set_update_whereD split: stmt_splits)+

interpretation selling_side: bid_side_writes "selling_kept l" env i "\<lambda>u. (i, u) \<notin> set l" for l env i
  by unfold_locales (intro keeps_intros selling_offer_stmts; assumption)+

interpretation selling_closure: closure_writes "selling_kept l" env for l env
  by unfold_locales (auto intro: keeps_intros selling_same_rows simp: unchanged_def)

interpretation selling_relay: relay_statements "selling_kept l" env for l env
  by unfold_locales (intro keeps_intros)+

section \<open>Bids\<close>

lemma selling_tick: "selling l w \<Longrightarrow> selling l (next_tick w)"
  by (simp add: selling_def next_tick_def)

lemmas selling_query = stays_query [where I = "selling l" for l, OF selling_tick]

lemma stays_stage [stay_intros]:
  "prog_stays (selling l) (resolve_record_prog env i)"
  "prog_stays (selling l) (record_accepted_prog env c a n e st t)"
  unfolding resolve_record_prog_def record_accepted_prog_def by (intro stay_intros keeps_intros)+

lemma stays_auto_bid:
  "(i, pr_bidder_id p) \<notin> set l \<Longrightarrow> prog_stays (selling l) (place_auto_bid_prog env i a p cur n t)"
  unfolding place_auto_bid_prog_def by (intro stay_intros keeps_intros)

text \<open>The proxy that bids is one of the auction's, and so is not its seller's.\<close>

lemma stays_resolve: "prog_stays (selling l) (resolve_proxy_prog env i a t)"
  unfolding resolve_proxy_prog_def
proof (rule selling_query)
  fix w
  assume w: "selling l w"
  have "(i, pr_bidder_id p) \<notin> set l" if "list_by_auction i (db w) = p # ps" for p ps
  proof -
    have "p \<in> set (list_by_auction i (db w))" using that by simp
    then have "p \<in> set (proxy_bids (db w))" "pr_auction_id p = i" by (auto simp: list_by_auction_def)
    then show ?thesis using w by (auto simp: selling_def no_own_bids_def proxy_key_def)
  qed
  then show "prog_stays (selling l) (case list_by_auction i (db w) of
     [] \<Rightarrow> retP ()
   | top_proxy # x \<Rightarrow>
       bindP (atomically (db_err (run_query env (find_winning_bid i)))) (\<lambda>winning.
       case winning of
         None \<Rightarrow> retP ()
       | Some current \<Rightarrow>
           (let increment = lr_minimum_increment_cents a;
                target = auto_bid_target (list_by_auction i (db w)) top_proxy current increment
            in if target \<le> br_bid_amount_cents current then retP ()
               else if pr_max_bid_amount_cents top_proxy < i64_add (br_bid_amount_cents current) increment then retP ()
               else place_auto_bid_prog env i a top_proxy current target (i64_saturating_add t 1))))"
    by (cases "list_by_auction i (db w)")
      (auto simp only: Let_def list.case intro!: stay_intros keeps_intros stays_auto_bid)
qed

lemma stays_accept:
  "(i, u) \<notin> set l \<Longrightarrow> prog_stays (selling l) (accept_bid_prog env i a u t prev res st)"
  unfolding accept_bid_prog_def Let_def
  by (intro stay_intros keeps_intros stays_resolve selling_side.insert_or_release) simp_all

lemma distinct_seller: "distinct (map fst l) \<Longrightarrow> (i, v) \<in> set l \<Longrightarrow> u \<noteq> v \<Longrightarrow> (i, u) \<notin> set l"
  by (metis eq_key_imp_eq_value)

lemma chain_refuses_seller: "precheck_bid a u t (Standard n) prev = Inr x \<Longrightarrow> u \<noteq> lr_seller_id a"
  by (auto simp: precheck_bid_def standard_bid_chain_def identity_validation_link_def identity_bid_policy_def
      split: sum.splits if_splits)

lemma stays_new_bid:
  assumes "distinct (map fst l)" and "(i, lr_seller_id a) \<in> set l" and "\<And>n. mode = Standard n \<Longrightarrow> u \<noteq> lr_seller_id a"
  shows "prog_stays (selling l) (place_new_bid_prog env i a u t mode prev)"
proof -
  have out: "(i, u) \<notin> set l" if "is_proxy mode \<Longrightarrow> identity_bid_policy a u prev = Inr ()"
  proof -
    have "u \<noteq> lr_seller_id a"
      using that assms(3) by (cases mode) (auto simp: identity_bid_policy_def split: if_splits)
    with assms(1,2) show ?thesis by (rule distinct_seller)
  qed
  have rest: "prog_stays (selling l)
     (bindP (atomically (db_err (record_to_domain_with_bid env a))) (\<lambda>session.
     bindP (atomically (map_err PlaceBidError (of_result (domain_bid session u t mode)))) (\<lambda>r.
     bindP (atomically (map_err PlaceBidError (of_result
       (wallet_bid_policy (i64_of_u64 (cents (bid_amount (new_highest (fst r))))))))) (\<lambda>_.
     bindP (case mode of
        Proxy max_amount \<Rightarrow>
          bindP (atomically (db_err (run_stmt env (upsert_max i u max_amount t)))) (\<lambda>_. retP ())
      | Standard _ \<Rightarrow> retP ()) (\<lambda>_.
     accept_bid_prog env i a u t prev (fst r) (snd r))))))" if "(i, u) \<notin> set l"
    using that by (cases mode) (auto intro!: stay_intros keeps_intros stays_accept)
  show ?thesis
  proof (cases "is_proxy mode")
    case True
    show ?thesis unfolding place_new_bid_prog_def using True
      by (simp only: whenS_def if_True) (rule stays_check, rule rest, rule out, simp add: unit_eq)
  next
    case False
    show ?thesis unfolding place_new_bid_prog_def
      by (intro stay_intros keeps_intros rest out) (use False in simp)
  qed
qed

lemma stays_unseen_bid:
  assumes "distinct (map fst l)"
  shows "prog_stays (selling l) (place_unseen_bid_prog env i u t mode)"
  unfolding place_unseen_bid_prog_def
proof (rule selling_query)
  fix w
  assume w: "selling l w"
  have found: "(i, lr_seller_id a) \<in> set l" if "find_by_id i (db w) = Some a" for a
    using that w by (force simp: find_by_id_def selling_def sellers_def dest!: find_SomeD)
  show "prog_stays (selling l) (bindP (atomically (ok_or PlaceAuctionNotFound (find_by_id i (db w)))) (\<lambda>auction.
     bindP (atomically (validate_listing_for_bid env (lr_listing_id auction))) (\<lambda>_.
     bindP (atomically (db_err (run_query env (find_winning_bid i)))) (\<lambda>previous.
     bindP (atomically (map_err PlaceBidError (of_result (precheck_bid auction u t mode previous)))) (\<lambda>_.
     case leading_proxy u mode previous of
       Some (max_amount, current) \<Rightarrow> atomically (raise_own_maximum env i auction u max_amount t current)
     | None \<Rightarrow> place_new_bid_prog env i auction u t mode previous)))))"
  proof (cases "find_by_id i (db w)")
    case None
    have "prog_stays (selling l) (bindP (atomically (ok_or e None)) g)" for e :: place_bid_error and g :: "listing_record \<Rightarrow> _ prog"
      by (auto simp: bindP_def atomically_def ok_or_def intro!: prog_stays.intros)
    then show ?thesis using None by simp
  next
    case (Some a)
    have seller: "(i, lr_seller_id a) \<in> set l" using found Some by simp
    have own: "keeps (selling_kept l) (raise_own_maximum env i a u m t current)" for m current
    proof (cases "u = lr_seller_id a")
      case True
      then show ?thesis by (simp add: raise_own_maximum_def selling.keeps_throw)
    next
      case False
      then have "(i, u) \<notin> set l" using distinct_seller [OF assms seller] by simp
      then show ?thesis by (rule selling_side.raised_maximum)
    qed
    have known: "prog_stays (selling l) (bindP (atomically (ok_or e (Some a))) g)" if "prog_stays (selling l) (g a)"
      for e :: place_bid_error and g :: "listing_record \<Rightarrow> _ prog"
      using that by (auto simp: bindP_def atomically_def ok_or_def intro!: prog_stays.intros)
    show ?thesis
      unfolding Some
      apply (rule known)
      apply (rule stays_parts(4), intro stay_intros keeps_intros)
      apply (rule stays_parts(4), intro stay_intros keeps_intros)
      apply (rule stays_check)
      apply (rule stays_parts(3))
       apply (rule stays_new_bid [OF assms seller])
       apply (auto intro: stays_atomically own dest: chain_refuses_seller)
      done
  qed
qed

lemma stays_bid: "distinct (map fst l) \<Longrightarrow> prog_stays (selling l) (place_bid_prog env i u t mode)"
  unfolding place_bid_prog_def by (intro stay_intros keeps_intros stays_unseen_bid)

section \<open>Closings\<close>

lemma stays_keeps: "prog_keeps (kept_by I) p \<Longrightarrow> prog_stays I p"
  by (induction rule: prog_keeps.induct) (auto simp: kept_by_def intro: prog_stays.intros)

lemma selling_closed:
  assumes "closed_in a now (db w) r" and "db w1 = snd r"
  shows "selling_kept l w w1"
proof -
  obtain t1 h i payload time e1 st where u: "update_lifecycle_status (lr_id a) st h now (db w) = (Inr (fst (fst r)), t1)"
    and o: "outbox_insert (new_outbox_event i (lr_id (fst (fst r))) ''AuctionEnded'' payload time) t1 = (Inr e1, snd r)"
    using assms(1) by (auto simp: closed_in_def)
  have "sellers t1 = sellers (db w)" "bids t1 = bids (db w)" "proxy_bids t1 = proxy_bids (db w)"
    using u by (auto simp: sellers_def sellers_update listing_stmt_defs Let_def split: stmt_splits)
  moreover have "sellers (snd r) = sellers t1" "bids (snd r) = bids t1" "proxy_bids (snd r) = proxy_bids t1"
    using o by (auto simp: sellers_def outbox_insert_def dest!: sym [of _ "snd r"] split: if_splits)
  ultimately show ?thesis using assms(2) by (intro selling_same_rows) simp_all
qed

lemma stays_call: "distinct (map fst l) \<Longrightarrow> prog_stays (selling l) (call_prog c)"
proof (cases c)
  case (BidCall env i u t mode)
  then show "distinct (map fst l) \<Longrightarrow> ?thesis"
    by (auto simp: answers_def intro!: stays_bind_prog stays_bid prog_stays.intros)
next
  case (ClosureRound env)
  have "prog_keeps (selling_kept l) (process_one_prog env)"
    by (intro selling_closure.closing_programs(1) selling_closure.closing_txs) (auto intro: selling_closed)
  then show ?thesis using ClosureRound by (simp add: stays_keeps answers_keep)
next
  case (CloseByHand env i)
  have "prog_keeps (selling_kept l) (close_auction_prog env i)"
    by (intro selling_closure.closing_programs(2) selling_closure.closing_txs) (auto intro: selling_closed)
  then show ?thesis using CloseByHand by (simp add: stays_keeps answers_keep)
qed

section \<open>All calls\<close>

text \<open>Opening an auction may add a seller, but only for an auction that nobody can have bid on.\<close>

definition adding_seller :: "world \<Rightarrow> world \<Rightarrow> bool" where
  "adding_seller w w1 \<longleftrightarrow> bids (db w1) = bids (db w) \<and> proxy_bids (db w1) = proxy_bids (db w)
     \<and> listing_ids (db w) \<subseteq> listing_ids (db w1)
     \<and> (\<forall>x \<in> set (sellers (db w1)). x \<in> set (sellers (db w)) \<or> fst x \<notin> listing_ids (db w))"

interpretation adding_seller: run_relation adding_seller
  by unfold_locales (auto simp: adding_seller_def)

lemma adding_seller_stmts [keeps_intros]:
  "keeps adding_seller (run_stmt env (listing_insert nl))"
  "keeps adding_seller (run_stmt env (upsert_pending i due t))"
  "keeps adding_seller (run_stmt env (outbox_insert ev))"
  by (rule adding_seller.keeps_run_stmt;
      auto simp: adding_seller_def sellers_def listing_ids_def stmt_defs Let_def fresh_listing listing_of_new_def split: stmt_splits)+

lemma adding_seller_created: "keeps adding_seller (create_auction env c)"
  unfolding create_auction_def create_auction_handler_def create_auction_core_def validate_listing_for_auction_def
    publish_auction_created_event_def
  by (intro keeps_intros)

lemma adding_seller_no_own_bids: "adding_seller w w1 \<Longrightarrow> store_ok (db w) \<Longrightarrow> no_own_bids (db w) \<Longrightarrow> no_own_bids (db w1)"
  by (fastforce simp: adding_seller_def no_own_bids_def store_ok_def refs_ok_def proxy_key_def)

definition apart :: "world \<Rightarrow> bool" where
  "apart w \<longleftrightarrow> store_ok (db w) \<and> no_own_bids (db w)"

lemma distinct_sellers: "store_ok s \<Longrightarrow> distinct (map fst (sellers s))"
  by (simp add: sellers_def store_ok_def keys_ok_def comp_def)

lemma apart_kept: "selling_kept (sellers (db w)) w w1 \<Longrightarrow> stepping w w1 \<Longrightarrow> apart w \<Longrightarrow> apart w1"
  using steps_store_ok by (auto simp: apart_def kept_by_def selling_def stepping_def)

lemma apart_prog: "prog_stays (selling (sellers (db w))) p \<Longrightarrow> stepping w (snd (run_prog p w)) \<Longrightarrow> apart w \<Longrightarrow> apart (snd (run_prog p w))"
  using stays_run [of "selling (sellers (db w))" p w] steps_store_ok by (auto simp: apart_def selling_def stepping_def)

lemma apart_calls:
  assumes "apart w"
  shows "apart (snd (place_bid_internal env i u t mode w))" "apart (snd (process_one_pending_closure env w))"
    "apart (snd (close_auction env i w))"
proof -
  have d: "distinct (map fst (sellers (db w)))" using assms distinct_sellers by (simp add: apart_def)
  have "stepping w (snd (run_prog (call_prog c) w))" for c
    using step_service.placed_bid stepping_process_one exec_steps [of w _ "CloseAuction _"]
    by (cases c) (auto simp: keeps_def programs_are_the_calls simp del: call_prog.simps)
  from apart_prog [OF stays_call [OF d] this assms] have "apart (snd (run_prog (call_prog c) w))" for c .
  from this [of "BidCall env i u t mode"] this [of "ClosureRound env"] this [of "CloseByHand env i"]
  show "apart (snd (place_bid_internal env i u t mode w))" "apart (snd (process_one_pending_closure env w))"
    "apart (snd (close_auction env i w))"
    by (simp_all add: programs_are_the_calls del: call_prog.simps)
qed

lemma apart_rounds: "apart w \<Longrightarrow> apart (snd (close_rounds env n report w :: ('e + _) \<times> _))"
proof (induction n arbitrary: report w)
  case (Suc n)
  have "apart (snd (process_one_pending_closure env w))" by (rule apart_calls [OF Suc.prems])
  with Suc.IH show ?case
    by (cases "process_one_pending_closure env w"; cases "fst (process_one_pending_closure env w)")
      (auto simp: bindS_def attempt_def ret_def split: option.split)
qed (simp add: ret_def)

lemma selling_delete_proxy: "keeps (selling_kept l) (delete_proxy_bid env i u)"
proof -
  have "keeps (selling_kept l) (canonical_auction_id env i)"
    using unchanged_queries(4) [of env i] selling_same_rows by (auto simp: keeps_def unchanged_def)
  then show ?thesis
    unfolding delete_proxy_bid_def list_bid_query_delete_proxy_bid_def delete_proxy_bid_core_def by (intro keeps_intros)
qed

lemma apart_exec: "apart w \<Longrightarrow> apart (service_exec env op w)"
proof (cases op)
  case (CreateAuction c)
  then show "apart w \<Longrightarrow> ?thesis"
    using adding_seller_created [of env c] adding_seller_no_own_bids exec_steps [of w env op] steps_store_ok
    by (auto simp: keeps_def apart_def stepping_def)
next
  case (DeleteProxyBid i u)
  then show "apart w \<Longrightarrow> ?thesis"
    using apart_kept [OF _ exec_steps [of w env op]] selling_delete_proxy [of "sellers (db w)" env i u] by (simp add: keeps_def)
next
  case (PublishPending n pub)
  then show "apart w \<Longrightarrow> ?thesis"
    using apart_kept [OF _ exec_steps [of w env op]] selling_relay.relay_turn [of "sellers (db w)" env n pub] by (simp add: keeps_def)
qed (simp_all add: bid_entry_defs apart_calls apart_rounds close_pending_def)

lemma apart_run: "apart w \<Longrightarrow> apart (service_run calls w)"
  by (induction calls arbitrary: w) (auto simp: service_run_def apart_exec)

text \<open>C9: On no auction the seller bids: after any calls with any faults, and then any bids, proxy bids and
  closings that interleave action by action, no stored bid and no proxy bid is its auction's seller's.\<close>

theorem nobody_bids_on_own_auctions:
  "no_own_bids (db (snd (pool_run ks (map call_prog later) (service_run calls start_world))))"
proof -
  let ?w = "service_run calls start_world"
  have "apart start_world"
    using empty_store_ok by (simp add: apart_def start_world_def) (simp add: no_own_bids_def empty_store_def)
  then have "apart ?w" by (rule apart_run)
  moreover from this have "\<forall>p \<in> set (map call_prog later). prog_stays (selling (sellers (db ?w))) p"
    using stays_call distinct_sellers by (auto simp: apart_def)
  ultimately show ?thesis
    using pool_run_stays [of "map call_prog later" "selling (sellers (db ?w))" ?w ks] by (simp add: apart_def selling_def)
qed

end
