(* ===== verification/Spec2Isabelle.thy ===== *)
theory Spec2Isabelle
  imports SessionLife NaiveAuction Lifecycle Findings QueryFacts CreateFacts HttpFacts ClientFacts PublisherFacts
    BidLock Rows QueueFacts ProcessFacts InterleavingFacts RelayFacts SellerFacts
begin

text \<open>
  A verification development for the BidMart auction service, a Rust service on a SQL database
  (Postgres in production, SQLite in tests) with an HTTP API, a wallet service that holds bidders'
  money, a catalogue service that owns the listings, and a message broker. All paths are below
  \<^verbatim>\<open>src/src\<close>.

  \<^bold>\<open>The program.\<close> A seller opens an auction for a catalogue listing. Bidders place standard bids, or
  proxy bids with a maximum that bids for them. A bid runs through a chain of checks on the stored
  rows, then through the domain object, moves money on hold, stores rows and puts events into an
  outbox; a bid in the last two minutes extends the auction. After the end the auction is closed, by
  hand or by a scheduler that works off a queue of closure jobs: the outcome and an event are committed
  in one transaction, then the winner's hold becomes a payment or all holds are released. A second
  scheduler publishes the outbox.

  \<^bold>\<open>The model.\<close> Pure code is translated to functions; a method that talks to the outside is a function
  on a world (tables, a tick, the wallet's log), in an error monad.
    \<^item> \<^theory_text>\<open>Prelude\<close>: operations on tables as lists of rows, facts on lists sorted by a key.
    \<^item> \<^theory_text>\<open>RustStd\<close>: integers at their width (\<open>i64\<close> as integers with the wrap-around written out, \<open>u64\<close> as
      64-bit words, casts, saturating operations), parsing and printing, trimming and splitting.
    \<^item> \<^theory_text>\<open>Session\<close>: \<^verbatim>\<open>listing_auction_session.rs\<close> and \<^verbatim>\<open>service/close_strategy.rs\<close>. Every method returns
      its result and the new session. \<^theory_text>\<open>SessionFacts\<close> and \<^theory_text>\<open>SessionLife\<close> hold its closed forms, the
      step relation of a session's life and the invariants; \<^theory_text>\<open>Ascending\<close> states the contract of an
      auction whose price rises by an increment, \<^theory_text>\<open>SessionSpec\<close> shows the session keeps it.
    \<^item> \<^theory_text>\<open>Models\<close>, \<^theory_text>\<open>Store\<close>: \<^verbatim>\<open>persistence/models.rs\<close> and \<^verbatim>\<open>persistence/repositories.rs\<close>. Each SQL statement
      is a function from the tables to an error or rows and the new tables, checking the keys the schema
      declares. \<^theory_text>\<open>StoreFacts\<close>: the upserts as one contract, the single steps the service makes
      (\<open>store_step\<close>, one rule per statement, the closing transaction as one step), the integrity of keys
      and references, the history that only grows.
    \<^item> \<^theory_text>\<open>Effects\<close>: the world and the environment; statements, transactions (on a copy of the tables that
      the commit installs), clock, fresh ids, wallet and catalogue calls. Weakest preconditions (\<open>wp\<close>)
      and the relations every run respects (\<open>keeps\<close>, with the contracts \<open>run_relation\<close> and
      \<open>wallet_relation\<close>) carry the proofs about handlers.
    \<^item> \<^theory_text>\<open>Config\<close>, \<^theory_text>\<open>AuctionTypes\<close>, \<^theory_text>\<open>Policies\<close>, \<^theory_text>\<open>Events\<close>: \<^verbatim>\<open>config.rs\<close>, \<^verbatim>\<open>service/auction_types.rs\<close>,
      \<^verbatim>\<open>service/auction_strategy.rs\<close>, \<^verbatim>\<open>service/bid_policies.rs\<close>, \<^verbatim>\<open>service/bid_validation_chain.rs\<close>, the row
      conversion of \<^verbatim>\<open>service/auction_core.rs\<close>, \<^verbatim>\<open>service/auction_event_publisher.rs\<close>.
    \<^item> \<^theory_text>\<open>BidService\<close>: \<^verbatim>\<open>place_bid_internal\<close> and \<^verbatim>\<open>resolve_proxy_auto_bid\<close> of \<^verbatim>\<open>service/auction_core.rs\<close>, cut
      into stages in the order of the code. \<^theory_text>\<open>CreateService\<close>: \<^verbatim>\<open>service/auction_create.rs\<close>. \<^theory_text>\<open>Closure\<close>:
      \<^verbatim>\<open>service/closure_workflow.rs\<close>, \<^verbatim>\<open>service/auction_closure_use_case.rs\<close>,
      \<^verbatim>\<open>scheduler/auction_closure_scheduler.rs\<close>. \<^theory_text>\<open>Outbox\<close>: \<^verbatim>\<open>scheduler/outbox_scheduler.rs\<close> and the
      message of \<^verbatim>\<open>scheduler/rabbitmq_outbox_publisher.rs\<close>. \<^theory_text>\<open>Queries\<close>: \<^verbatim>\<open>service/auction_queries.rs\<close>.
      The handlers of \<^verbatim>\<open>service/auction_commands.rs\<close> stand beside the methods that call them.
    \<^item> \<^theory_text>\<open>Float64\<close>, \<^theory_text>\<open>Dto\<close>: doubles with rounding to nearest even as exact rationals, the requests and
      responses of \<^verbatim>\<open>http/dto.rs\<close> with their conversions. \<^theory_text>\<open>Metrics\<close>: the counters and the page of
      \<^verbatim>\<open>http/router.rs\<close> and \<^verbatim>\<open>http/metrics_auth.rs\<close>. \<^theory_text>\<open>Http\<close>: the handlers of \<^verbatim>\<open>http/router.rs\<close> over the world
      and the metrics, the mapping of every error to a response, the headers, the routing table. A request
      is a value of \<open>http_request\<close>, one constructor per handler with what axum extracts for it.
    \<^item> \<^theory_text>\<open>Clients\<close>: \<^verbatim>\<open>client/http_service_client.rs\<close>, \<^verbatim>\<open>client/wallet_client.rs\<close>, \<^verbatim>\<open>client/catalog_client.rs\<close>, each
      client as an instance of the trait the service calls. \<^theory_text>\<open>Server\<close>: the choice of the clients and the
      migrations of \<^verbatim>\<open>server.rs\<close>. \<^theory_text>\<open>Publishers\<close>: the HTTP and the RabbitMQ publisher with its connection and
      channel, and the relay with a publisher that has a state. \<^theory_text>\<open>BidLock\<close>:
      \<^verbatim>\<open>service/auction_bid_lock.rs\<close> as steps of tasks on a map of mutexes. \<^theory_text>\<open>Rows\<close>: the decoding of rows in
      \<^verbatim>\<open>persistence/models.rs\<close>.
    \<^item> \<^theory_text>\<open>Process\<close>: \<^verbatim>\<open>main.rs\<close>: the start of the process, the background tasks it spawns, and the life of a
      process that serves requests and runs its tasks over one world. \<^theory_text>\<open>Interleaving\<close>: the same
      \<^verbatim>\<open>place_bid\<close>, \<^verbatim>\<open>close_auction\<close> and \<^verbatim>\<open>process_closure_job\<close> again, as programs cut between their
      statements, so that calls of several tasks or processes take turns; a closing transaction stays one
      action. \<^theory_text>\<open>Relays\<close>: the steps of \<^verbatim>\<open>publish_pending\<close> for any number of relays on one outbox, on Postgres
      or SQLite, with their locks and a clock.
    \<^item> \<^theory_text>\<open>NaiveAuction\<close>: the two profiling binaries \<^verbatim>\<open>bin/profile_bidding.rs\<close> and
      \<^verbatim>\<open>bin/profile_bidding_naive.rs\<close>.

  \<^bold>\<open>What is shown.\<close>
    \<^item> \<^theory_text>\<open>PolicyFacts\<close>: the checks on rows and the domain object agree; validation, cursors, money.
    \<^item> \<^theory_text>\<open>BidWrites\<close>: the statements a bid issues as a contract (\<open>bid_writes\<close>, \<open>bid_service\<close>); any
      relation they respect, placing a bid respects. \<^theory_text>\<open>BidFacts\<close> and \<^theory_text>\<open>BidOutcome\<close> interpret it: prices
      only rise, closed auctions are left alone, accepted bids were admissible and their money is on
      hold, refused bids change nothing, repeated bids are answered. \<^theory_text>\<open>ProxyFacts\<close>: automatic bids stay
      within the maximum.
    \<^item> \<^theory_text>\<open>ClosureWrites\<close>: the same for closing (\<open>closure_statements\<close> for relations the wallet is no part of,
      \<open>closure_writes\<close> for those it is). \<^theory_text>\<open>ClosureFacts\<close>: a closure is all or
      nothing and decides as the domain object does. \<^theory_text>\<open>Settlement\<close>: the wallet calls, retries, claims of
      jobs, the scheduler's report.
    \<^item> \<^theory_text>\<open>CreateFacts\<close>, \<^theory_text>\<open>QueryFacts\<close>, \<^theory_text>\<open>OutboxFacts\<close>: opening is idempotent, pages enumerate the bids, the
      relay settles its batch. The statements of the relay are a contract (\<open>relay_statements\<close>).
    \<^item> \<^theory_text>\<open>ServiceSteps\<close>, \<^theory_text>\<open>ServiceRun\<close> and this theory: every call is a sequence of steps of the tables, so
      integrity and history hold for every sequence of calls with any faults.
    \<^item> \<^theory_text>\<open>Lifecycle\<close>: a book of auctions that knows three moves (list, raise, decide) as the specification
      of the stored listings; every call of the service is a sequence of its moves.
    \<^item> \<^theory_text>\<open>BidMoney\<close>, \<^theory_text>\<open>MoneyFacts\<close>: the money behind the bids: a hold a bid names was granted
      for it, only granted holds are released or paid out, payments are of the price of a won auction.
    \<^item> \<^theory_text>\<open>TermFacts\<close>: what holds of the terms of new auctions (\<open>terms_invariant\<close>) holds of all stored ones.
      \<^theory_text>\<open>QueueRounds\<close>, \<^theory_text>\<open>QueueFacts\<close>: liveness of the closure queue: from any tables the service can reach, as many rounds
      of the scheduler as there are jobs due before it decide an auction that has ended.
    \<^item> \<^theory_text>\<open>ProcessFacts\<close>: what the parts promise, for the composed process: any platform, any requests and
      rounds of the tasks, in any order. A zero interval stops the scheduler.
    \<^item> \<^theory_text>\<open>InterleavingFacts\<close>: the programs run without interruption are the calls of the model; integrity and
      history hold under every interleaving; a bid that has passed its checks before a closure reopens
      an auction that has been paid for.
    \<^item> \<^theory_text>\<open>SellerFacts\<close>: programs that keep an invariant and may rely on what they read; nobody bids on an auction
      of one's own, under every interleaving.
    \<^item> \<^theory_text>\<open>RelaySteps\<close>, \<^theory_text>\<open>RelayFacts\<close>: relays that finish within the minute of their locks hold different events and deliver each
      once, up to relays that stop between publishing and marking; a late relay delivers twice; a turn of
      the relay is a run of these steps.
    \<^item> \<^theory_text>\<open>NaiveAuction\<close>: the naive auction keeps the contract \<open>ascending_auction\<close> as well, and the domain object
      refines it.
    \<^item> \<^theory_text>\<open>HttpFacts\<close>: trusted users, typed responses, queries that only read, metrics that add up.
      \<^theory_text>\<open>ClientFacts\<close>: well formed requests, the meaning of a hold, a wallet that never answers, migrations
      that can be repeated. \<^theory_text>\<open>PublisherFacts\<close>: published events were sent, a relay without faults publishes
      all that is due. \<^theory_text>\<open>BidLock\<close>: mutual exclusion and progress of the bids on an auction. \<^theory_text>\<open>Rows\<close> and
      \<^theory_text>\<open>Dto\<close>: rows and amounts survive the round trip.
    \<^item> \<^theory_text>\<open>Findings\<close>: runs of the model that show behaviour the design does not intend.

  \<^bold>\<open>Parameters.\<close> What the sources only call is a field of the environment \<open>env\<close> and arbitrary: the answer
  of the wallet and the catalogue at each tick, the clock (which need not advance), fresh ids (which
  need not be fresh: a clash is a unique violation of the tables), whether a statement fails for a
  reason outside the tables, the texts of errors, of JSON and of RFC 3339 times, and the environment
  variables. Failures of Postgres that the tables do not show are faults. Further records of parameters
  stand for the libraries of one part: \<open>web\<close> (RFC 3339, base64, the measured time of a request),
  \<open>transport\<close> (URLs, sockets, HTTP, gRPC, JSON, timers), \<open>amqp\<close> (connection, channel, publish, confirm),
  \<open>mutex\<close> (with the first-come order tokio documents as the hypothesis \<open>fifo_mutex\<close>), \<open>any_row\<close> (the values
  of a row), the executor of migrations, and \<open>platform\<close> (what \<^verbatim>\<open>main.rs\<close> finds: environment variables, the
  pool, the broker, the listener).

  \<^bold>\<open>Bounds.\<close> No loop needs fuel: the scheduler's loop is structural in the batch size, the others in
  their lists. Arithmetic that the release build wraps is wrapped; a debug build would panic instead.
  Text is a list of bytes and compared by bytes.

  \<^bold>\<open>Not modelled.\<close> What only calls libraries: the extraction of a request and the matching of its path
  (axum), sockets, TLS and the wire formats, the opening of the pool, the timers behind the polling
  tasks, the module declarations and the facade that only holds the pool. In \<open>service_run\<close> and \<open>process_run\<close> a
  call is one sequence of steps: \<^theory_text>\<open>BidLock\<close> shows why that is so for the bids of one auction in one
  process; \<^theory_text>\<open>Interleaving\<close> takes bids and closings apart, statement by statement, for every other case. A
  transaction is one action there: what isolation level the database grants is not modelled.
\<close>

text \<open>C4: whatever sequence of calls the service serves, with whatever faults, the tables keep their
  integrity: unique auctions, listings, bids, proxy bids, events and jobs, and no bid, proxy bid or job
  without its auction.\<close>

theorem service_keeps_integrity: "store_ok (db (service_run calls start_world))"
  using run_steps [of start_world calls] steps_store_ok [of empty_store] empty_store_ok
  by (simp add: stepping_def start_world_def)

text \<open>Nothing the service does rewrites the past: the terms of every auction, the identity and order
  of every outbox event, and the record of wallet calls of an earlier moment are all still there at any
  later one.\<close>

theorem service_history_grows:
  "history_grows (db (service_run calls w)) (db (service_run (calls @ later) w))
    \<and> prefix (wallet_log (service_run calls w)) (wallet_log (service_run (calls @ later) w))"
proof -
  have "service_run (calls @ later) w = service_run later (service_run calls w)"
    by (simp add: service_run_def)
  then show ?thesis
    using run_steps [of "service_run calls w" later] by (simp add: stepping_def steps_history_grows)
qed

text \<open>Every query leaves the tables and the wallet exactly as they are.\<close>

theorem queries_only_read:
  "unchanged w (snd (get_auction_by_id env i w)) \<and> unchanged w (snd (list_auctions env w))
    \<and> unchanged w (snd (list_pending_closures env w)) \<and> unchanged w (snd (list_bids env i w))
    \<and> unchanged w (snd (list_bids_with_cursor env i c l w)) \<and> unchanged w (snd (get_proxy_bid env i u w))
    \<and> unchanged w (snd (get_auction_with_bids env i w))"
proof -
  have at: "keeps unchanged m \<Longrightarrow> unchanged w (snd (m w))" for m :: "('e, 'a) svc" by (simp add: keeps_def)
  show ?thesis
    unfolding get_auction_by_id_def list_auction_query_get_def list_auctions_def list_auction_query_list_def
      list_pending_closures_def list_auction_query_pending_def list_bids_def list_bid_query_list_def
      list_bids_with_cursor_def list_bid_query_list_cursor_def get_proxy_bid_def list_bid_query_get_proxy_bid_def
    by (intro conjI at keeps_intros)
qed

end
